(* ===== verification/Prelude.thy ===== *)
theory Prelude
  imports Complex_Main "HOL-Library.Char_ord" "HOL-Library.List_Lexorder"
begin

text \<open>
  Shared vocabulary of the development: the error values that stand for the exceptions and
  fatal exits of the two GRASS modules under \<open>src/r.futures\<close>, the Python and NumPy
  primitives they call on strings, integers and arrays (\<open>str.split\<close>, \<open>str.join\<close>,
  \<open>str.splitlines\<close>, \<open>str(int)\<close>, \<open>int(str)\<close>, \<open>int(float)\<close>, \<open>numpy.diff\<close>,
  dictionaries with insertion order), and the generic lemmas on them that the component
  theories use. Floats are modelled as \<^typ>\<open>real\<close> (exact arithmetic); the places where
  the program's IEEE behaviour matters are modelled where they occur (\<open>CurveFit\<close>).
\<close>

named_theorems py_simps "evaluation rules of the Python primitives of the model"

section \<open>Errors\<close>

text \<open>
  One constructor per way the program stops: a call of \<open>gcore.fatal\<close>/\<open>gscript.fatal\<close>
  or an uncaught Python or NumPy exception. Strings carry the subregion or line concerned.
\<close>

datatype error =
    DevelopmentCountMismatch      \<comment> \<open>r.futures.demand.py:105--106, \<open>gcore.fatal\<close>\<close>
  | UnsizedObserved               \<comment> \<open>TypeError of \<open>len(observed_times)\<close>, line 105: a one-row table is 0-d\<close>
  | UnivarShortLine string        \<comment> \<open>IndexError at \<open>stats[12]\<close>, line 119\<close>
  | UnivarBadInt string           \<comment> \<open>ValueError of \<open>int(stats[12])\<close>, line 119\<close>
  | UnknownZone string            \<comment> \<open>KeyError at \<open>table_developed[subregionId]\<close>, line 123\<close>
  | MissingPopulation string      \<comment> \<open>ValueError: no field of that name, lines 131--132\<close>
  | InterpEmpty                   \<comment> \<open>\<open>numpy.interp\<close> with empty \<open>xp\<close>\<close>
  | InterpShape                   \<comment> \<open>\<open>numpy.interp\<close> with \<open>len(xp) \<noteq> len(fp)\<close>\<close>
  | LstsqShape                    \<comment> \<open>LinAlgError of \<open>numpy.linalg.lstsq\<close>, line 157\<close>
  | LogDomain string              \<comment> \<open>not an exception: \<open>numpy.log\<close> of a non-positive value (lines 151, 153, 161), where the model ends\<close>
  | EmptyMethods                  \<comment> \<open>ValueError of \<open>min()\<close> on an empty dict, line 172\<close>
  | DemandIndex string            \<comment> \<open>IndexError at \<open>demand[sub][i]\<close>, line 232\<close>
  | MinAboveMax                   \<comment> \<open>r.futures.potential.py:137--138, \<open>gscript.fatal\<close>\<close>
  | RscriptFailed                 \<comment> \<open>r.futures.potential.py:158--160\<close>
  | ShortHeaderRow                \<comment> \<open>IndexError at \<open>row[1]\<close>, r.futures.potential.py:173\<close>
  | BadIntOption string           \<comment> \<open>ValueError of \<open>int(options['min_variables'])\<close>, r.futures.potential.py:131\<close>
  | BadFloatOption string         \<comment> \<open>ValueError of \<open>float(each)\<close>, r.futures.demand.py:96\<close>
  | SubplotIndex                  \<comment> \<open>ValueError of \<open>fig.add_subplot\<close>: index not in \<open>1..rows*cols\<close>, r.futures.demand.py:187\<close>
  | UnsupportedFormat string      \<comment> \<open>ValueError of \<open>fig.savefig\<close>: no writer for the format, r.futures.demand.py:215\<close>
  | EmptyReduction                \<comment> \<open>ValueError of \<open>np.min\<close>, \<open>np.max\<close> on an empty array, r.futures.demand.py:196--197\<close>

type_synonym 'a result = "error + 'a"

text \<open>Sequencing of statements that may raise: the first exception propagates.\<close>

definition res_bind :: "'a result \<Rightarrow> ('a \<Rightarrow> 'b result) \<Rightarrow> 'b result" where
  "res_bind r f = (case r of Inl e \<Rightarrow> Inl e | Inr x \<Rightarrow> f x)"

section \<open>Strings\<close>

text \<open>\<open>s.split(d)\<close> for a one-character separator: empty fields are kept.\<close>

fun py_split :: "char \<Rightarrow> string \<Rightarrow> string list" where
  "py_split d [] = [[]]"
| "py_split d (c # cs) =
     (if c = d then [] # py_split d cs
      else (case py_split d cs of [] \<Rightarrow> [[c]] | w # ws \<Rightarrow> (c # w) # ws))"

text \<open>\<open>d.join(ws)\<close>.\<close>

fun py_join :: "char \<Rightarrow> string list \<Rightarrow> string" where
  "py_join d [] = []"
| "py_join d [w] = w"
| "py_join d (w # ws) = w @ d # py_join d ws"

text \<open>\<open>s.splitlines()\<close> for text whose only line break is \<open>\<newline>\<close>: a final empty
  piece (after a trailing newline) is not a line.\<close>

definition py_splitlines :: "string \<Rightarrow> string list" where
  "py_splitlines s = (let ws = py_split (CHR ''\<newline>'') s in if last ws = [] then butlast ws else ws)"

section \<open>Integers and their decimal text\<close>

definition digit_char :: "nat \<Rightarrow> char" where
  "digit_char d = char_of (48 + d)"

definition is_digit :: "char \<Rightarrow> bool" where
  "is_digit c \<longleftrightarrow> CHR ''0'' \<le> c \<and> c \<le> CHR ''9''"

definition digit_val :: "char \<Rightarrow> nat" where
  "digit_val c = of_char c - 48"

fun nat_digits :: "nat \<Rightarrow> string" where
  "nat_digits n = (if n < 10 then [digit_char n] else nat_digits (n div 10) @ [digit_char (n mod 10)])"

declare nat_digits.simps [simp del]

definition digits_value :: "string \<Rightarrow> nat" where
  "digits_value ds = foldl (\<lambda>acc c. 10 * acc + digit_val c) 0 ds"

text \<open>\<open>str(n)\<close> for a Python \<open>int\<close>.\<close>

definition py_str_int :: "int \<Rightarrow> string" where
  "py_str_int n = (if n < 0 then CHR ''-'' # nat_digits (nat (- n)) else nat_digits (nat n))"

text \<open>\<open>int(s)\<close> for a string: surrounding ASCII whitespace is stripped, an optional sign is
  read, and the rest must be a non-empty run of decimal digits; otherwise ValueError
  (\<^const>\<open>None\<close> here; the caller names the error).\<close>

definition is_space :: "char \<Rightarrow> bool" where
  "is_space c \<longleftrightarrow> c \<in> {CHR '' '', CHR ''\<newline>'', CHR 0x09, CHR 0x0B, CHR 0x0C, CHR 0x0D}"

definition py_strip :: "string \<Rightarrow> string" where
  "py_strip s = rev (dropWhile is_space (rev (dropWhile is_space s)))"

definition unsigned_digits :: "string \<Rightarrow> int option" where
  "unsigned_digits ds = (if ds \<noteq> [] \<and> list_all is_digit ds then Some (int (digits_value ds)) else None)"

definition py_int_of_str :: "string \<Rightarrow> int option" where
  "py_int_of_str s =
     (case py_strip s of
        [] \<Rightarrow> None
      | c # ds \<Rightarrow>
          if c = CHR ''-'' then map_option uminus (unsigned_digits ds)
          else if c = CHR ''+'' then unsigned_digits ds
          else unsigned_digits (c # ds))"

text \<open>\<open>int(x)\<close> for a finite float: truncation towards zero, not \<open>floor\<close>.\<close>

definition py_trunc :: "real \<Rightarrow> int" where
  "py_trunc x = (if x < 0 then \<lceil>x\<rceil> else \<lfloor>x\<rfloor>)"

text \<open>An optional sign in front of a number: its factor and the rest of the text.\<close>

definition sign_split :: "string \<Rightarrow> int \<times> string" where
  "sign_split s =
     (case s of
        c # r \<Rightarrow> if c = CHR ''-'' then (-1, r) else if c = CHR ''+'' then (1, r) else (1, s)
      | [] \<Rightarrow> (1, []))"

text \<open>A decimal literal \<open>[sign] digits [. digits] [(e|E) [sign] digits]\<close>, the whole text,
  with at least one digit before the exponent, read as the exact real it denotes. The
  flag says whether an exponent marker must be followed by a digit: Python's
  \<open>float()\<close> requires one, R's \<open>R_strtod\<close> reads \<open>1e\<close> as \<open>1\<close>.
  The machine rounds the result to the nearest double; the model keeps the exact value,
  which agrees with it on every literal of at most 15 significant digits.\<close>

definition dec_literal :: "bool \<Rightarrow> string \<Rightarrow> real option" where
  "dec_literal need_exp s =
     (let (sg, r) = sign_split s;
          ip = takeWhile is_digit r; r1 = dropWhile is_digit r;
          (fp, r2) = (case r1 of
                        c # r' \<Rightarrow> if c = CHR ''.'' then (takeWhile is_digit r', dropWhile is_digit r') else ([], r1)
                      | [] \<Rightarrow> ([], []));
          m = real_of_int sg * real (digits_value (ip @ fp)) / 10 ^ length fp
      in if ip = [] \<and> fp = [] then None
         else (case r2 of
                 [] \<Rightarrow> Some m
               | c # r3 \<Rightarrow>
                   if c = CHR ''e'' \<or> c = CHR ''E'' then
                     (let (es, r4) = sign_split r3; ed = takeWhile is_digit r4
                      in if dropWhile is_digit r4 = [] \<and> (if need_exp then ed \<noteq> [] else True)
                         then Some (m * 10 powi (es * int (digits_value ed))) else None)
                   else None))"

section \<open>Arrays\<close>

text \<open>\<open>numpy.diff(a)\<close>: \<open>a[i+1] - a[i]\<close>, one entry fewer than \<open>a\<close>.\<close>

fun np_diff :: "real list \<Rightarrow> real list" where
  "np_diff (a # b # rest) = (b - a) # np_diff (b # rest)"
| "np_diff _ = []"

section \<open>Dictionaries in insertion order\<close>

text \<open>A Python \<open>dict\<close> as an association list in insertion order: assigning an existing
  key keeps its position, a new key goes last.\<close>

fun dict_set :: "('k \<times> 'v) list \<Rightarrow> 'k \<Rightarrow> 'v \<Rightarrow> ('k \<times> 'v) list" where
  "dict_set [] k v = [(k, v)]"
| "dict_set ((k', v') # d) k v = (if k' = k then (k, v) # d else (k', v') # dict_set d k v)"

section \<open>Lemmas on the primitives\<close>

lemma res_bind_simps [simp]:
  "res_bind (Inl e) f = Inl e"
  "res_bind (Inr x) f = f x"
  by (simp_all add: res_bind_def)

lemma res_bind_eq_Inr: "res_bind r f = Inr y \<longleftrightarrow> (\<exists>x. r = Inr x \<and> f x = Inr y)"
  by (cases r) auto

lemma res_bind_eq_Inl: "res_bind r f = Inl e \<longleftrightarrow> r = Inl e \<or> (\<exists>x. r = Inr x \<and> f x = Inl e)"
  by (cases r) auto

subsection \<open>Splitting and joining\<close>

lemma py_split_not_Nil [simp]: "py_split d s \<noteq> []"
  by (induction s) (auto split: list.split)

text \<open>Joining the pieces of \<open>s.split(d)\<close> with \<open>d\<close> gives back \<open>s\<close>.\<close>

lemma py_join_split: "py_join d (py_split d s) = s"
proof (induction s)
  case Nil then show ?case by simp
next
  case (Cons c cs)
  then show ?case
    by (cases "py_split d cs" rule: list.exhaust; cases "tl (py_split d cs)") auto
qed

lemma py_join_Cons: "ws \<noteq> [] \<Longrightarrow> py_join d (w # ws) = w @ d # py_join d ws"
  by (cases ws) auto

lemma py_join_not_in: "c \<noteq> d \<Longrightarrow> \<forall>w\<in>set ws. c \<notin> set w \<Longrightarrow> c \<notin> set (py_join d ws)"
  by (induction d ws rule: py_join.induct) auto

lemma py_split_no_sep: "d \<notin> set w \<Longrightarrow> py_split d w = [w]"
  by (induction w) auto

lemma py_split_append_sep: "d \<notin> set w \<Longrightarrow> py_split d (w @ d # u) = w # py_split d u"
  by (induction w) auto

lemma py_split_join:
  "ws \<noteq> [] \<Longrightarrow> \<forall>w\<in>set ws. d \<notin> set w \<Longrightarrow> py_split d (py_join d ws) = ws"
  by (induction ws rule: py_join.induct) (auto simp: py_split_no_sep py_split_append_sep)

lemma py_split_lines:
  "\<forall>l\<in>set ls. d \<notin> set l \<Longrightarrow> py_split d (concat (map (\<lambda>l. l @ [d]) ls)) = ls @ [[]]"
  by (induction ls) (simp_all add: py_split_append_sep)

lemma py_splitlines_lines:
  "\<forall>l\<in>set ls. CHR ''\<newline>'' \<notin> set l \<Longrightarrow> py_splitlines (concat (map (\<lambda>l. l @ [CHR ''\<newline>'']) ls)) = ls"
  by (simp add: py_splitlines_def py_split_lines)

lemma digit_char_is_digit: "d < 10 \<Longrightarrow> is_digit (digit_char d)"
  by (simp add: is_digit_def digit_char_def less_eq_char_def)

lemma digit_val_char: "d < 10 \<Longrightarrow> digit_val (digit_char d) = d"
  by (simp add: digit_val_def digit_char_def)

lemma nat_digits_not_Nil [simp]: "nat_digits n \<noteq> []"
  by (subst nat_digits.simps) simp

lemma nat_digits_are_digits: "\<forall>c\<in>set (nat_digits n). is_digit c"
proof (induction n rule: nat_digits.induct)
  case (1 n)
  then show ?case
    by (subst nat_digits.simps) (auto simp: digit_char_is_digit)
qed

lemma digits_value_snoc: "digits_value (ds @ [c]) = 10 * digits_value ds + digit_val c"
  by (simp add: digits_value_def)

lemma digits_value_nat_digits: "digits_value (nat_digits n) = n"
proof (induction n rule: nat_digits.induct)
  case (1 n)
  show ?case
  proof (cases "n < 10")
    case True
    then show ?thesis
      by (subst nat_digits.simps) (simp add: digits_value_def digit_val_char)
  next
    case False
    with "1.IH" have "digits_value (nat_digits (n div 10)) = n div 10" by simp
    with False show ?thesis
      by (subst nat_digits.simps) (simp add: digits_value_snoc digit_val_char)
  qed
qed

lemma is_digit_not_space: "is_digit c \<Longrightarrow> \<not> is_space c"
  by (auto simp: is_digit_def is_space_def less_eq_char_def)

lemma dropWhile_all_not: "\<forall>c\<in>set xs. \<not> P c \<Longrightarrow> dropWhile P xs = xs"
  by (induction xs) auto

lemma py_strip_id: "\<forall>c\<in>set s. \<not> is_space c \<Longrightarrow> py_strip s = s"
  by (simp add: py_strip_def dropWhile_all_not)

lemma py_str_int_no_space: "\<forall>c\<in>set (py_str_int n). \<not> is_space c"
proof -
  have "\<forall>c\<in>set (nat_digits k). \<not> is_space c" for k
    using nat_digits_are_digits is_digit_not_space by blast
  then show ?thesis by (simp add: py_str_int_def is_space_def)
qed

lemma py_str_int_0 [simp]: "py_str_int 0 = ''0''"
  by code_simp

lemma py_str_int_chars: "c \<in> set (py_str_int n) \<Longrightarrow> c = CHR ''-'' \<or> is_digit c"
  using nat_digits_are_digits by (auto simp: py_str_int_def split: if_splits)

lemma py_str_int_no_sep:
  "d \<noteq> CHR ''-'' \<Longrightarrow> \<not> is_digit d \<Longrightarrow> d \<notin> set (py_str_int n)"
  using py_str_int_chars by blast

lemma unsigned_digits_nat_digits: "unsigned_digits (nat_digits k) = Some (int k)"
  by (simp add: unsigned_digits_def nat_digits_are_digits list_all_iff digits_value_nat_digits)

lemma py_int_of_str_str: "py_int_of_str (py_str_int n) = Some n"
proof -
  have strip: "py_strip (py_str_int n) = py_str_int n"
    by (rule py_strip_id [OF py_str_int_no_space])
  show ?thesis
  proof (cases "n < 0")
    case True
    then show ?thesis
      by (simp add: py_int_of_str_def strip) (simp add: py_str_int_def unsigned_digits_nat_digits)
  next
    case False
    obtain c ds where cds: "nat_digits (nat n) = c # ds"
      using nat_digits_not_Nil by (meson neq_Nil_conv)
    have "is_digit c" using nat_digits_are_digits [of "nat n"] cds by simp
    then have "c \<noteq> CHR ''-''" and "c \<noteq> CHR ''+''"
      by (auto simp: is_digit_def less_eq_char_def)
    moreover have str: "py_str_int n = c # ds"
      using False cds by (simp add: py_str_int_def)
    moreover have "unsigned_digits (c # ds) = Some n"
      using False cds unsigned_digits_nat_digits [of "nat n"] by simp
    ultimately show ?thesis
      using strip by (simp add: py_int_of_str_def)
  qed
qed

lemma length_np_diff [simp]: "length (np_diff xs) = length xs - 1"
  by (induction xs rule: np_diff.induct) auto

lemma nth_np_diff: "i < length xs - 1 \<Longrightarrow> np_diff xs ! i = xs ! Suc i - xs ! i"
proof (induction xs arbitrary: i rule: np_diff.induct)
  case (1 a b rest)
  then show ?case by (cases i) auto
qed auto

lemma sign_split_digits: "\<forall>c\<in>set s. is_digit c \<Longrightarrow> sign_split s = (1, s)"
  by (cases s) (auto simp: sign_split_def is_digit_def)

lemma dec_literal_digits:
  assumes "ds \<noteq> []" and "\<forall>c\<in>set ds. is_digit c"
  shows "dec_literal b ds = Some (real (digits_value ds))"
    and "dec_literal b (CHR ''-'' # ds) = Some (- real (digits_value ds))"
proof -
  have t: "takeWhile is_digit ds = ds" and d: "dropWhile is_digit ds = []"
    using assms(2) by (simp_all add: takeWhile_eq_all_conv)
  show "dec_literal b ds = Some (real (digits_value ds))"
    using assms(1) by (simp add: dec_literal_def sign_split_digits [OF assms(2)] t d)
  show "dec_literal b (CHR ''-'' # ds) = Some (- real (digits_value ds))"
    using assms(1) by (simp add: dec_literal_def sign_split_def t d)
qed

lemma dec_literal_str: "dec_literal b (py_str_int n) = Some (of_int n)"
  using dec_literal_digits [OF nat_digits_not_Nil nat_digits_are_digits]
  by (simp add: py_str_int_def digits_value_nat_digits)

lemma py_trunc_nonneg: "0 \<le> x \<Longrightarrow> py_trunc x = \<lfloor>x\<rfloor>"
  by (simp add: py_trunc_def)

lemma py_trunc_of_int [simp]: "py_trunc (of_int n) = n"
  by (simp add: py_trunc_def)

lemma map_of_dict_set: "map_of (dict_set d k v) = (map_of d)(k \<mapsto> v)"
  by (induction d) (auto simp: fun_upd_twist)

lemma keys_dict_set:
  "map fst (dict_set d k v) = (if k \<in> set (map fst d) then map fst d else map fst d @ [k])"
  by (induction d) force+

lemma set_keys_dict_set [simp]: "fst ` set (dict_set d k v) = insert k (fst ` set d)"
  using keys_dict_set [of d k v] by (metis list.set_map set_append Un_insert_right sup_bot.right_neutral list.set(1,2) insert_absorb)

lemma dict_set_twice: "dict_set (dict_set d k v) k w = dict_set d k w"
  by (induction d) auto

lemma distinct_keys_dict_set: "distinct (map fst d) \<Longrightarrow> distinct (map fst (dict_set d k v))"
  by (auto simp: keys_dict_set)

end
