(* ===== verification/Grass_Options.thy ===== *)
theory Grass_Options
  imports Prelude
begin

text \<open>
  The interface of the two scripts: the \<open>#%option\<close> and \<open>#%flag\<close> declarations at their
  head (r.futures.demand.py lines 20--78, r.futures.potential.py lines 20--62) and the
  GRASS parser that \<open>gcore.parser()\<close> runs on the command line (demand line 240,
  potential line 180) before \<open>main()\<close>. A declaration is a \<open>grass_option\<close>; the standard
  options \<open>G_OPT_*\<close> are the declarations GRASS gives them, with the fields the script
  overrides. \<open>g_parser\<close> returns the two dictionaries the script reads, \<open>options\<close> (the
  empty string for an option that is not given and has no default) and \<open>flags\<close>, or the
  reason the parser stops the script before \<open>main()\<close>.

  The parser is modelled on command lines of words \<open>key=value\<close> and \<open>-flags\<close>, keys
  and listed values written in full. GRASS also accepts a unique prefix of a key or of a
  listed value, a first word without \<open>=\<close> as the value of the first option, and the
  \<open>--\<close> flags common to all modules; the model rejects those words.
\<close>

section \<open>Declarations\<close>

datatype opt_type = TypeString | TypeInteger

text \<open>What \<open>options:\<close> allows: any value, one of a list, an integer range \<open>lo-hi\<close>.\<close>

datatype opt_values = AnyValue | OneOf "string list" | IntRange int int

record grass_option =
  g_key :: string
  g_type :: opt_type
  g_required :: bool
  g_multiple :: bool
  g_values :: opt_values
  g_answer :: string

text \<open>The standard options the two scripts use, with their GRASS defaults.\<close>

definition g_opt :: "string \<Rightarrow> bool \<Rightarrow> bool \<Rightarrow> grass_option" where
  "g_opt key req mult = \<lparr>g_key = key, g_type = TypeString, g_required = req, g_multiple = mult,
                          g_values = AnyValue, g_answer = []\<rparr>"

text \<open>r.futures.demand.py lines 25--78.\<close>

definition demand_decls :: "grass_option list" where
  "demand_decls =
     [g_opt ''development'' True True,                  \<comment> \<open>G_OPT_R_INPUTS\<close>
      g_opt ''subregions'' True False,                  \<comment> \<open>G_OPT_R_INPUT\<close>
      g_opt ''observed_population'' True False,         \<comment> \<open>G_OPT_F_INPUT\<close>
      g_opt ''projected_population'' True False,        \<comment> \<open>G_OPT_F_INPUT\<close>
      \<lparr>g_key = ''simulation_times'', g_type = TypeInteger, g_required = True, g_multiple = True,
       g_values = AnyValue, g_answer = []\<rparr>,
      \<lparr>g_key = ''method'', g_type = TypeString, g_required = True, g_multiple = True,
       g_values = OneOf [''linear'', ''logarithmic'', ''exponential''], g_answer = ''linear,logarithmic''\<rparr>,
      g_opt ''plot'' False False,                       \<comment> \<open>G_OPT_F_OUTPUT, \<open>required: no\<close>\<close>
      g_opt ''demand'' True False,                      \<comment> \<open>G_OPT_F_OUTPUT\<close>
      (g_opt ''separator'' False False)\<lparr>g_answer := ''pipe''\<rparr>]"  \<comment> \<open>G_OPT_F_SEP\<close>

text \<open>r.futures.potential.py lines 25--62.\<close>

definition potential_decls :: "grass_option list" where
  "potential_decls =
     [g_opt ''input'' True False,                       \<comment> \<open>G_OPT_V_INPUT\<close>
      g_opt ''output'' True False,                      \<comment> \<open>G_OPT_F_OUTPUT\<close>
      g_opt ''columns'' True True,                      \<comment> \<open>G_OPT_DB_COLUMNS, \<open>required: yes\<close>\<close>
      g_opt ''developed_column'' True False,            \<comment> \<open>G_OPT_DB_COLUMN, \<open>required: yes\<close>\<close>
      g_opt ''subregions_column'' True False,           \<comment> \<open>G_OPT_DB_COLUMN, \<open>required: yes\<close>\<close>
      \<lparr>g_key = ''min_variables'', g_type = TypeInteger, g_required = False, g_multiple = False,
       g_values = IntRange 1 20, g_answer = ''1''\<rparr>,
      \<lparr>g_key = ''max_variables'', g_type = TypeInteger, g_required = False, g_multiple = False,
       g_values = IntRange 1 20, g_answer = []\<rparr>]"

definition potential_flags :: "char list" where
  "potential_flags = [CHR ''d'']"

section \<open>The parser\<close>

datatype parse_error =
    BadWord string                 \<comment> \<open>neither \<open>key=value\<close> nor \<open>-flags\<close> (see above)\<close>
  | UnknownKey string              \<comment> \<open>"Sorry, <key> is not a valid parameter"\<close>
  | UnknownFlag char               \<comment> \<open>"Sorry, <c> is not a valid flag"\<close>
  | NotMultiple string             \<comment> \<open>"Option <key> does not accept multiple answers"\<close>
  | MissingRequired string         \<comment> \<open>"Required parameter <key> not set"\<close>
  | NotInteger string string       \<comment> \<open>a value of an integer option that is not an integer\<close>
  | OutOfRange string string       \<comment> \<open>an integer outside \<open>lo-hi\<close>\<close>
  | IllegalValue string string     \<comment> \<open>a value not in the list of \<open>options:\<close>\<close>

definition find_decl :: "grass_option list \<Rightarrow> string \<Rightarrow> grass_option option" where
  "find_decl ds k = find (\<lambda>d. g_key d = k) ds"

text \<open>One word of the command line: \<open>key=value\<close> stores the value, appended after a comma
  when the option was given before and is \<open>multiple\<close>; \<open>-abc\<close> sets flags.\<close>

fun g_parse :: "grass_option list \<Rightarrow> char list \<Rightarrow> string list \<Rightarrow> (string \<times> string) list \<Rightarrow> char list \<Rightarrow>
                  parse_error + (string \<times> string) list \<times> char list" where
  "g_parse ds fl [] ans fs = Inr (ans, fs)"
| "g_parse ds fl (w # ws) ans fs =
     (if w \<noteq> [] \<and> hd w = CHR ''-'' then
        (case filter (\<lambda>c. c \<notin> set fl) (tl w) of
           [] \<Rightarrow> (if tl w = [] then Inl (BadWord w) else g_parse ds fl ws ans (fs @ tl w))
         | c # _ \<Rightarrow> Inl (UnknownFlag c))
      else if CHR ''='' \<notin> set w then Inl (BadWord w)
      else
        let k = takeWhile (\<lambda>c. c \<noteq> CHR ''='') w; v = tl (dropWhile (\<lambda>c. c \<noteq> CHR ''='') w)
        in case find_decl ds k of
             None \<Rightarrow> Inl (UnknownKey k)
           | Some d \<Rightarrow>
               (case map_of ans k of
                  None \<Rightarrow> g_parse ds fl ws (dict_set ans k v) fs
                | Some v0 \<Rightarrow> (if g_multiple d then g_parse ds fl ws (dict_set ans k (v0 @ CHR '','' # v)) fs
                             else Inl (NotMultiple k))))"

text \<open>The answers of an option, one per comma for a \<open>multiple\<close> option.\<close>

definition g_items :: "grass_option \<Rightarrow> string \<Rightarrow> string list" where
  "g_items d v = (if g_multiple d then py_split CHR '','' v else [v])"

text \<open>\<open>sscanf(ans, "%d", &d) == 1\<close> in the C library: blanks are skipped, a sign is read,
  and at least one decimal digit must follow; what comes after the digits is ignored. The
  digits are read as an unbounded integer (the C conversion of a number beyond the range
  of \<open>int\<close> is undefined, and such numbers are not modelled).\<close>

definition c_sscanf_int :: "string \<Rightarrow> int option" where
  "c_sscanf_int s =
     (let (sg, r) = sign_split (dropWhile is_space s); ds = takeWhile is_digit r
      in if ds = [] then None else Some (sg * int (digits_value ds)))"

text \<open>The check of one answer against the type and the \<open>options:\<close> of its declaration
  (\<open>check_an_opt\<close> of lib/gis/parser.c). \<open>check_int\<close> accepts \<open>-\<close>, which GRASS
  reserves for the standard input, and otherwise any text whose first number
  \<open>sscanf\<close> reads, checking only that number against the range; a string answer must be
  one of the listed values.\<close>

definition check_item :: "grass_option \<Rightarrow> string \<Rightarrow> parse_error option" where
  "check_item d v =
     (case g_type d of
        TypeInteger \<Rightarrow>
          (if v = ''-'' then None
           else case c_sscanf_int v of
             None \<Rightarrow> Some (NotInteger (g_key d) v)
           | Some n \<Rightarrow> (case g_values d of
                          IntRange lo hi \<Rightarrow> if lo \<le> n \<and> n \<le> hi then None else Some (OutOfRange (g_key d) v)
                        | _ \<Rightarrow> None))
      | TypeString \<Rightarrow>
          (case g_values d of
             OneOf vs \<Rightarrow> if v \<in> set vs then None else Some (IllegalValue (g_key d) v)
           | _ \<Rightarrow> None))"

text \<open>The value an option ends with: the one given, else its default answer, else none.\<close>

definition g_value :: "(string \<times> string) list \<Rightarrow> grass_option \<Rightarrow> string option" where
  "g_value ans d = (case map_of ans (g_key d) of Some v \<Rightarrow> Some v | None \<Rightarrow> if g_answer d = [] then None else Some (g_answer d))"

text \<open>The checks after reading the words, in the order of the declarations: a required
  option without value, then every answer of an option that has a value.\<close>

fun check_decls :: "(string \<times> string) list \<Rightarrow> grass_option list \<Rightarrow> parse_error option" where
  "check_decls ans [] = None"
| "check_decls ans (d # ds) =
     (case g_value ans d of
        None \<Rightarrow> if g_required d then Some (MissingRequired (g_key d)) else check_decls ans ds
      | Some v \<Rightarrow> (case List.find (\<lambda>e. e \<noteq> None) (map (check_item d) (g_items d v)) of
                   Some e \<Rightarrow> e
                 | None \<Rightarrow> check_decls ans ds))"

text \<open>\<open>gcore.parser()\<close>: the dictionaries \<open>options\<close> and \<open>flags\<close>, or the error that stops
  the script.\<close>

definition g_parser :: "grass_option list \<Rightarrow> char list \<Rightarrow> string list \<Rightarrow>
                          parse_error + (string \<times> string) list \<times> (char \<times> bool) list" where
  "g_parser ds fl argv =
     (case g_parse ds fl argv [] [] of
        Inl e \<Rightarrow> Inl e
      | Inr (ans, fs) \<Rightarrow>
          (case check_decls ans ds of
             Some e \<Rightarrow> Inl e
           | None \<Rightarrow> Inr (map (\<lambda>d. (g_key d, case g_value ans d of Some v \<Rightarrow> v | None \<Rightarrow> [])) ds,
                         map (\<lambda>c. (c, c \<in> set fs)) fl)))"

text \<open>\<open>options[key]\<close> and \<open>flags[c]\<close>.\<close>

definition opt_get :: "(string \<times> string) list \<Rightarrow> string \<Rightarrow> string" where
  "opt_get opts k = (case map_of opts k of Some v \<Rightarrow> v | None \<Rightarrow> [])"

definition flag_get :: "(char \<times> bool) list \<Rightarrow> char \<Rightarrow> bool" where
  "flag_get fl c = (case map_of fl c of Some b \<Rightarrow> b | None \<Rightarrow> False)"

section \<open>Lemmas\<close>

lemma find_None_all: "List.find P xs = None \<longleftrightarrow> (\<forall>x\<in>set xs. \<not> P x)"
  by (induction xs) auto

lemma c_sscanf_signed_digits:
  assumes "ds \<noteq> []" and "\<forall>c\<in>set ds. is_digit c" and "\<forall>c\<in>set sp. is_space c" and "sign_split u = (sg, ds)"
  shows "c_sscanf_int (u @ sp) = Some (sg * int (digits_value ds))"
proof -
  have "sign_split (u @ sp) = (sg, ds @ sp)"
    using assms(1,4) by (cases u) (auto simp: sign_split_def split: if_splits)
  moreover have "takeWhile is_digit (ds @ sp) = ds"
    using assms(2,3) is_digit_not_space by (cases sp) (auto simp: takeWhile_append2)
  moreover have "dropWhile is_space (u @ sp) = u @ sp"
  proof (cases u)
    case Nil
    then show ?thesis using assms(1,4) by (simp add: sign_split_def)
  next
    case (Cons c r)
    have "\<not> is_space c"
    proof (cases "c = CHR ''-'' \<or> c = CHR ''+''")
      case True
      then show ?thesis by (auto simp: is_space_def)
    next
      case False
      then have "ds = u" using assms(4) Cons by (auto simp: sign_split_def)
      then show ?thesis using assms(2) Cons is_digit_not_space by simp
    qed
    then show ?thesis using Cons by simp
  qed
  ultimately show ?thesis using assms(1) by (simp add: c_sscanf_int_def)
qed

text \<open>A text that Python's \<open>int()\<close> reads is read to the same number by \<open>sscanf\<close>.\<close>

lemma py_int_sscanf: "py_int_of_str v = Some n \<Longrightarrow> c_sscanf_int v = Some n"
proof -
  assume a: "py_int_of_str v = Some n"
  define t where "t = dropWhile is_space v"
  have t_split: "t = py_strip v @ rev (takeWhile is_space (rev t))"
    using takeWhile_dropWhile_id [of is_space "rev t"]
    by (metis py_strip_def rev_append rev_rev_ident t_def)
  have sp: "\<forall>c\<in>set (rev (takeWhile is_space (rev t))). is_space c"
    by (auto dest: set_takeWhileD)
  have lead: "dropWhile is_space v = t" by (simp add: t_def)
  have c: "c_sscanf_int v = c_sscanf_int t"
    by (simp add: c_sscanf_int_def t_def)
  obtain sg ds where "sign_split (py_strip v) = (sg, ds)" and "ds \<noteq> []" and "\<forall>c\<in>set ds. is_digit c"
    and "n = sg * int (digits_value ds)"
    using a by (auto simp: py_int_of_str_def unsigned_digits_def sign_split_def list_all_iff
                   split: list.splits if_splits)
  with c_sscanf_signed_digits [OF _ _ sp] t_split c show ?thesis by metis
qed

lemma find_Some_mem: "List.find P xs = Some x \<Longrightarrow> x \<in> set xs \<and> P x"
  by (induction xs) (auto split: if_splits)

lemma check_decls_None:
  assumes "check_decls ans ds = None" and "d \<in> set ds"
  shows "case g_value ans d of None \<Rightarrow> \<not> g_required d | Some v \<Rightarrow> (\<forall>i\<in>set (g_items d v). check_item d i = None)"
  using assms
proof (induction ds)
  case (Cons d' ds)
  show ?case
  proof (cases "d = d'")
    case True
    with Cons.prems(1) show ?thesis
      by (auto simp: find_None_all find_Some_iff split: option.splits if_splits)
  next
    case False
    with Cons show ?thesis by (auto simp: find_Some_iff split: option.splits if_splits)
  qed
qed simp

lemma map_of_keys_map:
  assumes "distinct (map g_key ds)" and "d \<in> set ds"
  shows "map_of (map (\<lambda>d. (g_key d, f d)) ds) (g_key d) = Some (f d)"
  using assms by (induction ds) (auto simp: rev_image_eqI)

text \<open>What the script finds in \<open>options\<close> after the parser accepted the command line:
  for each declared option, a value that passed its checks, or the empty string for an
  optional option without default.\<close>

lemma g_parser_option:
  assumes "g_parser ds fl argv = Inr (opts, flags)" and "distinct (map g_key ds)" and "d \<in> set ds"
  shows "\<not> g_required d \<and> g_answer d = [] \<and> opt_get opts (g_key d) = [] \<or>
           (\<forall>i\<in>set (g_items d (opt_get opts (g_key d))). check_item d i = None)"
proof -
  obtain ans fs where p: "g_parse ds fl argv [] [] = Inr (ans, fs)" and c: "check_decls ans ds = None"
    and o: "opts = map (\<lambda>d. (g_key d, case g_value ans d of Some v \<Rightarrow> v | None \<Rightarrow> [])) ds"
    using assms(1) by (auto simp: g_parser_def split: sum.splits prod.splits option.splits)
  have get: "opt_get opts (g_key d) = (case g_value ans d of Some v \<Rightarrow> v | None \<Rightarrow> [])"
    unfolding o opt_get_def
    using map_of_keys_map [OF assms(2,3), where f = "\<lambda>d. case g_value ans d of Some v \<Rightarrow> v | None \<Rightarrow> []"] by simp
  show ?thesis
    using check_decls_None [OF c assms(3)] get by (auto simp: g_value_def split: option.splits if_splits)
qed

text \<open>The words that do not name an option leave its value alone.\<close>

lemma g_parse_absent:
  assumes "g_parse ds fl ws ans fs = Inr (ans', fs')" and "\<forall>w\<in>set ws. takeWhile (\<lambda>c. c \<noteq> CHR ''='') w \<noteq> k"
  shows "map_of ans' k = map_of ans k"
  using assms
proof (induction ds fl ws ans fs rule: g_parse.induct)
  case (2 ds fl w ws ans fs)
  then show ?case
    by (auto simp: Let_def map_of_dict_set split: if_splits list.splits option.splits)
qed simp

text \<open>An option no word of the command line names ends with its default answer.\<close>

lemma g_parser_default:
  assumes "g_parser ds fl argv = Inr (opts, flags)" and "distinct (map g_key ds)" and "d \<in> set ds"
    and "\<forall>w\<in>set argv. takeWhile (\<lambda>c. c \<noteq> CHR ''='') w \<noteq> g_key d"
  shows "opt_get opts (g_key d) = g_answer d"
proof -
  obtain ans fs where p: "g_parse ds fl argv [] [] = Inr (ans, fs)"
    and o: "opts = map (\<lambda>d. (g_key d, case g_value ans d of Some v \<Rightarrow> v | None \<Rightarrow> [])) ds"
    using assms(1) by (auto simp: g_parser_def split: sum.splits prod.splits option.splits)
  have "map_of ans (g_key d) = None" using g_parse_absent [OF p assms(4)] by simp
  then show ?thesis
    unfolding o opt_get_def
    using map_of_keys_map [OF assms(2,3), where f = "\<lambda>d. case g_value ans d of Some v \<Rightarrow> v | None \<Rightarrow> []"]
    by (simp add: g_value_def)
qed

end
