(* ===== verification/Interp.thy ===== *)
theory Interp
  imports Prelude
begin

text \<open>
  Population at the simulation times, r.futures.demand.py lines 126--132: for every
  subregion of the developed-cell table, \<open>numpy.interp\<close> over the observed followed by the
  projected (time, population) samples. \<open>numpy.interp\<close> returns the first sample's value
  left of the first time, the last sample's value from the last time on, the sample's value
  at a sample time and the linear interpolant between neighbouring samples. It locates the
  segment by binary search, which for increasing sample times finds the segment the scan
  below finds. Sample times that do not increase are not checked by NumPy (nor here).
\<close>

fun interp_seg :: "real \<Rightarrow> (real \<times> real) list \<Rightarrow> real" where
  "interp_seg x [] = 0"
| "interp_seg x [(x0, f0)] = f0"
| "interp_seg x ((x0, f0) # (x1, f1) # ps) =
     (if x < x1 then (if x \<le> x0 then f0 else (f1 - f0) / (x1 - x0) * (x - x0) + f0)
      else interp_seg x ((x1, f1) # ps))"

text \<open>\<open>numpy.interp(x=sim, xp=xp, fp=fp)\<close>, with its two ValueErrors.\<close>

definition np_interp :: "real list \<Rightarrow> real list \<Rightarrow> real list \<Rightarrow> real list result" where
  "np_interp sim xp fp =
     (if xp = [] then Inl InterpEmpty
      else if length fp \<noteq> length xp then Inl InterpShape
      else Inr (map (\<lambda>x. interp_seg x (zip xp fp)) sim))"

text \<open>A population table as \<open>numpy.genfromtxt(..., names=True)\<close> reads it: its columns in
  header order, the first being the time column. For a table of one data row
  \<open>genfromtxt\<close> returns a 0-d array, whose fields have no length: \<open>main()\<close> raises at
  \<open>len(observed_times)\<close> (line 105, \<open>UnsizedObserved\<close> in \<open>Pipeline\<close>), while
  \<open>np.append\<close> (lines 130--132) flattens a one-row projected table, which a column of
  one value models.\<close>

type_synonym pop_table = "(string \<times> real list) list"

definition pop_column :: "pop_table \<Rightarrow> string \<Rightarrow> real list result" where
  "pop_column t sid = (case map_of t sid of None \<Rightarrow> Inl (MissingPopulation sid) | Some c \<Rightarrow> Inr c)"

definition time_column :: "pop_table \<Rightarrow> real list" where
  "time_column t = snd (hd t)"

text \<open>Lines 128--132 for the subregions \<open>sids\<close> (the keys of \<open>table_developed\<close>).\<close>

fun interp_subregions :: "real list \<Rightarrow> pop_table \<Rightarrow> pop_table \<Rightarrow> string list \<Rightarrow>
    (string \<times> real list) list result" where
  "interp_subregions sim obs proj [] = Inr []"
| "interp_subregions sim obs proj (sid # sids) =
     res_bind (pop_column obs sid) (\<lambda>fo.
     res_bind (pop_column proj sid) (\<lambda>fp.
     res_bind (np_interp sim (time_column obs @ time_column proj) (fo @ fp)) (\<lambda>v.
     res_bind (interp_subregions sim obs proj sids) (\<lambda>rest. Inr ((sid, v) # rest)))))"

section \<open>Lemmas\<close>

lemma interp_seg_head:
  "ps \<noteq> [] \<Longrightarrow> x \<le> fst (hd ps) \<Longrightarrow> sorted_wrt (<) (map fst ps) \<Longrightarrow> interp_seg x ps = snd (hd ps)"
proof (induction x ps rule: interp_seg.induct)
  case (3 x x0 f0 x1 f1 ps)
  then show ?case by auto
qed auto

lemma interp_seg_last: "ps \<noteq> [] \<Longrightarrow> fst (last ps) \<le> x \<Longrightarrow> sorted (map fst ps) \<Longrightarrow> interp_seg x ps = snd (last ps)"
proof (induction x ps rule: interp_seg.induct)
  case (3 x x0 f0 x1 f1 ps)
  have "x1 \<le> fst (last ((x1, f1) # ps))" using "3.prems"(3) by (cases ps rule: rev_cases) (auto simp: sorted_append)
  with "3" show ?case by auto
qed auto

lemma interp_seg_between:
  "(\<forall>p\<in>set ps. lo \<le> snd p \<and> snd p \<le> hi) \<Longrightarrow> ps \<noteq> [] \<Longrightarrow> lo \<le> interp_seg x ps \<and> interp_seg x ps \<le> hi"
proof (induction x ps rule: interp_seg.induct)
  case (3 x x0 f0 x1 f1 ps)
  show ?case
  proof (cases "x < x1 \<and> \<not> x \<le> x0")
    case True
    define t where "t = (x - x0) / (x1 - x0)"
    have t: "0 \<le> t" "t \<le> 1" using True by (auto simp: t_def)
    have v: "(f1 - f0) / (x1 - x0) * (x - x0) + f0 = (1 - t) * f0 + t * f1"
    proof -
      have "(f1 - f0) / (x1 - x0) * (x - x0) = t * (f1 - f0)" by (simp add: t_def)
      then show ?thesis by (simp add: algebra_simps)
    qed
    have b: "lo \<le> f0" "f0 \<le> hi" "lo \<le> f1" "f1 \<le> hi" using "3.prems"(1) by auto
    have "lo = (1 - t) * lo + t * lo" "hi = (1 - t) * hi + t * hi" by (simp_all add: algebra_simps)
    then have "lo \<le> (1 - t) * f0 + t * f1 \<and> (1 - t) * f0 + t * f1 \<le> hi"
      using t b by (metis add_mono mult_left_mono diff_ge_0_iff_ge)
    with True v show ?thesis by simp
  next
    case False
    with "3" show ?thesis by auto
  qed
qed auto

lemma interp_seg_node:
  "sorted_wrt (<) (map fst ps) \<Longrightarrow> p \<in> set ps \<Longrightarrow> interp_seg (fst p) ps = snd p"
proof (induction "fst p" ps rule: interp_seg.induct)
  case (3 x0 f0 x1 f1 ps)
  show ?case
  proof (cases "p = (x0, f0)")
    case True
    with "3.prems"(1) show ?thesis by auto
  next
    case False
    with "3.prems"(2) have p: "p \<in> set ((x1, f1) # ps)" by auto
    with "3.prems"(1) have "x1 \<le> fst p" by auto
    with "3.hyps" "3.prems"(1) p show ?thesis by auto
  qed
qed auto

lemma np_interp_Inr:
  "np_interp sim xp fp = Inr ys \<longleftrightarrow> xp \<noteq> [] \<and> length fp = length xp \<and> ys = map (\<lambda>x. interp_seg x (zip xp fp)) sim"
  by (auto simp: np_interp_def)

theorem np_interp_length: "np_interp sim xp fp = Inr ys \<Longrightarrow> length ys = length sim"
  by (simp add: np_interp_Inr)

text \<open>For strictly increasing sample times, interpolation at a sample time returns that
  sample's population exactly.\<close>

theorem np_interp_exact:
  assumes "sorted_wrt (<) xp" and "length fp = length xp" and "i < length xp"
  shows "np_interp [xp ! i] xp fp = Inr [fp ! i]"
proof -
  have "(xp ! i, fp ! i) \<in> set (zip xp fp)" using assms(2,3) by (metis in_set_zip fst_conv snd_conv)
  moreover have "sorted_wrt (<) (map fst (zip xp fp))" using assms(1,2) by simp
  ultimately have "interp_seg (xp ! i) (zip xp fp) = fp ! i"
    using interp_seg_node [of "zip xp fp" "(xp ! i, fp ! i)"] by simp
  with assms show ?thesis by (auto simp: np_interp_def)
qed

lemma zip_sorted_facts:
  assumes "sorted_wrt (<) xp" and "length fp = length xp" and "xp \<noteq> []"
  shows "zip xp fp \<noteq> []" "sorted (map fst (zip xp fp))" "sorted_wrt (<) (map fst (zip xp fp))"
    "hd (zip xp fp) = (hd xp, hd fp)" "last (zip xp fp) = (last xp, last fp)"
proof -
  have len: "fp \<noteq> []" using assms(2,3) by auto
  show "zip xp fp \<noteq> []" using assms(2,3) by (auto simp: zip_eq_Nil_iff)
  show "sorted (map fst (zip xp fp))" "sorted_wrt (<) (map fst (zip xp fp))"
    using assms(1,2) by (simp_all add: strict_sorted_imp_sorted)
  show "hd (zip xp fp) = (hd xp, hd fp)" using assms(3) len by (simp add: hd_zip)
  show "last (zip xp fp) = (last xp, last fp)" using assms(2,3) len by (intro last_zip) simp_all
qed

text \<open>For strictly increasing sample times, at or left of the first sample time the first
  population is returned.\<close>

theorem np_interp_clamp_left:
  assumes "sorted_wrt (<) xp" and "length fp = length xp" and "xp \<noteq> []" and "x \<le> hd xp"
  shows "np_interp [x] xp fp = Inr [hd fp]"
  using interp_seg_head [of "zip xp fp" x] zip_sorted_facts [OF assms(1-3)] assms
  by (simp add: np_interp_def)

text \<open>For strictly increasing sample times, at or right of the last sample time the last
  population is returned.\<close>

theorem np_interp_clamp_right:
  assumes "sorted_wrt (<) xp" and "length fp = length xp" and "xp \<noteq> []" and "last xp \<le> x"
  shows "np_interp [x] xp fp = Inr [last fp]"
  using interp_seg_last [of "zip xp fp" x] zip_sorted_facts [OF assms(1-3)] assms
  by (simp add: np_interp_def)

text \<open>Every interpolated value lies within any bounds of the sampled populations.\<close>

theorem np_interp_bounds:
  assumes "np_interp sim xp fp = Inr ys" and b: "\<forall>f\<in>set fp. lo \<le> f \<and> f \<le> hi"
  shows "\<forall>y\<in>set ys. lo \<le> y \<and> y \<le> hi"
proof -
  from assms(1) have nz: "zip xp fp \<noteq> []" and ys: "ys = map (\<lambda>x. interp_seg x (zip xp fp)) sim"
    by (auto simp: np_interp_Inr zip_eq_Nil_iff)
  have "\<forall>p\<in>set (zip xp fp). lo \<le> snd p \<and> snd p \<le> hi" using b by (auto dest: set_zip_rightD)
  with interp_seg_between [OF _ nz] ys show ?thesis by auto
qed

lemma np_interp_pos:
  assumes "np_interp sim xp fp = Inr ys" and "\<forall>f\<in>set fp. 0 < f"
  shows "\<forall>y\<in>set ys. 0 < y"
proof -
  from assms(1) have nz: "zip xp fp \<noteq> []" and ne: "fp \<noteq> []"
    and ys: "ys = map (\<lambda>x. interp_seg x (zip xp fp)) sim"
    by (auto simp: np_interp_Inr zip_eq_Nil_iff)
  let ?lo = "Min (set fp)" and ?hi = "Max (set fp)"
  have lo: "0 < ?lo" using assms(2) ne by simp
  have "\<forall>p\<in>set (zip xp fp). ?lo \<le> snd p \<and> snd p \<le> ?hi" by (auto dest: set_zip_rightD)
  from interp_seg_between [OF this nz] have "\<forall>x. ?lo \<le> interp_seg x (zip xp fp)" by blast
  with ys lo show ?thesis by (auto intro: less_le_trans)
qed

lemma interp_subregions_ConsE:
  assumes "interp_subregions sim obs proj (sid # sids) = Inr r"
  obtains fo fp v rest where "pop_column obs sid = Inr fo" "pop_column proj sid = Inr fp"
    "np_interp sim (time_column obs @ time_column proj) (fo @ fp) = Inr v"
    "interp_subregions sim obs proj sids = Inr rest" "r = (sid, v) # rest"
  using assms by (auto simp: res_bind_eq_Inr)

text \<open>The loop of lines 128--132: one interpolated series per subregion, as long as the list of
  simulation times, and positive when the populations are.\<close>

theorem interp_subregions_correct:
  assumes "interp_subregions sim obs proj sids = Inr r"
  shows "map fst r = sids \<and> (\<forall>(sid, v)\<in>set r. length v = length sim)"
  using assms
proof (induction sids arbitrary: r)
  case (Cons sid sids)
  from Cons.prems show ?case
    by (rule interp_subregions_ConsE) (use Cons.IH np_interp_length in fastforce)
qed simp

text \<open>When every observed and projected population of the subregions is positive, every
  interpolated population (lines 128--132) is positive, as the logarithmic method needs.\<close>

lemma interp_subregions_pos:
  assumes "interp_subregions sim obs proj sids = Inr r"
    and "\<forall>sid\<in>set sids. \<forall>c. (pop_column obs sid = Inr c \<or> pop_column proj sid = Inr c) \<longrightarrow> (\<forall>f\<in>set c. 0 < f)"
  shows "\<forall>(sid, v)\<in>set r. \<forall>y\<in>set v. 0 < y"
  using assms
proof (induction sids arbitrary: r)
  case (Cons sid sids)
  from Cons.prems(1) show ?case
  proof (rule interp_subregions_ConsE)
    fix fo fp v rest
    assume fo: "pop_column obs sid = Inr fo" and fp: "pop_column proj sid = Inr fp"
      and v: "np_interp sim (time_column obs @ time_column proj) (fo @ fp) = Inr v"
      and rest: "interp_subregions sim obs proj sids = Inr rest" and r: "r = (sid, v) # rest"
    have "\<forall>f\<in>set (fo @ fp). 0 < f" using Cons.prems(2) fo fp by auto
    with np_interp_pos [OF v] have "\<forall>y\<in>set v. 0 < y" by blast
    moreover have "\<forall>(sid, v)\<in>set rest. \<forall>y\<in>set v. 0 < y"
      using Cons.IH [OF rest] Cons.prems(2) by auto
    ultimately show ?thesis using r by auto
  qed
qed simp

text \<open>The loop of lines 128--132 does not raise when every subregion has an observed and a
  projected population series, together as long as the time samples, and there are samples.\<close>

lemma interp_subregions_succeeds:
  assumes "\<forall>sid\<in>set sids. \<exists>fo fp. pop_column obs sid = Inr fo \<and> pop_column proj sid = Inr fp \<and>
             length fo + length fp = length (time_column obs) + length (time_column proj)"
    and "time_column obs @ time_column proj \<noteq> []"
  shows "\<exists>r. interp_subregions sim obs proj sids = Inr r"
  using assms(1)
proof (induction sids)
  case (Cons sid sids)
  then obtain fo fp where fo: "pop_column obs sid = Inr fo" and fp: "pop_column proj sid = Inr fp"
    and l: "length fo + length fp = length (time_column obs) + length (time_column proj)" by auto
  from Cons obtain rest where "interp_subregions sim obs proj sids = Inr rest" by auto
  with fo fp l assms(2) show ?case by (simp add: np_interp_def)
qed simp

section \<open>Examples\<close>

theorem np_interp_exact_witness: "np_interp [2005] [2000, 2005, 2010] [1000, 1500, 2000] = Inr [1500]"
  using np_interp_exact [where xp = "[2000, 2005, 2010]" and fp = "[1000, 1500, 2000]" and i = 1] by simp

theorem np_interp_clamp_left_witness: "np_interp [1990] [2000, 2005, 2010] [1000, 1500, 2000] = Inr [1000]"
  using np_interp_clamp_left [where xp = "[2000, 2005, 2010]" and fp = "[1000, 1500, 2000]" and x = 1990] by simp

theorem np_interp_clamp_right_witness: "np_interp [2020] [2000, 2005, 2010] [1000, 1500, 2000] = Inr [2000]"
  using np_interp_clamp_right [where xp = "[2000, 2005, 2010]" and fp = "[1000, 1500, 2000]" and x = 2020] by simp

lemma np_interp_example: "np_interp [2002, 2008] [2000, 2005, 2010] [1000, 1500, 2000] = Inr [1200, 1800]"
  by (simp add: np_interp_def)

theorem np_interp_bounds_witness:
  "np_interp [2002, 2008] [2000, 2005, 2010] [1000, 1500, 2000] = Inr [1200, 1800] \<and>
   list_all (\<lambda>y. 1000 \<le> y \<and> y \<le> (2000 :: real)) [1200, 1800]"
  using np_interp_bounds [OF np_interp_example, where lo = 1000 and hi = 2000] np_interp_example by simp

end
