(* ===== verification/Univar.thy ===== *)
theory Univar
  imports Prelude
begin

text \<open>
  Developed cells per subregion, r.futures.demand.py lines 108--125. For the \<open>i\<close>-th
  development raster, \<open>r.univar -gt\<close> prints one line per zone, fields separated by \<open>|\<close>,
  after a header line whose first field is \<open>zone\<close>; field 12 is the sum of the binary
  raster over the zone, that is, its developed cells. The first raster creates an empty
  list for every zone it reports; every raster appends its count. A zone first reported
  by a later raster has no list: KeyError.
\<close>

record dev_state =
  table_developed :: "(string \<times> int list) list"
  subregion_ids :: "string list"

definition dev_init :: dev_state where
  "dev_init = \<lparr>table_developed = [], subregion_ids = []\<rparr>"

text \<open>Lines 116--119 for one line of output: \<^const>\<open>None\<close> for the header line.\<close>

definition parse_univar_line :: "string \<Rightarrow> (string \<times> int) option result" where
  "parse_univar_line line =
     (let stats = py_split CHR ''|'' line
      in if hd stats = ''zone'' then Inr None
         else if length stats \<le> 12 then Inl (UnivarShortLine line)
         else (case py_int_of_str (stats ! 12) of
                 None \<Rightarrow> Inl (UnivarBadInt (stats ! 12))
               | Some n \<Rightarrow> Inr (Some (hd stats, n))))"

text \<open>Lines 120--123 for the zone \<open>sid\<close> with \<open>cells\<close> developed cells in raster \<open>i\<close>.\<close>

definition add_zone :: "nat \<Rightarrow> string \<Rightarrow> int \<Rightarrow> dev_state \<Rightarrow> dev_state result" where
  "add_zone i sid cells st =
     (let ids = (if sid \<in> set (subregion_ids st) then subregion_ids st else subregion_ids st @ [sid]);
          tbl = (if i = 0 then dict_set (table_developed st) sid [] else table_developed st)
      in case map_of tbl sid of
           None \<Rightarrow> Inl (UnknownZone sid)
         | Some xs \<Rightarrow> Inr \<lparr>table_developed = dict_set tbl sid (xs @ [cells]), subregion_ids = ids\<rparr>)"

fun gather_lines :: "nat \<Rightarrow> string list \<Rightarrow> dev_state \<Rightarrow> dev_state result" where
  "gather_lines i [] st = Inr st"
| "gather_lines i (l # ls) st =
     res_bind (parse_univar_line l) (\<lambda>p.
       case p of None \<Rightarrow> gather_lines i ls st
       | Some (sid, cells) \<Rightarrow> res_bind (add_zone i sid cells st) (gather_lines i ls))"

text \<open>Lines 112--124 over the outputs of \<open>r.univar\<close>, raster \<open>i\<close> onwards.\<close>

fun gather_rasters :: "nat \<Rightarrow> string list \<Rightarrow> dev_state \<Rightarrow> dev_state result" where
  "gather_rasters i [] st = Inr st"
| "gather_rasters i (out # outs) st =
     res_bind (gather_lines i (py_splitlines out) st) (gather_rasters (Suc i) outs)"

text \<open>Lines 108--125: the table and the sorted list of subregion identifiers.\<close>

definition gather_developed :: "string list \<Rightarrow> ((string \<times> int list) list \<times> string list) result" where
  "gather_developed outs =
     res_bind (gather_rasters 0 outs dev_init) (\<lambda>st. Inr (table_developed st, sort (subregion_ids st)))"

text \<open>The set \<open>subregionIds\<close> and the keys of \<open>table_developed\<close> agree.\<close>

definition dev_inv :: "dev_state \<Rightarrow> bool" where
  "dev_inv st \<longleftrightarrow> set (subregion_ids st) = fst ` set (table_developed st)"

text \<open>What \<open>r.univar -gt\<close> prints for one raster: a header line \<open>h\<close>, then one line
  \<open>l z c\<close> per zone \<open>z\<close> with \<open>c\<close> developed cells, each line ended by a newline.\<close>

definition univar_text :: "string \<Rightarrow> (string \<Rightarrow> int \<Rightarrow> string) \<Rightarrow> (string \<times> int) list \<Rightarrow> string" where
  "univar_text h l zs = concat (map (\<lambda>x. x @ [CHR ''\<newline>'']) (h # map (\<lambda>(z, c). l z c) zs))"

text \<open>A data line of \<open>r.univar -gt\<close> for the examples.\<close>

definition example_line :: "string \<Rightarrow> int \<Rightarrow> string" where
  "example_line z c = z @ ''||0|0|0|1|1|0|0|0|0|0|'' @ py_str_int c"

section \<open>Lemmas\<close>

text \<open>A data line of \<open>r.univar\<close> whose field 12 is the decimal text of \<open>n\<close> is read as zone
  \<open>hd fs\<close> with \<open>n\<close> developed cells.\<close>

theorem parse_univar_line_roundtrip:
  assumes "13 \<le> length fs" and "\<forall>f\<in>set fs. CHR ''|'' \<notin> set f"
    and "hd fs \<noteq> ''zone''" and "fs ! 12 = py_str_int n"
  shows "parse_univar_line (py_join CHR ''|'' fs) = Inr (Some (hd fs, n))"
proof -
  have "fs \<noteq> []" using assms(1) by auto
  then have "py_split CHR ''|'' (py_join CHR ''|'' fs) = fs"
    using assms(2) by (rule py_split_join)
  with assms show ?thesis by (simp add: parse_univar_line_def py_int_of_str_str)
qed

text \<open>A data line with at most 12 fields fails with the IndexError of \<open>stats[12]\<close>
  (line 119).\<close>

theorem parse_univar_line_short:
  assumes "length (py_split CHR ''|'' line) \<le> 12" and "hd (py_split CHR ''|'' line) \<noteq> ''zone''"
  shows "parse_univar_line line = Inl (UnivarShortLine line)"
  using assms by (simp add: parse_univar_line_def)

lemma parse_univar_line_header: "parse_univar_line (''zone|'' @ rest) = Inr None"
proof -
  have "py_split CHR ''|'' (''zone'' @ CHR ''|'' # rest) = ''zone'' # py_split CHR ''|'' rest"
    by (rule py_split_append_sep) simp
  then show ?thesis by (simp add: parse_univar_line_def)
qed

text \<open>A zone that the first raster does not report makes a later raster fail with the
  KeyError of line 123.\<close>

theorem add_zone_unknown:
  "0 < i \<Longrightarrow> sid \<notin> fst ` set (table_developed st) \<Longrightarrow> add_zone i sid cells st = Inl (UnknownZone sid)"
  by (simp add: add_zone_def Let_def map_of_eq_None_iff [symmetric])

lemma add_zone_first:
  "add_zone 0 sid cells st =
     Inr \<lparr>table_developed = dict_set (table_developed st) sid [cells],
         subregion_ids = (if sid \<in> set (subregion_ids st) then subregion_ids st else subregion_ids st @ [sid])\<rparr>"
  by (simp add: add_zone_def Let_def map_of_dict_set dict_set_twice)

lemma add_zone_inv:
  assumes "add_zone i sid cells st = Inr st'" and "dev_inv st"
  shows "dev_inv st'"
proof -
  let ?tbl = "if i = 0 then dict_set (table_developed st) sid [] else table_developed st"
  from assms(1) obtain xs where xs: "map_of ?tbl sid = Some xs"
    and st': "st' = \<lparr>table_developed = dict_set ?tbl sid (xs @ [cells]),
                     subregion_ids = (if sid \<in> set (subregion_ids st) then subregion_ids st
                                      else subregion_ids st @ [sid])\<rparr>"
    by (auto simp: add_zone_def Let_def split: option.splits)
  have "sid \<in> fst ` set ?tbl" using map_of_SomeD [OF xs] by force
  then have keys: "fst ` set ?tbl = insert sid (fst ` set (table_developed st))"
    by (auto split: if_splits)
  show ?thesis using assms(2) keys st' by (auto simp: dev_inv_def)
qed

lemma gather_lines_inv: "gather_lines i ls st = Inr st' \<Longrightarrow> dev_inv st \<Longrightarrow> dev_inv st'"
proof (induction ls arbitrary: st)
  case (Cons l ls)
  from Cons.prems(1) obtain p where p: "parse_univar_line l = Inr p"
    and rest: "(case p of None \<Rightarrow> gather_lines i ls st
               | Some (sid, cells) \<Rightarrow> res_bind (add_zone i sid cells st) (gather_lines i ls)) = Inr st'"
    by (auto simp: res_bind_eq_Inr)
  show ?case
  proof (cases p)
    case None
    with rest Cons show ?thesis by simp
  next
    case (Some zc)
    obtain sid cells where zc: "zc = (sid, cells)" by (cases zc)
    with rest Some obtain st1 where a: "add_zone i sid cells st = Inr st1" and g: "gather_lines i ls st1 = Inr st'"
      by (auto simp: res_bind_eq_Inr)
    from Cons.IH [OF g add_zone_inv [OF a Cons.prems(2)]] show ?thesis .
  qed
qed simp

lemma gather_rasters_inv: "gather_rasters i outs st = Inr st' \<Longrightarrow> dev_inv st \<Longrightarrow> dev_inv st'"
  by (induction outs arbitrary: i st) (auto simp: res_bind_eq_Inr dest: gather_lines_inv)

lemma gather_developed_ids:
  assumes "gather_developed outs = Inr (tbl, ids)"
  shows "set ids = fst ` set tbl"
proof -
  from assms obtain st where g: "gather_rasters 0 outs dev_init = Inr st"
    and "tbl = table_developed st" "ids = sort (subregion_ids st)"
    by (auto simp: gather_developed_def res_bind_eq_Inr)
  moreover have "dev_inv st" using gather_rasters_inv [OF g] by (simp add: dev_inv_def dev_init_def)
  ultimately show ?thesis by (simp add: dev_inv_def)
qed

subsection \<open>Correctness of the gathering\<close>

lemma add_zone_later:
  "0 < i \<Longrightarrow> map_of (table_developed st) z = Some xs \<Longrightarrow> z \<in> set (subregion_ids st) \<Longrightarrow>
   add_zone i z c st = Inr \<lparr>table_developed = dict_set (table_developed st) z (xs @ [c]), subregion_ids = subregion_ids st\<rparr>"
  by (simp add: add_zone_def Let_def)

text \<open>The lines of the first raster create one series per zone.\<close>

lemma gather_lines_first:
  assumes "distinct (map fst zs)" and "\<forall>z\<in>set (map fst zs). z \<notin> fst ` set T \<and> z \<notin> set ids"
    and "\<forall>(z, c)\<in>set zs. parse_univar_line (l z c) = Inr (Some (z, c))"
  shows "\<exists>T'. gather_lines 0 (map (\<lambda>(z, c). l z c) zs) \<lparr>table_developed = T, subregion_ids = ids\<rparr> =
              Inr \<lparr>table_developed = T', subregion_ids = ids @ map fst zs\<rparr> \<and>
            map fst T' = map fst T @ map fst zs \<and>
            (\<forall>k. map_of T' k = (case map_of zs k of Some c \<Rightarrow> Some [c] | None \<Rightarrow> map_of T k))"
  using assms
proof (induction zs arbitrary: T ids)
  case (Cons zc zs)
  obtain z c where zc: "zc = (z, c)" by (cases zc)
  let ?T1 = "dict_set T z [c]"
  have new: "z \<notin> fst ` set T" "z \<notin> set ids" using Cons.prems(2) zc by auto
  have keys: "map fst ?T1 = map fst T @ [z]" using new(1) by (simp add: keys_dict_set image_iff)
  have "\<forall>z'\<in>set (map fst zs). z' \<notin> fst ` set ?T1 \<and> z' \<notin> set (ids @ [z])"
    using Cons.prems(1,2) zc by auto
  from Cons.IH [OF _ this] Cons.prems(1,3) zc obtain T' where
    g: "gather_lines 0 (map (\<lambda>(z, c). l z c) zs) \<lparr>table_developed = ?T1, subregion_ids = ids @ [z]\<rparr> =
          Inr \<lparr>table_developed = T', subregion_ids = ids @ [z] @ map fst zs\<rparr>"
    and k: "map fst T' = map fst ?T1 @ map fst zs"
    and m: "\<forall>k. map_of T' k = (case map_of zs k of Some c \<Rightarrow> Some [c] | None \<Rightarrow> map_of ?T1 k)"
    by auto
  have "parse_univar_line (l z c) = Inr (Some (z, c))" using Cons.prems(3) zc by simp
  then have "gather_lines 0 (map (\<lambda>(z, c). l z c) (zc # zs)) \<lparr>table_developed = T, subregion_ids = ids\<rparr> =
               Inr \<lparr>table_developed = T', subregion_ids = ids @ map fst (zc # zs)\<rparr>"
    using g new(2) zc by (simp add: add_zone_first)
  moreover have "map fst T' = map fst T @ map fst (zc # zs)" using k keys zc by simp
  moreover have "map_of zs z = None" using Cons.prems(1) zc by (simp add: map_of_eq_None_iff)
  then have "\<forall>k. map_of T' k = (case map_of (zc # zs) k of Some c \<Rightarrow> Some [c] | None \<Rightarrow> map_of T k)"
    using m zc by (auto simp: map_of_dict_set split: option.splits)
  ultimately show ?case by blast
qed simp

text \<open>The lines of a later raster append one count to the series of each zone they report.\<close>

lemma gather_lines_later:
  assumes "0 < i" and "distinct (map fst zs)" and "\<forall>z\<in>set (map fst zs). z \<in> fst ` set T \<and> z \<in> set ids"
    and "\<forall>(z, c)\<in>set zs. parse_univar_line (l z c) = Inr (Some (z, c))"
  shows "\<exists>T'. gather_lines i (map (\<lambda>(z, c). l z c) zs) \<lparr>table_developed = T, subregion_ids = ids\<rparr> =
              Inr \<lparr>table_developed = T', subregion_ids = ids\<rparr> \<and> map fst T' = map fst T \<and>
            (\<forall>k. map_of T' k = map_option (\<lambda>v. v @ (case map_of zs k of Some c \<Rightarrow> [c] | None \<Rightarrow> [])) (map_of T k))"
  using assms(2-4)
proof (induction zs arbitrary: T)
  case Nil
  have "map_option (\<lambda>v. v) x = x" for x :: "int list option" by (cases x) simp_all
  then show ?case by simp
next
  case (Cons zc zs)
  obtain z c where zc: "zc = (z, c)" by (cases zc)
  have zT: "z \<in> fst ` set T" and z: "z \<in> set ids" using Cons.prems(2) zc by auto
  then obtain xs where xs: "map_of T z = Some xs" by (metis map_of_eq_None_iff option.exhaust)
  let ?T1 = "dict_set T z (xs @ [c])"
  have keys: "map fst ?T1 = map fst T" using zT by (simp add: keys_dict_set)
  have "\<forall>z'\<in>set (map fst zs). z' \<in> fst ` set ?T1 \<and> z' \<in> set ids" using Cons.prems(2) by auto
  from Cons.IH [OF _ this] Cons.prems(1,3) zc obtain T' where
    g: "gather_lines i (map (\<lambda>(z, c). l z c) zs) \<lparr>table_developed = ?T1, subregion_ids = ids\<rparr> =
          Inr \<lparr>table_developed = T', subregion_ids = ids\<rparr>"
    and k: "map fst T' = map fst ?T1"
    and m: "\<forall>k. map_of T' k = map_option (\<lambda>v. v @ (case map_of zs k of Some c \<Rightarrow> [c] | None \<Rightarrow> [])) (map_of ?T1 k)"
    by auto
  have "parse_univar_line (l z c) = Inr (Some (z, c))" using Cons.prems(3) zc by simp
  then have "gather_lines i (map (\<lambda>(z, c). l z c) (zc # zs)) \<lparr>table_developed = T, subregion_ids = ids\<rparr> =
               Inr \<lparr>table_developed = T', subregion_ids = ids\<rparr>"
    using g xs z zc assms(1) by (simp add: add_zone_later)
  moreover have "z \<notin> set (map fst zs)" using Cons.prems(1) zc by simp
  then have "map_of zs z = None" by (simp add: map_of_eq_None_iff)
  then have "\<forall>k. map_of T' k =
               map_option (\<lambda>v. v @ (case map_of (zc # zs) k of Some c \<Rightarrow> [c] | None \<Rightarrow> [])) (map_of T k)"
    using m xs zc by (auto simp: map_of_dict_set)
  moreover have "map fst T' = map fst T" using k keys by simp
  ultimately show ?case by blast
qed

lemma univar_text_lines:
  assumes "CHR ''\<newline>'' \<notin> set h" and "\<forall>(z, c)\<in>set zs. CHR ''\<newline>'' \<notin> set (l z c)"
  shows "py_splitlines (univar_text h l zs) = h # map (\<lambda>(z, c). l z c) zs"
proof -
  have "\<forall>x\<in>set (h # map (\<lambda>(z, c). l z c) zs). CHR ''\<newline>'' \<notin> set x" using assms by auto
  then show ?thesis unfolding univar_text_def by (rule py_splitlines_lines)
qed

lemma gather_lines_header:
  "parse_univar_line h = Inr None \<Longrightarrow> gather_lines i (h # ls) st = gather_lines i ls st"
  by simp

lemma gather_rasters_later:
  assumes Z: "distinct Z" and len: "\<forall>cs\<in>set Cs. length cs = length Z" and T: "map fst T = Z"
    and ids: "set Z \<subseteq> set ids" and h: "parse_univar_line h = Inr None" "CHR ''\<newline>'' \<notin> set h"
    and lines: "\<forall>cs\<in>set Cs. \<forall>(z, c)\<in>set (zip Z cs). parse_univar_line (l z c) = Inr (Some (z, c)) \<and> CHR ''\<newline>'' \<notin> set (l z c)"
  shows "\<exists>T'. gather_rasters (Suc i) (map (\<lambda>cs. univar_text h l (zip Z cs)) Cs) \<lparr>table_developed = T, subregion_ids = ids\<rparr> =
              Inr \<lparr>table_developed = T', subregion_ids = ids\<rparr> \<and> map fst T' = Z \<and>
            (\<forall>j < length Z. map_of T' (Z ! j) = map_option (\<lambda>v. v @ map (\<lambda>cs. cs ! j) Cs) (map_of T (Z ! j)))"
  using len T lines
proof (induction Cs arbitrary: i T)
  case Nil
  have "map_option (\<lambda>v. v) x = x" for x :: "int list option" by (cases x) simp_all
  then show ?case using Nil.prems(2) by simp
next
  case (Cons cs Cs)
  have lc: "length cs = length Z" using Cons.prems(1) by simp
  have zs: "map fst (zip Z cs) = Z" using lc by simp
  have sp: "py_splitlines (univar_text h l (zip Z cs)) = h # map (\<lambda>(z, c). l z c) (zip Z cs)"
  proof -
    have "\<forall>(z, c)\<in>set (zip Z cs). CHR ''\<newline>'' \<notin> set (l z c)" using Cons.prems(3) by auto
    then show ?thesis by (rule univar_text_lines [OF h(2)])
  qed
  have kz: "\<forall>z\<in>set (map fst (zip Z cs)). z \<in> fst ` set T \<and> z \<in> set ids"
    using zs Cons.prems(2) ids by (metis list.set_map subsetD)
  have dz: "distinct (map fst (zip Z cs))" using zs Z by simp
  have ps: "\<forall>(z, c)\<in>set (zip Z cs). parse_univar_line (l z c) = Inr (Some (z, c))" using Cons.prems(3) by auto
  from gather_lines_later [OF zero_less_Suc dz kz ps]
  obtain T1 where g1: "gather_lines (Suc i) (map (\<lambda>(z, c). l z c) (zip Z cs)) \<lparr>table_developed = T, subregion_ids = ids\<rparr> =
                         Inr \<lparr>table_developed = T1, subregion_ids = ids\<rparr>"
    and k1: "map fst T1 = map fst T"
    and m1: "\<forall>k. map_of T1 k = map_option (\<lambda>v. v @ (case map_of (zip Z cs) k of Some c \<Rightarrow> [c] | None \<Rightarrow> [])) (map_of T k)"
    by auto
  from Cons.IH [of T1 "Suc i"] Cons.prems k1 obtain T' where
    g2: "gather_rasters (Suc (Suc i)) (map (\<lambda>cs. univar_text h l (zip Z cs)) Cs) \<lparr>table_developed = T1, subregion_ids = ids\<rparr> =
           Inr \<lparr>table_developed = T', subregion_ids = ids\<rparr>"
    and k2: "map fst T' = Z"
    and m2: "\<forall>j < length Z. map_of T' (Z ! j) = map_option (\<lambda>v. v @ map (\<lambda>cs. cs ! j) Cs) (map_of T1 (Z ! j))"
    by auto
  have "map_of T' (Z ! j) = map_option (\<lambda>v. v @ map (\<lambda>cs. cs ! j) (cs # Cs)) (map_of T (Z ! j))" if "j < length Z" for j
  proof -
    have "map_of (zip Z cs) (Z ! j) = Some (cs ! j)" using map_of_zip_nth [of Z cs j] lc Z that by simp
    with m1 m2 that show ?thesis by (cases "map_of T (Z ! j)") simp_all
  qed
  moreover have "gather_rasters (Suc i) (map (\<lambda>cs. univar_text h l (zip Z cs)) (cs # Cs)) \<lparr>table_developed = T, subregion_ids = ids\<rparr> =
                   Inr \<lparr>table_developed = T', subregion_ids = ids\<rparr>"
    using sp g1 g2 h(1) by simp
  ultimately show ?case using k2 by blast
qed

text \<open>The series gathered for each zone.\<close>

lemma gather_developed_series:
  assumes Z: "distinct Z" and C: "C \<noteq> []" and len: "\<forall>cs\<in>set C. length cs = length Z"
    and h: "parse_univar_line h = Inr None" "CHR ''\<newline>'' \<notin> set h"
    and lines: "\<forall>cs\<in>set C. \<forall>(z, c)\<in>set (zip Z cs). parse_univar_line (l z c) = Inr (Some (z, c)) \<and> CHR ''\<newline>'' \<notin> set (l z c)"
  shows "\<exists>tbl. gather_developed (map (\<lambda>cs. univar_text h l (zip Z cs)) C) = Inr (tbl, sort Z) \<and> map fst tbl = Z \<and>
           (\<forall>j < length Z. map_of tbl (Z ! j) = Some (map (\<lambda>cs. cs ! j) C))"
proof -
  obtain c0 Cs where C0: "C = c0 # Cs" using C by (cases C) auto
  have lc: "length c0 = length Z" using len C0 by simp
  have zs: "map fst (zip Z c0) = Z" using lc by simp
  have sp: "py_splitlines (univar_text h l (zip Z c0)) = h # map (\<lambda>(z, c). l z c) (zip Z c0)"
  proof -
    have "\<forall>(z, c)\<in>set (zip Z c0). CHR ''\<newline>'' \<notin> set (l z c)" using lines C0 by auto
    then show ?thesis by (rule univar_text_lines [OF h(2)])
  qed
  have dz: "distinct (map fst (zip Z c0))" using zs Z by simp
  have ps: "\<forall>(z, c)\<in>set (zip Z c0). parse_univar_line (l z c) = Inr (Some (z, c))" using lines C0 by auto
  have fresh: "\<forall>z\<in>set (map fst (zip Z c0)). z \<notin> fst ` set ([] :: (string \<times> int list) list) \<and> z \<notin> set []" by simp
  from gather_lines_first [OF dz fresh ps] obtain T1 where
    g0: "gather_lines 0 (map (\<lambda>(z, c). l z c) (zip Z c0)) \<lparr>table_developed = [], subregion_ids = []\<rparr> =
           Inr \<lparr>table_developed = T1, subregion_ids = [] @ map fst (zip Z c0)\<rparr>"
    and k0: "map fst T1 = map fst ([] :: (string \<times> int list) list) @ map fst (zip Z c0)"
    and m1: "\<forall>k. map_of T1 k = (case map_of (zip Z c0) k of Some c \<Rightarrow> Some [c] | None \<Rightarrow> map_of ([] :: (string \<times> int list) list) k)"
    by blast
  have g1: "gather_lines 0 (map (\<lambda>(z, c). l z c) (zip Z c0)) dev_init = Inr \<lparr>table_developed = T1, subregion_ids = Z\<rparr>"
    using g0 zs by (simp add: dev_init_def)
  have k1: "map fst T1 = Z" using k0 zs by simp
  from gather_rasters_later [OF Z _ k1 _ h, of Cs Z l 0] len lines C0 obtain T' where
    g2: "gather_rasters (Suc 0) (map (\<lambda>cs. univar_text h l (zip Z cs)) Cs) \<lparr>table_developed = T1, subregion_ids = Z\<rparr> =
           Inr \<lparr>table_developed = T', subregion_ids = Z\<rparr>"
    and k2: "map fst T' = Z"
    and m2: "\<forall>j < length Z. map_of T' (Z ! j) = map_option (\<lambda>v. v @ map (\<lambda>cs. cs ! j) Cs) (map_of T1 (Z ! j))"
    by auto
  have "map_of T' (Z ! j) = Some (map (\<lambda>cs. cs ! j) C)" if "j < length Z" for j
  proof -
    have "map_of (zip Z c0) (Z ! j) = Some (c0 ! j)" using map_of_zip_nth [of Z c0 j] lc Z that by simp
    with m1 m2 that C0 show ?thesis by simp
  qed
  moreover have "gather_developed (map (\<lambda>cs. univar_text h l (zip Z cs)) C) = Inr (T', sort Z)"
    using sp g1 g2 h(1) C0 by (simp add: gather_developed_def)
  ultimately show ?thesis using k2 by blast
qed

lemma transpose_columns:
  assumes "C \<noteq> []" and "\<forall>cs\<in>set C. length cs = n"
  shows "transpose C = map (\<lambda>j. map (\<lambda>cs. cs ! j) C) [0..<n]"
proof (rule nth_equalityI)
  have "foldr (\<lambda>xs. max (length xs)) C 0 = n" using assms
  proof (induction C)
    case (Cons a C)
    then show ?case by (cases "C = []") auto
  qed simp
  then have lt: "length (transpose C) = n" by (simp add: length_transpose comp_def)
  then show "length (transpose C) = length (map (\<lambda>j. map (\<lambda>cs. cs ! j) C) [0..<n])" by simp
  fix j assume "j < length (transpose C)"
  with lt assms(2) show "transpose C ! j = map (\<lambda>j. map (\<lambda>cs. cs ! j) C) [0..<n] ! j"
    by (simp add: nth_transpose filter_True)
qed

lemma table_of_series:
  assumes "map fst tbl = Z" and "distinct Z" and "\<forall>j < length Z. map_of tbl (Z ! j) = Some (cols ! j)"
    and "length cols = length Z"
  shows "tbl = zip Z cols"
proof (rule nth_equalityI)
  have lt: "length tbl = length Z" using assms(1) by (metis length_map)
  then show "length tbl = length (zip Z cols)" using assms(4) by simp
  fix j assume j: "j < length tbl"
  have k: "fst (tbl ! j) = Z ! j" using assms(1) j by (metis nth_map)
  have "map_of tbl (fst (tbl ! j)) = Some (snd (tbl ! j))"
    using assms(1,2) j by (simp add: map_of_eq_Some_iff)
  with assms(3) k j lt have "snd (tbl ! j) = cols ! j" by simp
  with k j lt assms(4) show "tbl ! j = zip Z cols ! j" by (simp add: prod_eq_iff)
qed

text \<open>C14: when every raster reports the same distinct zones, each with a readable count,
  the loops of lines 112--125 build, in the order of the first raster, for every zone the
  list of its counts in raster order (the columns of the rasters' count table), and
  \<open>subregionIds\<close> is the sorted list of the zones.\<close>

theorem gather_developed_correct:
  assumes Z: "distinct Z" and C: "C \<noteq> []" and len: "\<forall>cs\<in>set C. length cs = length Z"
    and h: "parse_univar_line h = Inr None" "CHR ''\<newline>'' \<notin> set h"
    and lines: "\<forall>cs\<in>set C. \<forall>(z, c)\<in>set (zip Z cs). parse_univar_line (l z c) = Inr (Some (z, c)) \<and> CHR ''\<newline>'' \<notin> set (l z c)"
  shows "gather_developed (map (\<lambda>cs. univar_text h l (zip Z cs)) C) = Inr (zip Z (transpose C), sort Z)"
proof -
  obtain tbl where g: "gather_developed (map (\<lambda>cs. univar_text h l (zip Z cs)) C) = Inr (tbl, sort Z)"
    and k: "map fst tbl = Z" and m: "\<forall>j < length Z. map_of tbl (Z ! j) = Some (map (\<lambda>cs. cs ! j) C)"
    using gather_developed_series [OF assms] by blast
  have t: "transpose C = map (\<lambda>j. map (\<lambda>cs. cs ! j) C) [0..<length Z]" by (rule transpose_columns [OF C len])
  have "tbl = zip Z (transpose C)"
    unfolding t by (rule table_of_series [OF k Z]) (use m in simp_all)
  with g show ?thesis by simp
qed

section \<open>Examples\<close>

lemma univar_fields_example:
  "py_str_int 10 = ''10''" "py_split CHR ''|'' ''1|2|3'' = [''1'', ''2'', ''3'']"
  by code_simp+

theorem parse_univar_line_roundtrip_witness:
  "parse_univar_line (py_join CHR ''|'' [''1'', '''', ''0'', ''0'', ''0'', ''1'', ''1'', ''0'', ''0'', ''0'', ''0'', ''0'', ''10''])
     = Inr (Some (''1'', 10))"
  using parse_univar_line_roundtrip [where fs = "[''1'', '''', ''0'', ''0'', ''0'', ''1'', ''1'', ''0'', ''0'', ''0'', ''0'', ''0'', ''10'']"
      and n = 10] univar_fields_example(1)
  by simp

theorem parse_univar_line_short_witness: "parse_univar_line ''1|2|3'' = Inl (UnivarShortLine ''1|2|3'')"
  using parse_univar_line_short [where line = "''1|2|3''"] univar_fields_example(2) by simp

theorem add_zone_unknown_witness: "add_zone 1 ''7'' 5 dev_init = Inl (UnknownZone ''7'')"
  using add_zone_unknown [where i = 1 and sid = "''7''" and st = dev_init] by (simp add: dev_init_def)


lemma gather_example_facts:
  "parse_univar_line ''zone|label|non_null_cells|null_cells|min|max|range|mean|mean_of_abs|stddev|variance|coeff_var|sum'' = Inr None"
  "\<forall>cs\<in>set [[10, 5], [20, 5 :: int]]. \<forall>(z, c)\<in>set (zip [''1'', ''2''] cs).
     parse_univar_line (example_line z c) = Inr (Some (z, c)) \<and> CHR ''\<newline>'' \<notin> set (example_line z c)"
  by code_simp+

theorem gather_developed_correct_witness:
  "gather_developed (map (\<lambda>cs. univar_text ''zone|label|non_null_cells|null_cells|min|max|range|mean|mean_of_abs|stddev|variance|coeff_var|sum''
      example_line (zip [''1'', ''2''] cs)) [[10, 5], [20, 5]]) = Inr ([(''1'', [10, 20]), (''2'', [5, 5])], [''1'', ''2''])"
proof -
  have s: "sort [''1'', ''2''] = [''1'', ''2'']" by code_simp
  have t: "zip [''1'', ''2''] (transpose [[10, 5], [20, 5 :: int]]) = [(''1'', [10, 20]), (''2'', [5, 5])]" by code_simp
  have "gather_developed (map (\<lambda>cs. univar_text ''zone|label|non_null_cells|null_cells|min|max|range|mean|mean_of_abs|stddev|variance|coeff_var|sum''
      example_line (zip [''1'', ''2''] cs)) [[10, 5], [20, 5]]) = Inr (zip [''1'', ''2''] (transpose [[10, 5], [20, 5 :: int]]), sort [''1'', ''2''])"
  proof (rule gather_developed_correct)
    show "distinct [''1'', ''2'']" by simp
    show "[[10, 5], [20, 5 :: int]] \<noteq> []" by simp
    show "\<forall>cs\<in>set [[10, 5], [20, 5 :: int]]. length cs = length [''1'', ''2'']" by simp
    show "CHR ''\<newline>'' \<notin> set ''zone|label|non_null_cells|null_cells|min|max|range|mean|mean_of_abs|stddev|variance|coeff_var|sum''"
      by code_simp
  qed (fact gather_example_facts)+
  then show ?thesis unfolding s t .
qed

end
