(* ===== verification/Lstsq.thy ===== *)
theory Lstsq
  imports Prelude
begin

text \<open>
  \<open>numpy.linalg.lstsq(A, y)[0]\<close> for the two-column design matrix \<open>A = [x, 1]\<close> built at
  r.futures.demand.py:156--157, in exact arithmetic. When the predictor values are not all
  equal, \<open>A\<close> has full column rank and the solution is that of the normal equations;
  when they are (or there are no rows), \<open>lstsq\<close> returns the minimum-norm least-squares
  solution, which for \<open>A = [a\<^bold>1, \<^bold>1]\<close> is \<open>\<bar>y\<bar> / (a\<^sup>2 + 1) \<cdot> (a, 1)\<close> with \<open>\<bar>y\<bar>\<close>
  the mean of \<open>y\<close>. Rows of different length are a LinAlgError.
\<close>

definition sum_x :: "(real \<times> real) list \<Rightarrow> real" where
  "sum_x ps = (\<Sum>(x, y)\<leftarrow>ps. x)"

definition sum_y :: "(real \<times> real) list \<Rightarrow> real" where
  "sum_y ps = (\<Sum>(x, y)\<leftarrow>ps. y)"

definition sum_xx :: "(real \<times> real) list \<Rightarrow> real" where
  "sum_xx ps = (\<Sum>(x, y)\<leftarrow>ps. x * x)"

definition sum_xy :: "(real \<times> real) list \<Rightarrow> real" where
  "sum_xy ps = (\<Sum>(x, y)\<leftarrow>ps. x * y)"

definition gram_det :: "(real \<times> real) list \<Rightarrow> real" where
  "gram_det ps = real (length ps) * sum_xx ps - sum_x ps * sum_x ps"

definition ols_coeffs :: "(real \<times> real) list \<Rightarrow> real \<times> real" where
  "ols_coeffs ps =
     (let n = real (length ps); sx = sum_x ps; sy = sum_y ps; sxx = sum_xx ps; sxy = sum_xy ps;
          d = gram_det ps
      in if d \<noteq> 0 then ((n * sxy - sx * sy) / d, (sxx * sy - sx * sxy) / d)
         else (let a = sx / n; yb = sy / n in (yb * a / (a * a + 1), yb / (a * a + 1))))"

definition np_lstsq :: "real list \<Rightarrow> real list \<Rightarrow> (real \<times> real) result" where
  "np_lstsq xs ys = (if length xs = length ys then Inr (ols_coeffs (zip xs ys)) else Inl LstsqShape)"

text \<open>The specification: a least-squares solution minimises the sum of squared residuals.\<close>

definition ssr :: "(real \<times> real) list \<Rightarrow> real \<times> real \<Rightarrow> real" where
  "ssr ps mc = (\<Sum>(x, y)\<leftarrow>ps. (fst mc * x + snd mc - y)\<^sup>2)"

definition is_lsq_solution :: "(real \<times> real) list \<Rightarrow> real \<times> real \<Rightarrow> bool" where
  "is_lsq_solution ps mc \<longleftrightarrow> (\<forall>mc'. ssr ps mc \<le> ssr ps mc')"

section \<open>Sums\<close>

lemma sum_resid:
  fixes ps :: "(real \<times> real) list"
  shows "(\<Sum>(x, y)\<leftarrow>ps. m * x + c - y) = m * sum_x ps + c * real (length ps) - sum_y ps"
  by (induction ps) (auto simp: sum_x_def sum_y_def algebra_simps)

lemma sum_xresid:
  fixes ps :: "(real \<times> real) list"
  shows "(\<Sum>(x, y)\<leftarrow>ps. x * (m * x + c - y)) = m * sum_xx ps + c * sum_x ps - sum_xy ps"
  by (induction ps) (auto simp: sum_x_def sum_xx_def sum_xy_def algebra_simps)

lemma ssr_shift:
  fixes ps :: "(real \<times> real) list"
  shows "ssr ps (m + dm, c + dc) =
     ssr ps (m, c) + 2 * dm * (\<Sum>(x, y)\<leftarrow>ps. x * (m * x + c - y))
       + 2 * dc * (\<Sum>(x, y)\<leftarrow>ps. m * x + c - y) + (\<Sum>(x, y)\<leftarrow>ps. (dm * x + dc)\<^sup>2)"
  by (induction ps) (auto simp: ssr_def algebra_simps power2_eq_square)

lemma sum_sq_nonneg: "0 \<le> (\<Sum>(x, y)\<leftarrow>ps. (f x y :: real)\<^sup>2)"
  by (induction ps) auto

lemma sum_sq_eq_0:
  "(\<Sum>(x, y)\<leftarrow>ps. (f x y :: real)\<^sup>2) = 0 \<Longrightarrow> (x, y) \<in> set ps \<Longrightarrow> f x y = 0"
proof (induction ps)
  case Nil then show ?case by simp
next
  case (Cons p ps)
  obtain a b where p: "p = (a, b)" by (cases p)
  from Cons.prems(1) p sum_sq_nonneg [of f ps]
  have "(f a b)\<^sup>2 = 0" and "(\<Sum>(x, y)\<leftarrow>ps. (f x y)\<^sup>2) = 0"
    by (auto simp: add_nonneg_eq_0_iff)
  with Cons p show ?case by auto
qed

lemma centred_sum_sq:
  fixes ps :: "(real \<times> real) list"
  shows "(\<Sum>(x, y)\<leftarrow>ps. (x - a)\<^sup>2) = sum_xx ps - 2 * a * sum_x ps + real (length ps) * a\<^sup>2"
  by (induction ps) (auto simp: sum_x_def sum_xx_def algebra_simps power2_eq_square)

lemma gram_det_centred:
  assumes "ps \<noteq> []"
  shows "gram_det ps = real (length ps) * (\<Sum>(x, y)\<leftarrow>ps. (x - sum_x ps / real (length ps))\<^sup>2)"
proof -
  from assms have n: "real (length ps) \<noteq> 0" by simp
  then show ?thesis
    unfolding centred_sum_sq by (simp add: gram_det_def power2_eq_square algebra_simps)
qed

lemma sums_const_x:
  "\<forall>p\<in>set ps. fst p = a \<Longrightarrow>
     sum_x ps = real (length ps) * a \<and> sum_xx ps = real (length ps) * (a * a) \<and> sum_xy ps = a * sum_y ps"
  by (induction ps) (auto simp: sum_x_def sum_xx_def sum_xy_def sum_y_def algebra_simps)

lemma sums_linear_y:
  "\<forall>(x, y)\<in>set ps. y = a * x + b \<Longrightarrow>
     sum_y ps = a * sum_x ps + b * real (length ps) \<and> sum_xy ps = a * sum_xx ps + b * sum_x ps"
  by (induction ps) (auto simp: sum_x_def sum_xx_def sum_xy_def sum_y_def algebra_simps)

text \<open>The design matrix is rank-deficient exactly when all predictor values coincide.\<close>

lemma gram_det_eq_0_iff:
  "gram_det ps = 0 \<longleftrightarrow> (\<forall>p\<in>set ps. \<forall>q\<in>set ps. fst p = fst q)"
proof (cases "ps = []")
  case True then show ?thesis by (simp add: gram_det_def sum_x_def sum_xx_def)
next
  case False
  define a where "a = sum_x ps / real (length ps)"
  have det: "gram_det ps = real (length ps) * (\<Sum>(x, y)\<leftarrow>ps. (x - a)\<^sup>2)"
    using gram_det_centred [OF False] by (simp add: a_def)
  show ?thesis
  proof
    assume "gram_det ps = 0"
    with det False have "(\<Sum>(x, y)\<leftarrow>ps. (x - a)\<^sup>2) = 0" by simp
    then have "\<forall>p\<in>set ps. fst p = a"
      using sum_sq_eq_0 [where f = "\<lambda>x y. x - a"] by fastforce
    then show "\<forall>p\<in>set ps. \<forall>q\<in>set ps. fst p = fst q" by simp
  next
    assume all: "\<forall>p\<in>set ps. \<forall>q\<in>set ps. fst p = fst q"
    obtain p0 where p0: "p0 \<in> set ps" using False last_in_set by blast
    from all p0 have "\<forall>p\<in>set ps. fst p = fst p0" by blast
    from sums_const_x [OF this] show "gram_det ps = 0" by (simp add: gram_det_def)
  qed
qed

section \<open>The solution satisfies the normal equations\<close>

lemma ols_coeffs_full_rank:
  "gram_det ps \<noteq> 0 \<Longrightarrow> ols_coeffs ps =
     ((real (length ps) * sum_xy ps - sum_x ps * sum_y ps) / gram_det ps,
      (sum_xx ps * sum_y ps - sum_x ps * sum_xy ps) / gram_det ps)"
  by (simp add: ols_coeffs_def Let_def)

lemma ols_coeffs_rank_one:
  "gram_det ps = 0 \<Longrightarrow> ols_coeffs ps =
     (let a = sum_x ps / real (length ps); yb = sum_y ps / real (length ps)
      in (yb * a / (a * a + 1), yb / (a * a + 1)))"
  by (simp add: ols_coeffs_def Let_def)

lemma ols_full_rank_normal:
  assumes "ols_coeffs ps = (m, c)" and False: "gram_det ps \<noteq> 0"
  shows "(\<Sum>(x, y)\<leftarrow>ps. m * x + c - y) = 0 \<and> (\<Sum>(x, y)\<leftarrow>ps. x * (m * x + c - y)) = 0"
proof -
  from False assms ols_coeffs_full_rank
  have m: "m = (real (length ps) * sum_xy ps - sum_x ps * sum_y ps) / gram_det ps"
    and c: "c = (sum_xx ps * sum_y ps - sum_x ps * sum_xy ps) / gram_det ps"
    by auto
  define d where "d = gram_det ps"
  have md: "m * d = real (length ps) * sum_xy ps - sum_x ps * sum_y ps"
    and cd: "c * d = sum_xx ps * sum_y ps - sum_x ps * sum_xy ps"
    using False by (simp_all add: m c d_def)
  have dd: "d = real (length ps) * sum_xx ps - sum_x ps * sum_x ps"
    by (simp add: d_def gram_det_def)
  have "(m * sum_x ps + c * real (length ps) - sum_y ps) * d
      = sum_x ps * (m * d) + real (length ps) * (c * d) - sum_y ps * d"
    by (simp add: algebra_simps)
  also have "\<dots> = 0" unfolding md cd by (simp add: dd algebra_simps)
  finally have r1: "(m * sum_x ps + c * real (length ps) - sum_y ps) * d = 0" .
  have "(m * sum_xx ps + c * sum_x ps - sum_xy ps) * d
      = sum_xx ps * (m * d) + sum_x ps * (c * d) - sum_xy ps * d"
    by (simp add: algebra_simps)
  also have "\<dots> = 0" unfolding md cd by (simp add: dd algebra_simps)
  finally have r2: "(m * sum_xx ps + c * sum_x ps - sum_xy ps) * d = 0" .
  from r1 r2 show ?thesis
    using False unfolding sum_resid sum_xresid d_def by simp
qed

lemma min_norm_fit: "(yb * a / (a * a + 1)) * a + yb / (a * a + 1) = (yb :: real)"
proof -
  have "0 < a * a + 1" using zero_le_square [of a] by linarith
  then have nz: "a * a + 1 \<noteq> 0" by simp
  have "(yb * a / (a * a + 1)) * a + yb / (a * a + 1) = yb * (a * a + 1) / (a * a + 1)"
    by (simp add: add_divide_distrib algebra_simps)
  also have "\<dots> = yb" using nz by simp
  finally show ?thesis .
qed

lemma ols_rank_one_normal:
  assumes det: "gram_det ps = 0" and mc: "ols_coeffs ps = (m, c)"
  shows "(\<Sum>(x, y)\<leftarrow>ps. m * x + c - y) = 0 \<and> (\<Sum>(x, y)\<leftarrow>ps. x * (m * x + c - y)) = 0"
proof (cases "ps = []")
  case True then show ?thesis by simp
next
  case False
  define n where "n = real (length ps)"
  have n0: "n \<noteq> 0" using False by (simp add: n_def)
  obtain p0 where p0: "p0 \<in> set ps" using False last_in_set by blast
  with det have "\<forall>p\<in>set ps. fst p = fst p0" using gram_det_eq_0_iff by blast
  from sums_const_x [OF this]
  have sx: "sum_x ps = n * fst p0" and sxx: "sum_xx ps = n * (fst p0 * fst p0)"
    and sxy: "sum_xy ps = fst p0 * sum_y ps" by (simp_all add: n_def)
  define a where "a = fst p0"
  define yb where "yb = sum_y ps / n"
  have "sum_x ps / real (length ps) = a" using sx n0 by (simp add: a_def n_def)
  with det mc have m: "m = yb * a / (a * a + 1)" and c: "c = yb / (a * a + 1)"
    by (simp_all add: ols_coeffs_rank_one Let_def yb_def n_def)
  have fit: "m * a + c = yb" unfolding m c by (rule min_norm_fit)
  have nyb: "n * yb = sum_y ps" using n0 by (simp add: yb_def)
  have r: "m * sum_x ps + c * n - sum_y ps = n * (m * a + c - yb)"
    unfolding sx nyb [symmetric] by (simp add: a_def algebra_simps)
  have r2: "m * sum_xx ps + c * sum_x ps - sum_xy ps = a * (m * sum_x ps + c * n - sum_y ps)"
    unfolding sx sxx sxy by (simp add: a_def algebra_simps)
  show ?thesis
    unfolding sum_resid sum_xresid n_def [symmetric] r2 r fit by simp
qed
theorem ols_normal_equations:
  assumes "ols_coeffs ps = (m, c)"
  shows "(\<Sum>(x, y)\<leftarrow>ps. m * x + c - y) = 0 \<and> (\<Sum>(x, y)\<leftarrow>ps. x * (m * x + c - y)) = 0"
  using assms ols_full_rank_normal ols_rank_one_normal by (cases "gram_det ps = 0") blast+

lemma ols_ssr_le: "ssr ps (ols_coeffs ps) \<le> ssr ps mc'"
proof -
  obtain m c where mc: "ols_coeffs ps = (m, c)" by fastforce
  obtain m' c' where mc': "mc' = (m', c')" by fastforce
  from ols_normal_equations [OF mc]
  have "ssr ps mc' = ssr ps (m, c) + (\<Sum>(x, y)\<leftarrow>ps. ((m' - m) * x + (c' - c))\<^sup>2)"
    using ssr_shift [of ps m "m' - m" c "c' - c"] by (simp add: mc')
  then show ?thesis
    using sum_sq_nonneg [of "\<lambda>x y. (m' - m) * x + (c' - c)" ps] by (simp add: mc)
qed

text \<open>The closed form that models \<open>lstsq\<close> implements its specification: no pair of
  coefficients has a smaller sum of squared residuals, whether or not the design matrix has
  full rank.\<close>

theorem ols_least_squares: "is_lsq_solution ps (ols_coeffs ps)"
  unfolding is_lsq_solution_def using ols_ssr_le by blast

lemma ols_exact_fit:
  assumes lin: "\<forall>(x, y)\<in>set ps. y = a * x + b" and rank: "gram_det ps \<noteq> 0"
  shows "ols_coeffs ps = (a, b)"
proof -
  from sums_linear_y [OF lin]
  have sy: "sum_y ps = a * sum_x ps + b * real (length ps)"
    and sxy: "sum_xy ps = a * sum_xx ps + b * sum_x ps" by simp_all
  have "real (length ps) * sum_xy ps - sum_x ps * sum_y ps = a * gram_det ps"
    and "sum_xx ps * sum_y ps - sum_x ps * sum_xy ps = b * gram_det ps"
    unfolding sy sxy gram_det_def by (simp_all add: algebra_simps)
  with rank show ?thesis by (simp add: ols_coeffs_full_rank)
qed

text \<open>With a constant predictor \<open>a\<close> the minimum-norm solution, by the mean \<open>yb\<close> of the response.\<close>

lemma ols_const_x:
  assumes "ps \<noteq> []" and "\<forall>p\<in>set ps. fst p = a" and "yb = sum_y ps / real (length ps)"
  shows "ols_coeffs ps = (yb * a / (a * a + 1), yb / (a * a + 1))"
proof -
  have "gram_det ps = 0" using assms(2) by (auto simp: gram_det_eq_0_iff)
  moreover have "sum_x ps / real (length ps) = a" using sums_const_x [OF assms(2)] assms(1) by simp
  ultimately show ?thesis by (simp add: ols_coeffs_rank_one assms(3))
qed

end
