(* ===== verification/CurveFit.thy ===== *)
theory CurveFit
  imports Lstsq
begin

text \<open>
  One regression of the inner loop of r.futures.demand.py (lines 147--170): the method's
  transform of population and developed cells, the least-squares fit of \<open>y = m x + c\<close>,
  the predicted developed cells at the simulated populations, and the RMSE on the original
  scale. The RMSE keeps the float semantics of \<open>np.sqrt(np.sum(r * r) / (n - 2))\<close>,
  whose division by a zero or negative count yields \<open>inf\<close>, \<open>nan\<close> or \<open>-0.0\<close>.
\<close>

datatype regression_method = Linear | Logarithmic | Exponential

text \<open>The float values the RMSE expression can take: a finite value, \<open>inf\<close> or \<open>nan\<close>.\<close>

datatype fl = Fin real | PosInf | NaN

text \<open>\<open>np.sqrt(s / k)\<close> for a sum of squares \<open>s \<ge> 0\<close> (a float64) and a Python int \<open>k\<close>.\<close>

definition fl_rmse :: "real \<Rightarrow> int \<Rightarrow> fl" where
  "fl_rmse s k =
     (if 0 < k then Fin (sqrt (s / of_int k))
      else if k = 0 then (if s = 0 then NaN else PosInf)
      else (if s = 0 then Fin 0 else NaN))"

text \<open>\<open>np.log\<close> of an array of positive numbers. Where an entry is not positive NumPy
  returns \<open>-inf\<close> or \<open>nan\<close> with a RuntimeWarning, and the script goes on: \<open>lstsq\<close> then
  raises LinAlgError or returns \<open>nan\<close> coefficients, depending on the LAPACK build. That
  computation is outside the model, which ends there with \<^const>\<open>LogDomain\<close>, a marker
  of the inputs it does not cover rather than an exception of the script; the theorems
  about whole runs assume inputs that never reach it (\<open>Spec2Isabelle.well_formed_run\<close>).\<close>

definition np_log :: "string \<Rightarrow> real list \<Rightarrow> real list result" where
  "np_log sid xs = (if list_all (\<lambda>x. 0 < x) xs then Inr (map ln xs) else Inl (LogDomain sid))"

record fitted =
  f_coeff :: "real \<times> real"
  f_predicted :: "real list"
  f_rmse :: fl

text \<open>Lines 149--151: the predictor, log-transformed for the logarithmic method.\<close>

definition transform_pop :: "string \<Rightarrow> regression_method \<Rightarrow> real list \<Rightarrow> real list result" where
  "transform_pop sid meth obs = (if meth = Logarithmic then np_log sid obs else Inr obs)"

text \<open>Lines 152--155: the response, log-transformed for the exponential method.\<close>

definition transform_dev :: "string \<Rightarrow> regression_method \<Rightarrow> int list \<Rightarrow> real list result" where
  "transform_dev sid meth dev =
     (if meth = Exponential then np_log sid (map real_of_int dev) else Inr (map real_of_int dev))"

text \<open>Lines 159--167: developed cells predicted at the simulated populations.\<close>

definition predict :: "string \<Rightarrow> regression_method \<Rightarrow> real \<Rightarrow> real \<Rightarrow> real list \<Rightarrow> real list result" where
  "predict sid meth m c sim =
     (case meth of
        Logarithmic \<Rightarrow> res_bind (np_log sid sim) (\<lambda>ls. Inr (map (\<lambda>s. s * m + c) ls))
      | Exponential \<Rightarrow> Inr (map (\<lambda>s. exp (m * s + c)) sim)
      | Linear \<Rightarrow> Inr (map (\<lambda>s. s * m + c) sim))"

text \<open>Lines 162, 165, 168: residuals on the scale of developed cells.\<close>

definition residuals :: "regression_method \<Rightarrow> real \<Rightarrow> real \<Rightarrow> real list \<Rightarrow> int list \<Rightarrow> real list" where
  "residuals meth m c reg_pop dev =
     (if meth = Exponential
      then map2 (\<lambda>x d. exp (m * x + c) - d) reg_pop (map real_of_int dev)
      else map2 (\<lambda>x d. x * m + c - d) reg_pop (map real_of_int dev))"

text \<open>Lines 149--170 for one method, observed population \<open>obs\<close>, developed cells \<open>dev\<close>
  and interpolated populations \<open>sim\<close> at the simulation times.\<close>

definition fit_method :: "string \<Rightarrow> regression_method \<Rightarrow> real list \<Rightarrow> int list \<Rightarrow> real list \<Rightarrow> fitted result" where
  "fit_method sid meth obs dev sim =
     res_bind (transform_pop sid meth obs) (\<lambda>reg_pop.
     res_bind (transform_dev sid meth dev) (\<lambda>y.
     res_bind (np_lstsq reg_pop y) (\<lambda>(m, c).
     res_bind (predict sid meth m c sim) (\<lambda>predicted.
     Inr \<lparr>f_coeff = (m, c), f_predicted = predicted,
          f_rmse = fl_rmse (\<Sum>v\<leftarrow>residuals meth m c reg_pop dev. v * v) (int (length reg_pop) - 2)\<rparr>))))"

section \<open>Lemmas\<close>

lemma length_np_log: "np_log sid xs = Inr ys \<Longrightarrow> length ys = length xs"
  by (auto simp: np_log_def split: if_splits)

lemma length_transform_pop: "transform_pop sid meth obs = Inr rp \<Longrightarrow> length rp = length obs"
  by (auto simp: transform_pop_def dest: length_np_log split: if_splits)

lemma length_transform_dev: "transform_dev sid meth dev = Inr y \<Longrightarrow> length y = length dev"
  by (auto simp: transform_dev_def dest: length_np_log split: if_splits)

lemma length_predict: "predict sid meth m c sim = Inr p \<Longrightarrow> length p = length sim"
  by (cases meth) (auto simp: predict_def res_bind_eq_Inr dest: length_np_log)

lemma np_lstsq_Inr: "np_lstsq xs ys = Inr mc \<longleftrightarrow> length xs = length ys \<and> mc = ols_coeffs (zip xs ys)"
  by (auto simp: np_lstsq_def)

text \<open>What a successful fit consists of.\<close>

lemma fit_method_InrE:
  assumes "fit_method sid meth obs dev sim = Inr f"
  obtains reg_pop y where "transform_pop sid meth obs = Inr reg_pop" "transform_dev sid meth dev = Inr y"
    "length obs = length dev" "f_coeff f = ols_coeffs (zip reg_pop y)"
    "predict sid meth (fst (f_coeff f)) (snd (f_coeff f)) sim = Inr (f_predicted f)"
    "f_rmse f = fl_rmse (\<Sum>v\<leftarrow>residuals meth (fst (f_coeff f)) (snd (f_coeff f)) reg_pop dev. v * v)
                        (int (length obs) - 2)"
proof -
  from assms obtain reg_pop y m c predicted where
    rp: "transform_pop sid meth obs = Inr reg_pop" and ty: "transform_dev sid meth dev = Inr y" and
    ls: "np_lstsq reg_pop y = Inr (m, c)" and pr: "predict sid meth m c sim = Inr predicted" and
    f: "f = \<lparr>f_coeff = (m, c), f_predicted = predicted,
            f_rmse = fl_rmse (\<Sum>v\<leftarrow>residuals meth m c reg_pop dev. v * v) (int (length reg_pop) - 2)\<rparr>"
    by (auto simp: fit_method_def res_bind_eq_Inr)
  from ls have len: "length reg_pop = length y" and mc: "(m, c) = ols_coeffs (zip reg_pop y)"
    by (simp_all add: np_lstsq_Inr)
  show ?thesis
  proof (rule that [OF rp ty])
    show "length obs = length dev"
      using len length_transform_pop [OF rp] length_transform_dev [OF ty] by simp
    show "f_coeff f = ols_coeffs (zip reg_pop y)" using f mc by simp
    show "predict sid meth (fst (f_coeff f)) (snd (f_coeff f)) sim = Inr (f_predicted f)"
      using f pr by simp
    show "f_rmse f = fl_rmse (\<Sum>v\<leftarrow>residuals meth (fst (f_coeff f)) (snd (f_coeff f)) reg_pop dev. v * v)
                        (int (length obs) - 2)"
      using f length_transform_pop [OF rp] by simp
  qed
qed

lemma fl_rmse_pos_count: "0 < k \<Longrightarrow> 0 \<le> s \<Longrightarrow> \<exists>v\<ge>0. fl_rmse s k = Fin v"
  by (simp add: fl_rmse_def)

lemma sum_squares_nonneg: "0 \<le> (\<Sum>v\<leftarrow>vs. v * (v :: real))"
  by (induction vs) auto

lemma zip_map_self: "zip xs (map f xs) = map (\<lambda>x. (x, f x)) xs"
  by (induction xs) auto

lemma sum_squares_eq_0: "(\<Sum>v\<leftarrow>vs. v * (v :: real)) = 0 \<longleftrightarrow> (\<forall>v\<in>set vs. v = 0)"
  by (induction vs) (auto simp: add_nonneg_eq_0_iff sum_squares_nonneg)

section \<open>Properties of one fit\<close>

text \<open>C32: a successful fit's coefficients are a least-squares solution of the regression on
  the method's transformed scale (lines 149--157).\<close>

theorem fit_method_least_squares:
  assumes "fit_method sid meth obs dev sim = Inr f"
  shows "\<exists>rp y. transform_pop sid meth obs = Inr rp \<and> transform_dev sid meth dev = Inr y \<and>
           is_lsq_solution (zip rp y) (f_coeff f)"
  using assms by (rule fit_method_InrE) (auto simp: is_lsq_solution_def ols_ssr_le)

text \<open>For at least three observations the RMSE is a finite non-negative number.\<close>

theorem fit_method_rmse_finite:
  assumes "fit_method sid meth obs dev sim = Inr f" and "3 \<le> length obs"
  shows "\<exists>v\<ge>0. f_rmse f = Fin v"
  using assms(1)
proof (rule fit_method_InrE)
  fix rp y
  assume "f_rmse f = fl_rmse (\<Sum>v\<leftarrow>residuals meth (fst (f_coeff f)) (snd (f_coeff f)) rp dev. v * v)
                        (int (length obs) - 2)"
  with assms(2) show ?thesis
    by (simp add: fl_rmse_pos_count sum_squares_nonneg)
qed

text \<open>C35: with two observations the count \<open>n - 2\<close> is zero: the RMSE is \<open>nan\<close> or \<open>inf\<close>, never a
  number, and the program does not reject the subregion.\<close>

theorem fit_method_rmse_two_obs:
  assumes "fit_method sid meth obs dev sim = Inr f" and "length obs = 2"
  shows "f_rmse f = NaN \<or> f_rmse f = PosInf"
  using assms(1)
proof (rule fit_method_InrE)
  fix rp y
  assume "f_rmse f = fl_rmse (\<Sum>v\<leftarrow>residuals meth (fst (f_coeff f)) (snd (f_coeff f)) rp dev. v * v)
                        (int (length obs) - 2)"
  with assms(2) show ?thesis by (simp add: fl_rmse_def)
qed

lemma fit_method_length_predicted:
  "fit_method sid meth obs dev sim = Inr f \<Longrightarrow> length (f_predicted f) = length sim"
  by (erule fit_method_InrE) (simp add: length_predict)

text \<open>Developed cells that are an exact linear function of at least three observed
  populations, not all equal, are recovered by the linear method: its coefficients, its
  predictions at the simulated populations, and an RMSE of 0.\<close>

theorem fit_linear_exact:
  assumes lin: "map real_of_int dev = map (\<lambda>x. a * x + b) obs"
    and spread: "\<exists>x\<in>set obs. \<exists>x'\<in>set obs. x \<noteq> x'" and three: "3 \<le> length obs"
  shows "fit_method sid Linear obs dev sim =
           Inr \<lparr>f_coeff = (a, b), f_predicted = map (\<lambda>s. s * a + b) sim, f_rmse = Fin 0\<rparr>"
proof -
  let ?ps = "map (\<lambda>x. (x, a * x + b)) obs"
  have len: "length (map real_of_int dev) = length obs" using lin by (metis length_map)
  have "gram_det ?ps \<noteq> 0"
    using spread by (auto simp: gram_det_eq_0_iff)
  then have coeffs: "ols_coeffs ?ps = (a, b)"
    by (rule ols_exact_fit [rotated]) auto
  have "residuals Linear a b obs dev = map (\<lambda>x. 0) obs"
    by (simp add: residuals_def lin zip_map_self)
  then have res: "(\<Sum>v\<leftarrow>residuals Linear a b obs dev. v * v) = 0"
    by (simp only: sum_squares_eq_0) simp
  show ?thesis
    using three len
    by (simp add: fit_method_def transform_pop_def transform_dev_def np_lstsq_def lin zip_map_self
                  coeffs predict_def res fl_rmse_def)
qed

text \<open>The logarithmic method on a non-positive observed population reaches the log of a
  non-positive number at line 151, where the model ends.\<close>

theorem fit_method_log_domain:
  "\<not> list_all (\<lambda>x. 0 < x) obs \<Longrightarrow> fit_method sid Logarithmic obs dev sim = Inl (LogDomain sid)"
  by (simp add: fit_method_def transform_pop_def np_log_def)

text \<open>The exponential method on a non-positive count of developed cells fails with the
  log-domain error of line 153.\<close>

theorem fit_method_exp_domain:
  "\<exists>d\<in>set dev. d \<le> 0 \<Longrightarrow> fit_method sid Exponential obs dev sim = Inl (LogDomain sid)"
  by (auto simp: fit_method_def transform_pop_def transform_dev_def np_log_def list_all_iff)

text \<open>Population and developed-cell series of different lengths, once past the log
  transforms, make \<open>lstsq\<close> fail (line 157).\<close>

theorem fit_method_shape:
  "length obs \<noteq> length dev \<Longrightarrow> meth \<noteq> Logarithmic \<or> list_all (\<lambda>x. 0 < x) obs \<Longrightarrow>
   meth \<noteq> Exponential \<or> list_all (\<lambda>d. 0 < d) dev \<Longrightarrow>
   fit_method sid meth obs dev sim = Inl LstsqShape"
  by (cases meth)
     (auto simp: fit_method_def transform_pop_def transform_dev_def np_log_def np_lstsq_def list_all_iff)

text \<open>A fit does not raise when the series have the same length and the log transforms
  its method applies see positive values only.\<close>

lemma fit_method_succeeds:
  assumes "length obs = length dev"
    and "meth = Logarithmic \<Longrightarrow> (\<forall>x\<in>set obs. 0 < x) \<and> (\<forall>s\<in>set sim. 0 < s)"
    and "meth = Exponential \<Longrightarrow> \<forall>d\<in>set dev. 0 < d"
  shows "\<exists>f. fit_method sid meth obs dev sim = Inr f"
  using assms
  by (cases meth)
     (auto simp: fit_method_def transform_pop_def transform_dev_def np_log_def np_lstsq_def predict_def
                 list_all_iff split: prod.split)

section \<open>Examples\<close>

lemma fit_example:
  "fit_method ''1'' Linear [1, 2, 3] [2, 4, 6] [4, 5] =
     Inr \<lparr>f_coeff = (2, 0), f_predicted = [8, 10], f_rmse = Fin 0\<rparr>"
  by (simp add: fit_method_def transform_pop_def transform_dev_def np_lstsq_def ols_coeffs_def gram_det_def
                sum_x_def sum_y_def sum_xx_def sum_xy_def predict_def residuals_def fl_rmse_def)

lemma fit_example_two:
  "fit_method ''1'' Linear [1, 2] [2, 4] [3] =
     Inr \<lparr>f_coeff = (2, 0), f_predicted = [6], f_rmse = NaN\<rparr>"
  by (simp add: fit_method_def transform_pop_def transform_dev_def np_lstsq_def ols_coeffs_def gram_det_def
                sum_x_def sum_y_def sum_xx_def sum_xy_def predict_def residuals_def fl_rmse_def)

theorem fit_method_least_squares_witness:
  "\<exists>rp y. transform_pop ''1'' Linear [1, 2, 3] = Inr rp \<and> transform_dev ''1'' Linear [2, 4, 6] = Inr y \<and>
     is_lsq_solution (zip rp y) (2, 0)"
  using fit_method_least_squares [OF fit_example] by simp

theorem fit_method_rmse_two_obs_witness:
  "\<exists>f. fit_method ''1'' Linear [1, 2] [2, 4] [3] = Inr f \<and> (f_rmse f = NaN \<or> f_rmse f = PosInf)"
  using fit_method_rmse_two_obs [OF fit_example_two] fit_example_two by simp

theorem fit_linear_exact_witness:
  "fit_method ''1'' Linear [1, 2, 3] [3, 5, 7] [4] = Inr \<lparr>f_coeff = (2, 1), f_predicted = [9], f_rmse = Fin 0\<rparr>"
  using fit_linear_exact [where dev = "[3, 5, 7]" and a = 2 and b = 1 and obs = "[1, 2, 3]" and sid = "''1''" and sim = "[4]"]
  by auto

theorem fit_method_log_domain_witness:
  "fit_method ''1'' Logarithmic [0, 1, 2] [1, 2, 3] [4] = Inl (LogDomain ''1'')"
  using fit_method_log_domain [where obs = "[0, 1, 2]"] by simp

theorem fit_method_exp_domain_witness:
  "fit_method ''1'' Exponential [1, 2, 3] [0, 1, 2] [4] = Inl (LogDomain ''1'')"
  using fit_method_exp_domain [where dev = "[0, 1, 2]"] by simp

theorem fit_method_shape_witness:
  "fit_method ''1'' Linear [1, 2] [1, 2, 3] [4] = Inl LstsqShape"
  using fit_method_shape [where obs = "[1, 2]" and dev = "[1, 2, 3]" and meth = Linear] by simp

end
