(* ===== verification/Select.thy ===== *)
theory Select
  imports CurveFit
begin

text \<open>
  Model selection in r.futures.demand.py: the loop over the requested methods (lines
  143--170) fills three dictionaries keyed by method (RMSE, predicted cells, coefficients)
  and leaves the variable \<open>m\<close> holding the slope of the last method fitted; line 172 picks
  \<open>min(rmse, key=rmse.get)\<close>. Python's \<open>min\<close> keeps the first item and replaces it only by an
  item whose key compares strictly less, with IEEE comparison: nothing is less than \<open>nan\<close>
  and \<open>nan\<close> is less than nothing.
\<close>

fun fl_less :: "fl \<Rightarrow> fl \<Rightarrow> bool" where
  "fl_less (Fin a) (Fin b) = (a < b)"
| "fl_less (Fin a) PosInf = True"
| "fl_less _ _ = False"

definition min_step :: "'k \<times> fl \<Rightarrow> 'k \<times> fl \<Rightarrow> 'k \<times> fl" where
  "min_step cur item = (if fl_less (snd item) (snd cur) then item else cur)"

text \<open>\<open>min(d, key=d.get)\<close> over a dictionary in iteration order; empty: ValueError.\<close>

definition py_min_key :: "('k \<times> fl) list \<Rightarrow> 'k result" where
  "py_min_key d = (case d of [] \<Rightarrow> Inl EmptyMethods | p # rest \<Rightarrow> Inr (fst (foldl min_step p rest)))"

record reg_state =
  rmse_d :: "(regression_method \<times> fl) list"
  predicted_d :: "(regression_method \<times> real list) list"
  coeff_d :: "(regression_method \<times> (real \<times> real)) list"
  last_m :: real

definition reg_init :: reg_state where
  "reg_init = \<lparr>rmse_d = [], predicted_d = [], coeff_d = [], last_m = 0\<rparr>"

text \<open>One iteration of the loop at line 147 for method \<open>meth\<close>, after its fit \<open>f\<close>.\<close>

definition record_fit :: "reg_state \<Rightarrow> regression_method \<Rightarrow> fitted \<Rightarrow> reg_state" where
  "record_fit st meth f =
     \<lparr>rmse_d = dict_set (rmse_d st) meth (f_rmse f),
      predicted_d = dict_set (predicted_d st) meth (f_predicted f),
      coeff_d = dict_set (coeff_d st) meth (f_coeff f),
      last_m = fst (f_coeff f)\<rparr>"

fun regress_loop :: "string \<Rightarrow> regression_method list \<Rightarrow> real list \<Rightarrow> int list \<Rightarrow> real list \<Rightarrow> reg_state \<Rightarrow> reg_state result" where
  "regress_loop sid [] obs dev sim st = Inr st"
| "regress_loop sid (meth # ms) obs dev sim st =
     res_bind (fit_method sid meth obs dev sim) (\<lambda>f. regress_loop sid ms obs dev sim (record_fit st meth f))"

text \<open>What the loop keeps true of its dictionaries: the same keys in all three, each key
  once, and under each key the results of that method's fit.\<close>

definition reg_inv :: "string \<Rightarrow> real list \<Rightarrow> int list \<Rightarrow> real list \<Rightarrow> reg_state \<Rightarrow> bool" where
  "reg_inv sid obs dev sim st \<longleftrightarrow>
     map fst (predicted_d st) = map fst (rmse_d st) \<and> map fst (coeff_d st) = map fst (rmse_d st) \<and>
     distinct (map fst (rmse_d st)) \<and>
     (\<forall>meth v. map_of (rmse_d st) meth = Some v \<longrightarrow>
        (\<exists>f. fit_method sid meth obs dev sim = Inr f \<and> v = f_rmse f \<and>
             map_of (predicted_d st) meth = Some (f_predicted f) \<and> map_of (coeff_d st) meth = Some (f_coeff f)))"

section \<open>The comparison\<close>

definition no_nan :: "('k \<times> fl) list \<Rightarrow> bool" where
  "no_nan d \<longleftrightarrow> list_all (\<lambda>p. snd p \<noteq> NaN) d"

lemma fl_less_irrefl: "\<not> fl_less a a"
  by (cases a) auto

lemma fl_less_asym: "fl_less a b \<Longrightarrow> \<not> fl_less b a"
  by (cases a; cases b) auto

lemma fl_less_trans: "fl_less a b \<Longrightarrow> fl_less b c \<Longrightarrow> fl_less a c"
  by (cases a; cases b; cases c) auto

lemma fl_less_le_trans: "p \<noteq> NaN \<Longrightarrow> \<not> fl_less p v \<Longrightarrow> \<not> fl_less r p \<Longrightarrow> \<not> fl_less r v"
  by (cases p; cases r; cases v) auto

lemma fl_total: "a \<noteq> NaN \<Longrightarrow> b \<noteq> NaN \<Longrightarrow> fl_less a b \<or> a = b \<or> fl_less b a"
  by (cases a; cases b) auto

section \<open>The fold of \<open>min\<close>\<close>

lemma foldl_min_step_in: "foldl min_step p rest \<in> set (p # rest)"
  by (induction rest arbitrary: p) (auto simp: min_step_def)

lemma foldl_min_step_minimal:
  "list_all (\<lambda>q. snd q \<noteq> NaN) (p # rest) \<Longrightarrow> q \<in> set (p # rest) \<Longrightarrow>
   \<not> fl_less (snd q) (snd (foldl min_step p rest))"
proof (induction rest arbitrary: p q)
  case Nil then show ?case by (simp add: fl_less_irrefl)
next
  case (Cons r rest)
  let ?p' = "min_step p r" and ?v = "snd (foldl min_step (min_step p r) rest)"
  have nn: "list_all (\<lambda>q. snd q \<noteq> NaN) (?p' # rest)"
    using Cons.prems(1) by (simp add: min_step_def)
  have IH: "\<And>q'. q' \<in> set (?p' # rest) \<Longrightarrow> \<not> fl_less (snd q') ?v"
    using Cons.IH [OF nn] by blast
  show ?case
  proof (cases "fl_less (snd r) (snd p)")
    case True
    then have p': "?p' = r" by (simp add: min_step_def)
    have "\<not> fl_less (snd r) ?v" using IH p' by simp
    then have "\<not> fl_less (snd p) ?v" using True fl_less_trans by blast
    moreover have "q = p \<or> q \<in> set (?p' # rest)" using Cons.prems(2) p' by auto
    ultimately show ?thesis using IH unfolding foldl_Cons by blast
  next
    case False
    then have p': "?p' = p" by (simp add: min_step_def)
    have "\<not> fl_less (snd p) ?v" using IH p' by simp
    then have "\<not> fl_less (snd r) ?v"
      using False Cons.prems(1) fl_less_le_trans by auto
    moreover have "q = r \<or> q \<in> set (?p' # rest)" using Cons.prems(2) p' by auto
    ultimately show ?thesis using IH unfolding foldl_Cons by blast
  qed
qed

lemma foldl_min_step_nan: "foldl min_step (k, NaN) rest = (k, NaN)"
  by (induction rest) (auto simp: min_step_def)

section \<open>Selection\<close>

lemma py_min_key_in:
  assumes "py_min_key d = Inr k"
  shows "\<exists>v. (k, v) \<in> set d"
proof (cases d)
  case (Cons p rest)
  with assms have "k = fst (foldl min_step p rest)" by (simp add: py_min_key_def)
  moreover have "foldl min_step p rest \<in> set d" using Cons foldl_min_step_in by simp
  ultimately show ?thesis by (metis prod.collapse)
qed (use assms in \<open>simp add: py_min_key_def\<close>)

text \<open>Without \<open>nan\<close>, the selected method has an RMSE no other method beats.\<close>

theorem py_min_key_minimal:
  assumes "py_min_key d = Inr k" and "no_nan d"
  shows "\<exists>v. (k, v) \<in> set d \<and> (\<forall>(k', v')\<in>set d. \<not> fl_less v' v)"
proof (cases d)
  case Nil with assms show ?thesis by (simp add: py_min_key_def)
next
  case (Cons p rest)
  let ?r = "foldl min_step p rest"
  have k: "k = fst ?r" using assms(1) Cons by (simp add: py_min_key_def)
  have nn: "list_all (\<lambda>q. snd q \<noteq> NaN) (p # rest)" using assms(2) Cons by (simp add: no_nan_def)
  have all: "\<forall>q\<in>set d. \<not> fl_less (snd q) (snd ?r)"
    using foldl_min_step_minimal [OF nn] unfolding Cons by blast
  have mem: "(k, snd ?r) \<in> set d"
    using foldl_min_step_in [of p rest] k unfolding Cons by simp
  show ?thesis
  proof (intro exI conjI)
    show "(k, snd ?r) \<in> set d" by (rule mem)
    show "\<forall>(k', v')\<in>set d. \<not> fl_less v' (snd ?r)" using all by fastforce
  qed
qed

text \<open>C33: without \<open>nan\<close> scores, a method whose RMSE is strictly smaller than every other
  method's is what \<open>min(rmse, key=rmse.get)\<close> returns, whatever the dictionary order (line 172).\<close>

theorem py_min_key_unique:
  assumes "no_nan d" and "(k, v) \<in> set d" and "\<forall>(k', v')\<in>set d. k' \<noteq> k \<longrightarrow> fl_less v v'"
  shows "py_min_key d = Inr k"
proof (cases d)
  case Nil with assms show ?thesis by simp
next
  case (Cons p rest)
  let ?r = "foldl min_step p rest"
  obtain k0 v0 where r: "?r = (k0, v0)" by (cases ?r)
  have nn: "list_all (\<lambda>q. snd q \<noteq> NaN) (p # rest)" using assms(1) Cons by (simp add: no_nan_def)
  have mem: "(k0, v0) \<in> set d" using Cons foldl_min_step_in r by metis
  have "\<not> fl_less v v0" using foldl_min_step_minimal [OF nn, of "(k, v)"] assms(2) Cons r by simp
  then have "k0 = k" using assms(3) mem by fastforce
  with Cons r show ?thesis by (simp add: py_min_key_def)
qed

text \<open>C34: a first method whose RMSE is \<open>nan\<close> is returned by \<open>min\<close> whatever the other
  methods score, since every comparison with \<open>nan\<close> is false (line 172).\<close>

theorem py_min_key_nan_first: "py_min_key ((k, NaN) # rest) = Inr k"
  by (simp add: py_min_key_def foldl_min_step_nan)

section \<open>The loop over the methods\<close>

lemma reg_inv_init: "reg_inv sid obs dev sim reg_init"
  by (simp add: reg_inv_def reg_init_def)

lemma reg_inv_record_fit:
  assumes inv: "reg_inv sid obs dev sim st" and f: "fit_method sid meth obs dev sim = Inr f"
  shows "reg_inv sid obs dev sim (record_fit st meth f)"
proof -
  let ?st = "record_fit st meth f"
  from inv have k1: "map fst (predicted_d st) = map fst (rmse_d st)"
    and k2: "map fst (coeff_d st) = map fst (rmse_d st)" and dist: "distinct (map fst (rmse_d st))"
    and vals: "\<forall>meth v. map_of (rmse_d st) meth = Some v \<longrightarrow>
        (\<exists>f. fit_method sid meth obs dev sim = Inr f \<and> v = f_rmse f \<and>
             map_of (predicted_d st) meth = Some (f_predicted f) \<and> map_of (coeff_d st) meth = Some (f_coeff f))"
    unfolding reg_inv_def by blast+
  have "map fst (predicted_d ?st) = map fst (rmse_d ?st)"
    using k1 by (simp only: record_fit_def reg_state.simps keys_dict_set)
  moreover have "map fst (coeff_d ?st) = map fst (rmse_d ?st)"
    using k2 by (simp only: record_fit_def reg_state.simps keys_dict_set)
  moreover have "distinct (map fst (rmse_d ?st))"
    using dist by (simp add: record_fit_def distinct_keys_dict_set)
  moreover have "\<forall>meth' v. map_of (rmse_d ?st) meth' = Some v \<longrightarrow>
        (\<exists>f'. fit_method sid meth' obs dev sim = Inr f' \<and> v = f_rmse f' \<and>
             map_of (predicted_d ?st) meth' = Some (f_predicted f') \<and> map_of (coeff_d ?st) meth' = Some (f_coeff f'))"
  proof (intro allI impI)
    fix meth' v
    assume v: "map_of (rmse_d ?st) meth' = Some v"
    show "\<exists>f'. fit_method sid meth' obs dev sim = Inr f' \<and> v = f_rmse f' \<and>
             map_of (predicted_d ?st) meth' = Some (f_predicted f') \<and> map_of (coeff_d ?st) meth' = Some (f_coeff f')"
    proof (cases "meth' = meth")
      case True
      with v f show ?thesis by (simp add: record_fit_def map_of_dict_set)
    next
      case False
      with v vals show ?thesis by (simp add: record_fit_def map_of_dict_set)
    qed
  qed
  ultimately show ?thesis unfolding reg_inv_def by blast
qed

lemma regress_loop_ConsE:
  assumes "regress_loop sid (meth # ms) obs dev sim st = Inr st'"
  obtains f where "fit_method sid meth obs dev sim = Inr f"
    "regress_loop sid ms obs dev sim (record_fit st meth f) = Inr st'"
  using assms by (auto simp: res_bind_eq_Inr)

lemma regress_loop_inv:
  "regress_loop sid ms obs dev sim st = Inr st' \<Longrightarrow> reg_inv sid obs dev sim st \<Longrightarrow> reg_inv sid obs dev sim st'"
proof (induction ms arbitrary: st)
  case Nil then show ?case by simp
next
  case (Cons meth ms)
  from Cons.prems(1) show ?case
  proof (rule regress_loop_ConsE)
    fix f
    assume f: "fit_method sid meth obs dev sim = Inr f"
      and rest: "regress_loop sid ms obs dev sim (record_fit st meth f) = Inr st'"
    from rest reg_inv_record_fit [OF Cons.prems(2) f] show ?thesis by (rule Cons.IH)
  qed
qed

lemma regress_loop_keys:
  "regress_loop sid ms obs dev sim st = Inr st' \<Longrightarrow> fst ` set (rmse_d st') = fst ` set (rmse_d st) \<union> set ms"
proof (induction ms arbitrary: st)
  case Nil then show ?case by simp
next
  case (Cons meth ms)
  from Cons.prems show ?case
  proof (rule regress_loop_ConsE)
    fix f
    assume "regress_loop sid ms obs dev sim (record_fit st meth f) = Inr st'"
    from Cons.IH [OF this] show ?thesis by (auto simp: record_fit_def)
  qed
qed

lemma regress_loop_last_m:
  "regress_loop sid ms obs dev sim st = Inr st' \<Longrightarrow> ms \<noteq> [] \<Longrightarrow>
   \<exists>f. fit_method sid (last ms) obs dev sim = Inr f \<and> last_m st' = fst (f_coeff f)"
proof (induction ms arbitrary: st)
  case Nil then show ?case by simp
next
  case (Cons meth ms)
  from Cons.prems(1) obtain f where f: "fit_method sid meth obs dev sim = Inr f"
    and rest: "regress_loop sid ms obs dev sim (record_fit st meth f) = Inr st'"
    by (rule regress_loop_ConsE)
  show ?case
  proof (cases "ms = []")
    case True
    with rest have "st' = record_fit st meth f" by simp
    with f True show ?thesis by (simp add: record_fit_def)
  next
    case False
    with Cons.IH [OF rest] show ?thesis by simp
  qed
qed

lemma regress_loop_succeeds:
  "(\<forall>meth\<in>set ms. \<exists>f. fit_method sid meth obs dev sim = Inr f) \<Longrightarrow>
   \<exists>st'. regress_loop sid ms obs dev sim st = Inr st'"
proof (induction ms arbitrary: st)
  case Nil then show ?case by simp
next
  case (Cons meth ms)
  then obtain f where f: "fit_method sid meth obs dev sim = Inr f" by auto
  from Cons obtain st' where "regress_loop sid ms obs dev sim (record_fit st meth f) = Inr st'"
    by (meson list.set_intros(2))
  with f show ?case by simp
qed

section \<open>Examples\<close>

theorem py_min_key_unique_witness:
  "py_min_key [(Linear, Fin 2), (Logarithmic, Fin 1), (Exponential, PosInf)] = Inr Logarithmic"
  using py_min_key_unique [where d = "[(Linear, Fin 2), (Logarithmic, Fin 1), (Exponential, PosInf)]"
      and k = Logarithmic and v = "Fin 1"]
  by (simp add: no_nan_def)

end
