(* ===== verification/Demand.thy ===== *)
theory Demand
  imports Select
begin

text \<open>
  The demand of one subregion, r.futures.demand.py lines 141--183: the methods are fitted and
  the best one selected (\<open>Select\<close>), its predicted developed cells are differenced
  (\<open>np.diff\<close>, line 175), negative increments are set to zero with a warning (lines
  176--179), and the whole vector is set to zero with a second warning when \<open>m < 0\<close> (lines
  180--183). At line 180, \<open>m\<close> is the variable left by the last iteration of the loop over the
  methods, that is, the slope of the last requested method, not that of the selected one.
\<close>

datatype warning = NegativeDemand string | InverseRelation string

text \<open>Lines 141--172: fit every method, then \<open>min(rmse, key=rmse.get)\<close>.\<close>

definition select_method :: "string \<Rightarrow> regression_method list \<Rightarrow> real list \<Rightarrow> int list \<Rightarrow> real list \<Rightarrow>
    (reg_state \<times> regression_method) result" where
  "select_method sid ms obs dev sim =
     res_bind (regress_loop sid ms obs dev sim reg_init) (\<lambda>st.
     res_bind (py_min_key (rmse_d st)) (\<lambda>meth. Inr (st, meth)))"

text \<open>Line 179: \<open>demand[demand < 0] = 0\<close>.\<close>

definition clamp_negative :: "real list \<Rightarrow> real list" where
  "clamp_negative d = map (\<lambda>v. if v < 0 then 0 else v) d"

text \<open>Lines 174--183 for the loop state \<open>st\<close> and the selected method.\<close>

definition demand_of :: "string \<Rightarrow> reg_state \<Rightarrow> regression_method \<Rightarrow> real list \<times> warning list" where
  "demand_of sid st meth =
     (let d = np_diff (the (map_of (predicted_d st) meth));
          w_neg = (if list_ex (\<lambda>v. v < 0) d then [NegativeDemand sid] else []);
          d' = clamp_negative d
      in if last_m st < 0 then (replicate (length d') 0, w_neg @ [InverseRelation sid])
         else (d', w_neg))"

definition subregion_demand :: "string \<Rightarrow> regression_method list \<Rightarrow> real list \<Rightarrow> int list \<Rightarrow> real list \<Rightarrow>
    (real list \<times> warning list) result" where
  "subregion_demand sid ms obs dev sim =
     res_bind (select_method sid ms obs dev sim) (\<lambda>(st, meth). Inr (demand_of sid st meth))"

section \<open>Selection\<close>

lemma select_method_InrE:
  assumes "select_method sid ms obs dev sim = Inr (st, meth)"
  obtains f where "regress_loop sid ms obs dev sim reg_init = Inr st" "py_min_key (rmse_d st) = Inr meth"
    "meth \<in> set ms" "fit_method sid meth obs dev sim = Inr f"
    "map_of (rmse_d st) meth = Some (f_rmse f)" "map_of (predicted_d st) meth = Some (f_predicted f)"
proof -
  from assms have loop: "regress_loop sid ms obs dev sim reg_init = Inr st"
    and mk: "py_min_key (rmse_d st) = Inr meth"
    by (auto simp: select_method_def res_bind_eq_Inr)
  have inv: "reg_inv sid obs dev sim st" using regress_loop_inv [OF loop reg_inv_init] .
  obtain v where kv: "(meth, v) \<in> set (rmse_d st)" using py_min_key_in [OF mk] by blast
  have "distinct (map fst (rmse_d st))" using inv by (simp add: reg_inv_def)
  with kv have "map_of (rmse_d st) meth = Some v" by simp
  with inv obtain f where "fit_method sid meth obs dev sim = Inr f" "v = f_rmse f"
      "map_of (predicted_d st) meth = Some (f_predicted f)"
    unfolding reg_inv_def by blast
  moreover have "meth \<in> set ms"
    using kv regress_loop_keys [OF loop] by (force simp: reg_init_def)
  ultimately show ?thesis using that loop mk \<open>map_of (rmse_d st) meth = Some v\<close> by blast
qed

lemma reg_inv_rmse_entry:
  "reg_inv sid obs dev sim st \<Longrightarrow> (k, v) \<in> set (rmse_d st) \<Longrightarrow>
   \<exists>f. fit_method sid k obs dev sim = Inr f \<and> v = f_rmse f"
  unfolding reg_inv_def by (metis map_of_is_SomeI)

lemma select_method_no_nan:
  assumes "regress_loop sid ms obs dev sim reg_init = Inr st" and "3 \<le> length obs"
  shows "no_nan (rmse_d st)"
  unfolding no_nan_def list_all_iff
proof
  fix p assume p: "p \<in> set (rmse_d st)"
  obtain k v where kv: "p = (k, v)" by (cases p)
  from regress_loop_inv [OF assms(1) reg_inv_init] p kv
  obtain f where "fit_method sid k obs dev sim = Inr f" "v = f_rmse f"
    using reg_inv_rmse_entry by blast
  with fit_method_rmse_finite [OF _ assms(2)] kv show "snd p \<noteq> NaN" by fastforce
qed

text \<open>C7: with at least three observations the selected method is one of those requested, its
  fit succeeds, and no requested method's RMSE is strictly smaller (lines 147--172).\<close>

theorem select_method_minimal:
  assumes sel: "select_method sid ms obs dev sim = Inr (st, meth)" and three: "3 \<le> length obs"
  shows "\<exists>f. meth \<in> set ms \<and> fit_method sid meth obs dev sim = Inr f \<and>
           (\<forall>meth'\<in>set ms. \<forall>f'. fit_method sid meth' obs dev sim = Inr f' \<longrightarrow> \<not> fl_less (f_rmse f') (f_rmse f))"
  using sel
proof (rule select_method_InrE)
  fix f
  assume loop: "regress_loop sid ms obs dev sim reg_init = Inr st" and mk: "py_min_key (rmse_d st) = Inr meth"
    and mem: "meth \<in> set ms" and fit: "fit_method sid meth obs dev sim = Inr f"
    and rm: "map_of (rmse_d st) meth = Some (f_rmse f)"
  have inv: "reg_inv sid obs dev sim st" using regress_loop_inv [OF loop reg_inv_init] .
  obtain v where v: "(meth, v) \<in> set (rmse_d st)" and minv: "\<forall>(k', v')\<in>set (rmse_d st). \<not> fl_less v' v"
    using py_min_key_minimal [OF mk select_method_no_nan [OF loop three]] by blast
  have "v = f_rmse f" using reg_inv_rmse_entry [OF inv v] fit by auto
  moreover have "\<forall>meth'\<in>set ms. \<forall>f'. fit_method sid meth' obs dev sim = Inr f' \<longrightarrow> (meth', f_rmse f') \<in> set (rmse_d st)"
  proof (intro ballI allI impI)
    fix meth' f' assume m': "meth' \<in> set ms" and f': "fit_method sid meth' obs dev sim = Inr f'"
    from m' regress_loop_keys [OF loop] have "meth' \<in> fst ` set (rmse_d st)"
      by (simp add: reg_init_def)
    then obtain v' where kv': "(meth', v') \<in> set (rmse_d st)" by force
    with reg_inv_rmse_entry [OF inv kv'] f' show "(meth', f_rmse f') \<in> set (rmse_d st)" by auto
  qed
  ultimately show ?thesis using mem fit minv by fastforce
qed

section \<open>Demand\<close>

lemma subregion_demand_InrE:
  assumes "subregion_demand sid ms obs dev sim = Inr (d, ws)"
  obtains st meth f where "select_method sid ms obs dev sim = Inr (st, meth)"
    "fit_method sid meth obs dev sim = Inr f" "map_of (predicted_d st) meth = Some (f_predicted f)"
    "(d, ws) = demand_of sid st meth"
proof -
  from assms obtain st meth where sel: "select_method sid ms obs dev sim = Inr (st, meth)"
    and dw: "(d, ws) = demand_of sid st meth"
    by (auto simp: subregion_demand_def res_bind_eq_Inr)
  from sel show ?thesis
    by (rule select_method_InrE) (use that sel dw in blast)
qed

lemma demand_of_selected:
  "map_of (predicted_d st) meth = Some p \<Longrightarrow>
   demand_of sid st meth =
     (if last_m st < 0 then (replicate (length p - 1) 0, (if list_ex (\<lambda>v. v < 0) (np_diff p) then [NegativeDemand sid] else []) @ [InverseRelation sid])
      else (clamp_negative (np_diff p), if list_ex (\<lambda>v. v < 0) (np_diff p) then [NegativeDemand sid] else []))"
  by (simp add: demand_of_def Let_def clamp_negative_def)

lemma demand_of_shape:
  "map_of (predicted_d st) meth = Some p \<Longrightarrow> demand_of sid st meth = (d, ws) \<Longrightarrow>
   length d = length p - 1 \<and> (\<forall>v\<in>set d. 0 \<le> v)"
  by (auto simp: demand_of_def Let_def clamp_negative_def split: if_splits)

lemma subregion_demand_vector:
  assumes "subregion_demand sid ms obs dev sim = Inr (d, ws)"
  shows "length d = length sim - 1 \<and> (\<forall>v\<in>set d. 0 \<le> v)"
  using assms
proof (rule subregion_demand_InrE)
  fix st meth f
  assume "fit_method sid meth obs dev sim = Inr f" "map_of (predicted_d st) meth = Some (f_predicted f)"
    "(d, ws) = demand_of sid st meth"
  then show ?thesis using demand_of_shape fit_method_length_predicted by metis
qed

lemma select_method_methods_nonempty: "select_method sid ms obs dev sim = Inr (st, meth) \<Longrightarrow> ms \<noteq> []"
  by (erule select_method_InrE) auto

lemma select_method_last_m:
  assumes "select_method sid ms obs dev sim = Inr (st, meth)"
  shows "\<exists>f. fit_method sid (last ms) obs dev sim = Inr f \<and> last_m st = fst (f_coeff f)"
  using assms
proof (rule select_method_InrE)
  assume "regress_loop sid ms obs dev sim reg_init = Inr st"
  from regress_loop_last_m [OF this select_method_methods_nonempty [OF assms]] show ?thesis .
qed

text \<open>C4: the inverse-relation warning of line 182 is issued exactly when the slope of the last
  requested method is negative, whatever method was selected.\<close>

theorem subregion_demand_inverse_iff:
  assumes "subregion_demand sid ms obs dev sim = Inr (d, ws)"
  shows "InverseRelation sid \<in> set ws \<longleftrightarrow>
           (\<exists>f. fit_method sid (last ms) obs dev sim = Inr f \<and> fst (f_coeff f) < 0)"
  using assms
proof (rule subregion_demand_InrE)
  fix st meth f
  assume sel: "select_method sid ms obs dev sim = Inr (st, meth)"
    and p: "map_of (predicted_d st) meth = Some (f_predicted f)" and dw: "(d, ws) = demand_of sid st meth"
  obtain fl where fl: "fit_method sid (last ms) obs dev sim = Inr fl" and m: "last_m st = fst (f_coeff fl)"
    using select_method_last_m [OF sel] by blast
  from dw p have "ws = snd (demand_of sid st meth)" by (metis snd_conv)
  with p have "InverseRelation sid \<in> set ws \<longleftrightarrow> last_m st < 0"
    by (simp add: demand_of_selected)
  with fl m show ?thesis by auto
qed

text \<open>C5: when the last requested method's slope is negative, the demand is all zeros, one
  per simulation interval (line 181).\<close>

theorem subregion_demand_inverse_zero:
  assumes "subregion_demand sid ms obs dev sim = Inr (d, ws)"
    and "fit_method sid (last ms) obs dev sim = Inr f" and "fst (f_coeff f) < 0"
  shows "d = replicate (length sim - 1) 0"
  using assms(1)
proof (rule subregion_demand_InrE)
  fix st meth f'
  assume sel: "select_method sid ms obs dev sim = Inr (st, meth)" and f': "fit_method sid meth obs dev sim = Inr f'"
    and p: "map_of (predicted_d st) meth = Some (f_predicted f')" and dw: "(d, ws) = demand_of sid st meth"
  have "last_m st < 0" using select_method_last_m [OF sel] assms(2,3) by auto
  with dw p fit_method_length_predicted [OF f'] show ?thesis
    by (simp add: demand_of_selected)
qed

text \<open>C6: when the last requested method's slope is not negative, the demand is the first
  difference of the selected method's predictions with negative entries set to 0, and the
  only warning is the negative-demand one, issued when some difference is negative
  (lines 174--179).\<close>

theorem subregion_demand_increments:
  assumes "select_method sid ms obs dev sim = Inr (st, meth)" and "fit_method sid meth obs dev sim = Inr f"
    and "fit_method sid (last ms) obs dev sim = Inr fl" and "0 \<le> fst (f_coeff fl)"
  shows "subregion_demand sid ms obs dev sim =
           Inr (clamp_negative (np_diff (f_predicted f)),
                if list_ex (\<lambda>v. v < 0) (np_diff (f_predicted f)) then [NegativeDemand sid] else [])"
  using assms(1)
proof (rule select_method_InrE)
  fix f'
  assume f': "fit_method sid meth obs dev sim = Inr f'" and p: "map_of (predicted_d st) meth = Some (f_predicted f')"
  have "f' = f" using f' assms(2) by simp
  moreover have "\<not> last_m st < 0" using select_method_last_m [OF assms(1)] assms(3,4) by auto
  ultimately show ?thesis
    using assms(1) p by (simp add: subregion_demand_def demand_of_selected)
qed

lemma np_diff_sorted_nonneg: "sorted xs \<Longrightarrow> \<forall>v\<in>set (np_diff xs). 0 \<le> v"
  by (induction xs rule: np_diff.induct) auto

lemma clamp_negative_id: "\<forall>v\<in>set d. 0 \<le> v \<Longrightarrow> clamp_negative d = d"
  by (induction d) (auto simp: clamp_negative_def)

lemma select_method_succeeds:
  assumes "ms \<noteq> []" and "\<forall>meth\<in>set ms. \<exists>f. fit_method sid meth obs dev sim = Inr f"
  shows "\<exists>st meth. select_method sid ms obs dev sim = Inr (st, meth)"
proof -
  obtain st where st: "regress_loop sid ms obs dev sim reg_init = Inr st"
    using regress_loop_succeeds [OF assms(2)] by blast
  have "fst ` set (rmse_d st) = set ms" using regress_loop_keys [OF st] by (simp add: reg_init_def)
  with assms(1) obtain p rest where "rmse_d st = p # rest" by (cases "rmse_d st") auto
  with st show ?thesis by (simp add: select_method_def py_min_key_def)
qed

text \<open>The body of the subregion loop does not raise when methods are requested, the series
  have the same length, and the log transforms see positive values only.\<close>

lemma subregion_demand_succeeds:
  assumes "ms \<noteq> []" and "length obs = length dev"
    and "Logarithmic \<in> set ms \<Longrightarrow> (\<forall>x\<in>set obs. 0 < x) \<and> (\<forall>s\<in>set sim. 0 < s)"
    and "Exponential \<in> set ms \<Longrightarrow> \<forall>d\<in>set dev. 0 < d"
  shows "\<exists>d ws. subregion_demand sid ms obs dev sim = Inr (d, ws)"
proof -
  have "\<forall>meth\<in>set ms. \<exists>f. fit_method sid meth obs dev sim = Inr f"
    using assms(2-4) fit_method_succeeds by metis
  from select_method_succeeds [OF assms(1) this] show ?thesis by (auto simp: subregion_demand_def)
qed

section \<open>Examples\<close>

lemma fit_neg_example:
  "fit_method ''1'' Linear [1, 2, 3] [6, 4, 2] [4, 5] =
     Inr \<lparr>f_coeff = (-2, 8), f_predicted = [0, -2], f_rmse = Fin 0\<rparr>"
  by (simp add: fit_method_def transform_pop_def transform_dev_def np_lstsq_def ols_coeffs_def gram_det_def
                sum_x_def sum_y_def sum_xx_def sum_xy_def predict_def residuals_def fl_rmse_def)

lemma select_pos_example:
  "select_method ''1'' [Linear] [1, 2, 3] [2, 4, 6] [4, 5] =
     Inr (\<lparr>rmse_d = [(Linear, Fin 0)], predicted_d = [(Linear, [8, 10])], coeff_d = [(Linear, (2, 0))],
           last_m = 2\<rparr>, Linear)"
  by (simp add: select_method_def fit_example reg_init_def record_fit_def py_min_key_def)

lemma select_neg_example:
  "select_method ''1'' [Linear] [1, 2, 3] [6, 4, 2] [4, 5] =
     Inr (\<lparr>rmse_d = [(Linear, Fin 0)], predicted_d = [(Linear, [0, -2])], coeff_d = [(Linear, (-2, 8))],
           last_m = -2\<rparr>, Linear)"
  by (simp add: select_method_def fit_neg_example reg_init_def record_fit_def py_min_key_def)

lemma subregion_neg_example:
  "subregion_demand ''1'' [Linear] [1, 2, 3] [6, 4, 2] [4, 5] = Inr ([0], [NegativeDemand ''1'', InverseRelation ''1''])"
  by (simp add: subregion_demand_def select_neg_example demand_of_def clamp_negative_def)

theorem select_method_minimal_witness:
  "\<exists>f. Linear \<in> set [Linear] \<and> fit_method ''1'' Linear [1, 2, 3] [2, 4, 6] [4, 5] = Inr f \<and>
     (\<forall>meth'\<in>set [Linear]. \<forall>f'. fit_method ''1'' meth' [1, 2, 3] [2, 4, 6] [4, 5] = Inr f' \<longrightarrow>
        \<not> fl_less (f_rmse f') (f_rmse f))"
  using select_method_minimal [OF select_pos_example] by simp

theorem subregion_demand_inverse_iff_witness:
  "InverseRelation ''1'' \<in> set [NegativeDemand ''1'', InverseRelation ''1''] \<and>
   (\<exists>f. fit_method ''1'' Linear [1, 2, 3] [6, 4, 2] [4, 5] = Inr f \<and> fst (f_coeff f) < 0)"
  using subregion_demand_inverse_iff [OF subregion_neg_example] by simp

theorem subregion_demand_inverse_zero_witness:
  "subregion_demand ''1'' [Linear] [1, 2, 3] [6, 4, 2] [4, 5] = Inr ([0], [NegativeDemand ''1'', InverseRelation ''1'']) \<and>
   [0 :: real] = replicate (length [4, 5 :: real] - 1) 0"
  using subregion_demand_inverse_zero [OF subregion_neg_example, where f = "\<lparr>f_coeff = (-2, 8), f_predicted = [0, -2], f_rmse = Fin 0\<rparr>"]
    subregion_neg_example fit_neg_example
  by simp

theorem subregion_demand_increments_witness:
  "subregion_demand ''1'' [Linear] [1, 2, 3] [2, 4, 6] [4, 5] = Inr ([2], [])"
  using subregion_demand_increments [OF select_pos_example fit_example,
      where fl = "\<lparr>f_coeff = (2, 0), f_predicted = [8, 10], f_rmse = Fin 0\<rparr>"] fit_example
  by (simp add: clamp_negative_def)

end
