(* ===== verification/Output.thy ===== *)
theory Output
  imports Prelude
begin

text \<open>
  The demand file, r.futures.demand.py lines 217--236: a line \<open>Years_to_simulate: n\<close>
  with \<open>n = len(simulation_times)\<close>, the header of the observed-population table joined by
  tabs, then one line per simulation time after the first: the time truncated to an integer,
  a tab, and for each subregion column of the header (in header order) \<open>0\<close> when the
  subregion was not fitted, else its demand for that interval truncated to an integer; a
  tab follows every column whose name differs from the last header name.
\<close>

abbreviation TAB :: char where "TAB \<equiv> CHR 0x09"

text \<open>Lines 229--232 for subregion \<open>sub\<close> and interval \<open>i\<close>; a missing key or a short
  vector would raise (KeyError, IndexError).\<close>

definition demand_field :: "string list \<Rightarrow> (string \<times> real list) list \<Rightarrow> nat \<Rightarrow> string \<Rightarrow> string result" where
  "demand_field ids dm i sub =
     (if sub \<notin> set ids then Inr ''0''
      else case map_of dm sub of
             None \<Rightarrow> Inl (DemandIndex sub)
           | Some d \<Rightarrow> if i < length d then Inr (py_str_int (py_trunc (d ! i))) else Inl (DemandIndex sub))"

text \<open>Lines 228--234: the fields of one row after the time.\<close>

fun row_fields :: "string list \<Rightarrow> string \<Rightarrow> string list \<Rightarrow> (string \<times> real list) list \<Rightarrow> nat \<Rightarrow> string result" where
  "row_fields [] last_sub ids dm i = Inr []"
| "row_fields (sub # subs) last_sub ids dm i =
     res_bind (demand_field ids dm i sub) (\<lambda>v.
     res_bind (row_fields subs last_sub ids dm i) (\<lambda>rest.
       Inr (v @ (if sub \<noteq> last_sub then [TAB] else []) @ rest)))"

text \<open>Lines 223--236: the rows for the times \<open>ts\<close>, the first being interval \<open>i\<close>.\<close>

fun write_rows :: "nat \<Rightarrow> real list \<Rightarrow> string list \<Rightarrow> string list \<Rightarrow> (string \<times> real list) list \<Rightarrow> string result" where
  "write_rows i [] header ids dm = Inr []"
| "write_rows i (t # ts) header ids dm =
     res_bind (row_fields (tl header) (last header) ids dm i) (\<lambda>fs.
     res_bind (write_rows (Suc i) ts header ids dm) (\<lambda>rest.
       Inr (py_str_int (py_trunc t) @ TAB # fs @ CHR ''\<newline>'' # rest)))"

text \<open>What a reader of the file finds in column \<open>sub\<close> of row \<open>i\<close>.\<close>

definition cell_value :: "string list \<Rightarrow> (string \<times> real list) list \<Rightarrow> nat \<Rightarrow> string \<Rightarrow> int" where
  "cell_value ids dm i sub = (if sub \<in> set ids then py_trunc (the (map_of dm sub) ! i) else 0)"

definition row_text :: "string list \<Rightarrow> string list \<Rightarrow> (string \<times> real list) list \<Rightarrow> nat \<Rightarrow> real \<Rightarrow> string" where
  "row_text header ids dm i t =
     py_join TAB (py_str_int (py_trunc t) # map (\<lambda>sub. py_str_int (cell_value ids dm i sub)) (tl header))"

fun row_list :: "string list \<Rightarrow> string list \<Rightarrow> (string \<times> real list) list \<Rightarrow> nat \<Rightarrow> real list \<Rightarrow> string list" where
  "row_list header ids dm i [] = []"
| "row_list header ids dm i (t # ts) = row_text header ids dm i t # row_list header ids dm (Suc i) ts"

definition write_demand :: "real list \<Rightarrow> string list \<Rightarrow> string list \<Rightarrow> (string \<times> real list) list \<Rightarrow> string result" where
  "write_demand sim header ids dm =
     res_bind (write_rows 0 (tl sim) header ids dm) (\<lambda>body.
       Inr (''Years_to_simulate: '' @ py_str_int (int (length sim)) @ CHR ''\<newline>'' #
            py_join TAB header @ CHR ''\<newline>'' # body))"

section \<open>Lemmas\<close>

definition vectors_cover :: "string list \<Rightarrow> (string \<times> real list) list \<Rightarrow> nat \<Rightarrow> bool" where
  "vectors_cover ids dm k \<longleftrightarrow> (\<forall>sub\<in>set ids. \<exists>d. map_of dm sub = Some d \<and> k \<le> length d)"

lemma tab_not_in_int: "TAB \<notin> set (py_str_int n)"
  by (rule py_str_int_no_sep) (simp_all add: is_digit_def less_eq_char_def)

lemma newline_not_in_int: "CHR ''\<newline>'' \<notin> set (py_str_int n)"
  by (rule py_str_int_no_sep) (simp_all add: is_digit_def less_eq_char_def)

lemma demand_field_ok:
  "vectors_cover ids dm k \<Longrightarrow> i < k \<Longrightarrow> demand_field ids dm i sub = Inr (py_str_int (cell_value ids dm i sub))"
  by (auto simp: demand_field_def vectors_cover_def cell_value_def)

lemma row_fields_join:
  assumes "vectors_cover ids dm k" and "i < k"
  shows "subs \<noteq> [] \<Longrightarrow> distinct subs \<Longrightarrow> last subs = l \<Longrightarrow>
    row_fields subs l ids dm i = Inr (py_join TAB (map (\<lambda>sub. py_str_int (cell_value ids dm i sub)) subs))"
proof (induction subs)
  case (Cons sub subs)
  note field = demand_field_ok [OF assms]
  show ?case
  proof (cases subs)
    case Nil
    with Cons.prems show ?thesis by (simp add: field)
  next
    case (Cons s ss)
    have l: "l \<in> set subs" using Cons.prems(3) Cons by (metis last_in_set list.distinct(1) last_ConsR)
    with Cons.prems have "sub \<noteq> l" "distinct subs" "last subs = l" by (auto simp: Cons)
    with Cons.IH Cons show ?thesis by (simp add: field)
  qed
qed simp

lemma write_rows_lines:
  assumes "vectors_cover ids dm (i + length ts)" and "distinct header" and "2 \<le> length header"
  shows "write_rows i ts header ids dm = Inr (concat (map (\<lambda>l. l @ [CHR ''\<newline>'']) (row_list header ids dm i ts)))"
  using assms(1)
proof (induction ts arbitrary: i)
  case (Cons t ts)
  obtain h0 h1 hs where h: "header = h0 # h1 # hs" using assms(3) by (metis Suc_le_length_iff numeral_2_eq_2)
  have th: "tl header \<noteq> []" "distinct (tl header)" "last (tl header) = last header"
    using assms(2) h by auto
  have row: "row_fields (tl header) (last header) ids dm i =
               Inr (py_join TAB (map (\<lambda>sub. py_str_int (cell_value ids dm i sub)) (tl header)))"
    using row_fields_join [of ids dm "i + length (t # ts)" i "tl header" "last header"] Cons.prems th by simp
  have "vectors_cover ids dm (Suc i + length ts)" using Cons.prems by simp
  note IH = Cons.IH [OF this]
  show ?case
    using row IH th(1) by (simp add: row_text_def py_join_Cons)
qed simp

lemma length_row_list [simp]: "length (row_list header ids dm k ts) = length ts"
  by (induction ts arbitrary: k) auto

lemma nth_row_list: "i < length ts \<Longrightarrow> row_list header ids dm k ts ! i = row_text header ids dm (k + i) (ts ! i)"
proof (induction ts arbitrary: k i)
  case (Cons t ts)
  then show ?case by (cases i) auto
qed simp

lemma row_text_no_newline:
  "\<forall>h\<in>set header. CHR ''\<newline>'' \<notin> set h \<Longrightarrow> CHR ''\<newline>'' \<notin> set (row_text header ids dm i t)"
  unfolding row_text_def by (rule py_join_not_in) (auto simp: newline_not_in_int)

lemma header_line_no_newline:
  "\<forall>h\<in>set header. CHR ''\<newline>'' \<notin> set h \<Longrightarrow> CHR ''\<newline>'' \<notin> set (py_join TAB header)"
  by (rule py_join_not_in) simp_all

lemma in_row_list: "l \<in> set (row_list header ids dm k ts) \<Longrightarrow> \<exists>i t. l = row_text header ids dm i t"
  by (induction ts arbitrary: k) auto

lemma read_row_text:
  "map py_int_of_str (py_split TAB (row_text header ids dm i t)) =
     Some (py_trunc t) # map (\<lambda>sub. Some (cell_value ids dm i sub)) (tl header)"
proof -
  have "py_split TAB (row_text header ids dm i t) =
          py_str_int (py_trunc t) # map (\<lambda>sub. py_str_int (cell_value ids dm i sub)) (tl header)"
    unfolding row_text_def by (rule py_split_join) (auto simp: tab_not_in_int)
  then show ?thesis by (simp add: py_int_of_str_str)
qed

lemma write_demand_text:
  assumes "vectors_cover ids dm (length sim - 1)" and "distinct header" and "2 \<le> length header"
  shows "write_demand sim header ids dm =
           Inr (concat (map (\<lambda>l. l @ [CHR ''\<newline>''])
                  ((''Years_to_simulate: '' @ py_str_int (int (length sim))) # py_join TAB header #
                   row_list header ids dm 0 (tl sim))))"
  using write_rows_lines [of ids dm 0 "tl sim" header] assms by (simp add: write_demand_def)

text \<open>The writer (lines 218--236) never raises when every fitted subregion has a demand
  vector covering the simulation intervals and the header names are distinct, at least two.\<close>

theorem write_demand_safe:
  assumes "vectors_cover ids dm (length sim - 1)" and "distinct header" and "2 \<le> length header"
  shows "\<exists>out. write_demand sim header ids dm = Inr out"
  using write_demand_text [OF assms] by blast

text \<open>C36: reading the file back: it has two header lines and one line per simulation time after the
  first; the first line announces \<open>len(simulation_times)\<close>; row \<open>i\<close> holds the truncated time
  and, per header column, the truncated demand or 0.\<close>

theorem write_demand_roundtrip:
  assumes out: "write_demand sim header ids dm = Inr out" and cover: "vectors_cover ids dm (length sim - 1)"
    and dist: "distinct header" and two: "2 \<le> length header"
    and names: "\<forall>h\<in>set header. CHR ''\<newline>'' \<notin> set h"
  shows "length (py_splitlines out) = 2 + (length sim - 1) \<and>
         hd (py_splitlines out) = ''Years_to_simulate: '' @ py_str_int (int (length sim)) \<and>
         (\<forall>i < length sim - 1. map py_int_of_str (py_split TAB (py_splitlines out ! (2 + i))) =
           Some (py_trunc (sim ! Suc i)) # map (\<lambda>sub. Some (cell_value ids dm i sub)) (tl header))"
proof -
  let ?ls = "(''Years_to_simulate: '' @ py_str_int (int (length sim))) # py_join TAB header #
             row_list header ids dm 0 (tl sim)"
  have eq: "out = concat (map (\<lambda>l. l @ [CHR ''\<newline>'']) ?ls)"
    using write_demand_text [OF cover dist two] out by simp
  have nl: "\<forall>l\<in>set ?ls. CHR ''\<newline>'' \<notin> set l"
    using names row_text_no_newline header_line_no_newline newline_not_in_int
    by (auto dest!: in_row_list)
  have lines: "py_splitlines out = ?ls"
    unfolding eq by (rule py_splitlines_lines [OF nl])
  show ?thesis by (auto simp: lines nth_row_list nth_tl read_row_text)
qed

section \<open>Examples\<close>

theorem write_demand_safe_witness:
  "\<exists>out. write_demand [2010, 2020, 2030] [''year'', ''1'', ''2''] [''1''] [(''1'', [5, 7])] = Inr out"
  using write_demand_safe [where ids = "[''1'']" and dm = "[(''1'', [5, 7])]" and sim = "[2010, 2020, 2030]"
      and header = "[''year'', ''1'', ''2'']"]
  by (simp add: vectors_cover_def)

theorem write_demand_roundtrip_witness:
  "\<exists>out. write_demand [2010, 2020, 2030] [''year'', ''1'', ''2''] [''1''] [(''1'', [5, 7])] = Inr out \<and>
     length (py_splitlines out) = 4 \<and> hd (py_splitlines out) = ''Years_to_simulate: '' @ py_str_int 3 \<and>
     (\<forall>i < 2. map py_int_of_str (py_split TAB (py_splitlines out ! (2 + i))) =
        Some (py_trunc ([2010, 2020, 2030] ! Suc i)) #
        map (\<lambda>sub. Some (cell_value [''1''] [(''1'', [5, 7])] i sub)) [''1'', ''2''])"
proof -
  have cover: "vectors_cover [''1''] [(''1'', [5 :: real, 7])] (length [2010, 2020, 2030 :: real] - 1)"
    by (simp add: vectors_cover_def)
  obtain out where out: "write_demand [2010, 2020, 2030] [''year'', ''1'', ''2''] [''1''] [(''1'', [5, 7])] = Inr out"
    using write_demand_text [OF cover] by simp
  from write_demand_roundtrip [OF out cover] out show ?thesis by simp
qed

end
