(* ===== verification/Pipeline.thy ===== *)
theory Pipeline
  imports Interp Univar Demand Output
begin

text \<open>
  \<open>main()\<close> of r.futures.demand.py (lines 88--236) with the plot left out: the count check
  of line 105 (which raises TypeError on a one-row observed table), the developed cells (\<open>Univar\<close>), the interpolated populations (\<open>Interp\<close>),
  the demand of every subregion in sorted order (\<open>Demand\<close>), and the demand file
  (\<open>Output\<close>). The inputs are the values \<open>main\<close> reads: the text printed by \<open>r.univar\<close>
  for each development raster, the two population tables, the simulation times and the
  methods. The result is the text of the demand file with the warnings printed on the way.
\<close>

record run_input =
  univar_outputs :: "string list"
  observed :: pop_table
  projected :: pop_table
  simulation_times :: "real list"
  methods :: "regression_method list"

text \<open>Lines 141--183 over the sorted subregion identifiers.\<close>

fun demand_subregions :: "regression_method list \<Rightarrow> pop_table \<Rightarrow> (string \<times> int list) list \<Rightarrow>
    (string \<times> real list) list \<Rightarrow> string list \<Rightarrow> ((string \<times> real list) list \<times> warning list) result" where
  "demand_subregions ms obs tbl popsim [] = Inr ([], [])"
| "demand_subregions ms obs tbl popsim (sid # sids) =
     res_bind (pop_column obs sid) (\<lambda>op.
     res_bind (subregion_demand sid ms op (the (map_of tbl sid)) (the (map_of popsim sid))) (\<lambda>(d, ws).
     res_bind (demand_subregions ms obs tbl popsim sids) (\<lambda>(dm, ws'). Inr ((sid, d) # dm, ws @ ws'))))"

definition demand_main :: "run_input \<Rightarrow> (string \<times> warning list) result" where
  "demand_main inp =
     (if length (time_column (observed inp)) = 1 then Inl UnsizedObserved
      else if length (univar_outputs inp) \<noteq> length (time_column (observed inp)) then Inl DevelopmentCountMismatch
      else res_bind (gather_developed (univar_outputs inp)) (\<lambda>(tbl, ids).
           res_bind (interp_subregions (simulation_times inp) (observed inp) (projected inp) (map fst tbl)) (\<lambda>popsim.
           res_bind (demand_subregions (methods inp) (observed inp) tbl popsim ids) (\<lambda>(dm, ws).
           res_bind (write_demand (simulation_times inp) (map fst (observed inp)) ids dm) (\<lambda>txt.
             Inr (txt, ws))))))"

section \<open>Lemmas\<close>

lemma demand_subregions_vectors:
  assumes "demand_subregions ms obs tbl popsim sids = Inr (dm, ws)"
    and "\<forall>sid\<in>set sids. \<exists>v. map_of popsim sid = Some v \<and> length v = k"
  shows "map fst dm = sids \<and> (\<forall>(sid, d)\<in>set dm. length d = k - 1 \<and> (\<forall>x\<in>set d. 0 \<le> x))"
  using assms
proof (induction sids arbitrary: dm ws)
  case (Cons sid sids)
  from Cons.prems(1) obtain op d w dm' ws' where
    sd: "subregion_demand sid ms op (the (map_of tbl sid)) (the (map_of popsim sid)) = Inr (d, w)"
    and rest: "demand_subregions ms obs tbl popsim sids = Inr (dm', ws')" and dm: "dm = (sid, d) # dm'"
    by (auto simp: res_bind_eq_Inr split: prod.splits)
  obtain v where v: "map_of popsim sid = Some v" "length v = k" using Cons.prems(2) by auto
  have "length d = k - 1 \<and> (\<forall>x\<in>set d. 0 \<le> x)" using subregion_demand_vector [OF sd] v by simp
  with Cons.IH [OF rest] Cons.prems(2) dm show ?case by auto
qed simp

lemma interp_subregions_lookup:
  assumes "interp_subregions sim obs proj sids = Inr popsim" and "sid \<in> set sids"
  shows "\<exists>v. map_of popsim sid = Some v \<and> length v = length sim"
proof -
  from interp_subregions_correct [OF assms(1)]
  have keys: "map fst popsim = sids" and lens: "\<forall>(sid, v)\<in>set popsim. length v = length sim" by simp_all
  from keys assms(2) obtain v where "map_of popsim sid = Some v"
    by (metis map_of_eq_None_iff not_Some_eq list.set_map)
  with lens show ?thesis by (auto dest: map_of_SomeD)
qed

lemma vectors_cover_of:
  assumes "map fst dm = ids" and "\<forall>(sid, d)\<in>set dm. length d = k"
  shows "vectors_cover ids dm k"
  unfolding vectors_cover_def
proof
  fix sub assume "sub \<in> set ids"
  with assms(1) obtain d where "map_of dm sub = Some d"
    by (metis map_of_eq_None_iff not_Some_eq list.set_map)
  with assms(2) show "\<exists>d. map_of dm sub = Some d \<and> k \<le> length d" by (auto dest: map_of_SomeD)
qed


lemma demand_subregions_succeeds:
  assumes "\<forall>sid\<in>set sids. \<exists>op d ws. pop_column obs sid = Inr op \<and>
             subregion_demand sid ms op (the (map_of tbl sid)) (the (map_of popsim sid)) = Inr (d, ws)"
  shows "\<exists>dm ws. demand_subregions ms obs tbl popsim sids = Inr (dm, ws)"
  using assms
proof (induction sids)
  case (Cons sid sids)
  then obtain op d ws where "pop_column obs sid = Inr op"
    "subregion_demand sid ms op (the (map_of tbl sid)) (the (map_of popsim sid)) = Inr (d, ws)" by auto
  moreover from Cons obtain dm ws' where "demand_subregions ms obs tbl popsim sids = Inr (dm, ws')" by auto
  ultimately show ?case by simp
qed simp


text \<open>\<open>main()\<close> returns when each of its stages does.\<close>

lemma demand_main_stages:
  assumes "length (time_column (observed inp)) \<noteq> 1"
    and "length (univar_outputs inp) = length (time_column (observed inp))"
    and "gather_developed (univar_outputs inp) = Inr (tbl, ids)"
    and "interp_subregions (simulation_times inp) (observed inp) (projected inp) (map fst tbl) = Inr popsim"
    and "demand_subregions (methods inp) (observed inp) tbl popsim ids = Inr (dm, ws)"
    and "write_demand (simulation_times inp) (map fst (observed inp)) ids dm = Inr txt"
  shows "demand_main inp = Inr (txt, ws)"
  using assms by (simp add: demand_main_def)

text \<open>The writer does not raise on the demand the subregion loop computed, when every
  subregion has an interpolated series and the header has distinct names, at least two.\<close>

lemma demand_write_succeeds:
  assumes "demand_subregions ms obs tbl popsim ids = Inr (dm, ws)"
    and "\<forall>sid\<in>set ids. \<exists>v. map_of popsim sid = Some v \<and> length v = length sim"
    and "distinct header" and "2 \<le> length header"
  shows "\<exists>txt. write_demand sim header ids dm = Inr txt"
proof -
  from demand_subregions_vectors [OF assms(1,2)]
  have "map fst dm = ids" and "\<forall>(sid, d)\<in>set dm. length d = length sim - 1" by auto
  then have "vectors_cover ids dm (length sim - 1)" by (rule vectors_cover_of)
  from write_demand_text [OF this assms(3,4)] show ?thesis by blast
qed

end
