(* ===== verification/Plot.thy ===== *)
theory Plot
  imports Pipeline
begin

text \<open>
  \<open>main()\<close> of r.futures.demand.py with the diagnostic plot (lines 136--139, 185--212,
  213--215), which \<open>Pipeline\<close> leaves out. When the option \<open>plot\<close> is a non-empty string, a
  figure of \<open>n_plots \<times> n_plots\<close> panels is created, \<open>n_plots = ceil(sqrt(len(subregionIds)))\<close>;
  the \<open>i\<close>-th subregion of the sorted list draws its panel \<open>i\<close> right after its demand is
  computed: the observed points, the fitted curve of the selected method over ten
  populations from the smallest observed to the largest interpolated one, and the
  predicted points; the figure is saved at the end. The calls to matplotlib are values
  of \<open>plot_call\<close>, printed warnings and drawing calls one sequence of events in the order
  the loop makes them. Floats in labels and titles are kept as numbers: their formatting
  (\<open>'{:.3f}'\<close>, \<open>str\<close>) is not modelled.
\<close>

section \<open>numpy helpers\<close>

text \<open>\<open>np.min\<close> and \<open>np.max\<close>: a reduction over an empty array raises ValueError.\<close>

definition np_min :: "real list \<Rightarrow> real result" where
  "np_min xs = (if xs = [] then Inl EmptyReduction else Inr (Min (set xs)))"

definition np_max :: "real list \<Rightarrow> real result" where
  "np_max xs = (if xs = [] then Inl EmptyReduction else Inr (Max (set xs)))"

text \<open>\<open>np.linspace(start, stop, num)\<close> for \<open>num \<ge> 2\<close> (line 196 has \<open>num = 10\<close>): the
  points \<open>k * step + start\<close> with \<open>step = (stop - start) / (num - 1)\<close>, the last point set
  to \<open>stop\<close> exactly.\<close>

definition np_linspace :: "real \<Rightarrow> real \<Rightarrow> nat \<Rightarrow> real list" where
  "np_linspace start stop num =
     map (\<lambda>k. real k * ((stop - start) / real (num - 1)) + start) [0..<num - 1] @ [stop]"

text \<open>\<open>np.ceil(np.sqrt(n))\<close> of line 138 on the number of subregions: the least \<open>k\<close> with
  \<open>n \<le> k * k\<close>, found by counting up from \<open>k\<close>.\<close>

function ceil_sqrt_search :: "nat \<Rightarrow> nat \<Rightarrow> nat" where
  "ceil_sqrt_search n k = (if n \<le> k * k then k else ceil_sqrt_search n (Suc k))"
  by pat_completeness auto
termination
proof (relation "measure (\<lambda>(n, k). n - k)")
  fix n k :: nat
  assume "\<not> n \<le> k * k"
  then have "k < n" by (cases k) auto
  then show "((n, Suc k), n, k) \<in> measure (\<lambda>(n, k). n - k)" by simp
qed simp

declare ceil_sqrt_search.simps [simp del]

definition n_plots_of :: "nat \<Rightarrow> nat" where
  "n_plots_of n = ceil_sqrt_search n 0"

section \<open>matplotlib calls\<close>

text \<open>The legend of the fitted curve, lines 201--207: \<open>(c, m)\<close> for the linear and the
  logarithmic curves, \<open>(exp c, m)\<close> for the exponential one.\<close>

datatype curve_label = LinearLabel real real | LogLabel real real | ExpLabel real real

datatype plot_call =
    Figure real                             \<comment> \<open>\<open>plt.figure(figsize=(s, s))\<close>, line 139\<close>
  | AddSubplot nat nat nat                  \<comment> \<open>\<open>fig.add_subplot(rows, cols, index)\<close>, line 187\<close>
  | SetTitle string fl                      \<comment> \<open>\<open>subregionId + ', RMSE: ' + str(rmse)\<close>, line 188\<close>
  | SetXLabel string | SetYLabel string     \<comment> \<open>lines 189--190\<close>
  | PlotMarkers "real list" "real list"     \<comment> \<open>known points, line 194\<close>
  | PlotCurve "real list" "real list" curve_label  \<comment> \<open>the fitted curve, line 208\<close>
  | PlotHollow "real list" "real list"      \<comment> \<open>predicted points, line 209\<close>
  | Legend                                  \<comment> \<open>line 210\<close>
  | RotateTicks nat                         \<comment> \<open>lines 211--212\<close>
  | TightLayout                             \<comment> \<open>line 214\<close>
  | SaveFig string                          \<comment> \<open>line 215\<close>

datatype demand_event = Warn warning | Draw plot_call

fun warnings_of :: "demand_event list \<Rightarrow> warning list" where
  "warnings_of [] = []"
| "warnings_of (Warn w # es) = w # warnings_of es"
| "warnings_of (Draw c # es) = warnings_of es"

section \<open>The drawing\<close>

text \<open>The curve of the selected method through the points \<open>xs\<close>, lines 198--207.\<close>

definition curve :: "regression_method \<Rightarrow> real \<Rightarrow> real \<Rightarrow> real list \<Rightarrow> real list \<times> curve_label" where
  "curve meth m c xs =
     (case meth of
        Linear \<Rightarrow> (map (\<lambda>x. x * m + c) xs, LinearLabel c m)
      | Logarithmic \<Rightarrow> (map (\<lambda>x. ln x * m + c) xs, LogLabel c m)
      | Exponential \<Rightarrow> (map (\<lambda>x. exp (x * m + c)) xs, ExpLabel (exp c) m))"

text \<open>Lines 185--212 for panel \<open>i\<close> of the subregion \<open>sid\<close>: its observed population \<open>obs\<close>,
  developed cells \<open>dev\<close>, interpolated populations \<open>sim\<close>, the state the loop over the
  methods left, and the selected method. \<open>add_subplot\<close> raises ValueError for an index
  outside \<open>1..rows*cols\<close>; line 198 rebinds \<open>m, c\<close> to the coefficients of the selected
  method.\<close>

definition draw_subregion :: "nat \<Rightarrow> nat \<Rightarrow> string \<Rightarrow> real list \<Rightarrow> int list \<Rightarrow> real list \<Rightarrow>
    reg_state \<Rightarrow> regression_method \<Rightarrow> plot_call list result" where
  "draw_subregion n i sid obs dev sim st meth =
     (if i < 1 \<or> n * n < i then Inl SubplotIndex
      else res_bind (np_min obs) (\<lambda>lo.
           res_bind (np_max sim) (\<lambda>hi.
             (let x_pred = np_linspace lo hi 10;
                  (m, c) = the (map_of (coeff_d st) meth);
                  (line, label) = curve meth m c x_pred
              in Inr [AddSubplot n n i, SetTitle (sid @ '', RMSE: '') (the (map_of (rmse_d st) meth)),
                      SetXLabel ''population'', SetYLabel ''developed cells'',
                      PlotMarkers obs (map real_of_int dev), PlotCurve x_pred line label,
                      PlotHollow sim (the (map_of (predicted_d st) meth)), Legend, RotateTicks 30]))))"

text \<open>The loop of line 141 with the plot: \<open>i\<close> counts the subregions done (line 142), the
  demand and its warnings are those of \<open>Demand\<close> (lines 143--183), then the panel is
  drawn when \<open>plot\<close> is set.\<close>

fun plot_loop :: "string \<Rightarrow> nat \<Rightarrow> nat \<Rightarrow> regression_method list \<Rightarrow> pop_table \<Rightarrow> (string \<times> int list) list \<Rightarrow>
    (string \<times> real list) list \<Rightarrow> string list \<Rightarrow> ((string \<times> real list) list \<times> demand_event list) result" where
  "plot_loop plot n i ms obs tbl popsim [] = Inr ([], [])"
| "plot_loop plot n i ms obs tbl popsim (sid # sids) =
     res_bind (pop_column obs sid) (\<lambda>op.
     res_bind (select_method sid ms op (the (map_of tbl sid)) (the (map_of popsim sid))) (\<lambda>(st, meth).
       (let (d, ws) = demand_of sid st meth
        in res_bind (if plot \<noteq> [] then draw_subregion n (Suc i) sid op (the (map_of tbl sid)) (the (map_of popsim sid)) st meth
                     else Inr []) (\<lambda>calls.
           res_bind (plot_loop plot n (Suc i) ms obs tbl popsim sids) (\<lambda>(dm, evs).
             Inr ((sid, d) # dm, map Warn ws @ map Draw calls @ evs))))))"

text \<open>\<open>os.path.splitext(fname)[1][1:]\<close>: the extension of the last component of the path,
  without its dot; dots that only lead the name start no extension.\<close>

definition py_ext :: "string \<Rightarrow> string" where
  "py_ext path =
     (let b = rev (takeWhile (\<lambda>c. c \<noteq> CHR ''/'') (rev path));
          e = rev (takeWhile (\<lambda>c. c \<noteq> CHR ''.'') (rev b));
          pre = take (length b - length e - 1) b
      in if CHR ''.'' \<in> set b \<and> list_ex (\<lambda>c. c \<noteq> CHR ''.'') pre then e else [])"

text \<open>\<open>str.lower\<close> on ASCII text.\<close>

definition py_lower :: "string \<Rightarrow> string" where
  "py_lower s = map (\<lambda>c. if 65 \<le> (of_char c :: nat) \<and> (of_char c :: nat) \<le> 90 then char_of (of_char c + (32 :: nat)) else c) s"

text \<open>The format \<open>fig.savefig(plot)\<close> (line 215) writes: matplotlib's \<open>print_figure\<close> takes the
  extension of the file name in lower case, and its default \<open>png\<close> when there is none.\<close>

definition savefig_format :: "string \<Rightarrow> string" where
  "savefig_format plot = (let e = py_ext plot in if e = [] then ''png'' else py_lower e)"

text \<open>\<open>main()\<close> (lines 88--236) with the plot option \<open>plot\<close>: as \<open>demand_main\<close>, with the
  figure created before the loop (lines 136--139) and laid out and saved after it
  (lines 213--215), before the demand file is written. \<open>fmts\<close> are the formats the canvas
  of the installed matplotlib can write (its \<open>get_supported_filetypes()\<close>, which depend on
  the backend and on Pillow); \<open>savefig\<close> raises ValueError for any other.\<close>

definition demand_run :: "run_input \<Rightarrow> string \<Rightarrow> string list \<Rightarrow> (string \<times> demand_event list) result" where
  "demand_run inp plot fmts =
     (if length (time_column (observed inp)) = 1 then Inl UnsizedObserved
      else if length (univar_outputs inp) \<noteq> length (time_column (observed inp)) then Inl DevelopmentCountMismatch
      else res_bind (gather_developed (univar_outputs inp)) (\<lambda>(tbl, ids).
           res_bind (interp_subregions (simulation_times inp) (observed inp) (projected inp) (map fst tbl)) (\<lambda>popsim.
             (let n = n_plots_of (length ids)
              in res_bind (plot_loop plot n 0 (methods inp) (observed inp) tbl popsim ids) (\<lambda>(dm, evs).
                 if plot \<noteq> [] \<and> savefig_format plot \<notin> set fmts then Inl (UnsupportedFormat (savefig_format plot))
                 else res_bind (write_demand (simulation_times inp) (map fst (observed inp)) ids dm) (\<lambda>txt.
                   Inr (txt, if plot \<noteq> [] then Draw (Figure (5 * real n)) # evs @ [Draw TightLayout, Draw (SaveFig plot)]
                             else evs)))))))"

text \<open>The panels a sequence of events adds, as \<open>(rows, columns, index)\<close>.\<close>

fun panels :: "demand_event list \<Rightarrow> (nat \<times> nat \<times> nat) list" where
  "panels [] = []"
| "panels (Draw (AddSubplot r c j) # es) = (r, c, j) # panels es"
| "panels (e # es) = panels es"

section \<open>Lemmas\<close>

subsection \<open>The grid\<close>

lemma ceil_sqrt_search_least:
  "k = 0 \<or> (k - 1) * (k - 1) < n \<Longrightarrow>
   n \<le> ceil_sqrt_search n k * ceil_sqrt_search n k \<and>
   (ceil_sqrt_search n k = 0 \<or> (ceil_sqrt_search n k - 1) * (ceil_sqrt_search n k - 1) < n)"
proof (induction n k rule: ceil_sqrt_search.induct)
  case (1 n k)
  show ?case
  proof (cases "n \<le> k * k")
    case True
    then have "ceil_sqrt_search n k = k" by (subst ceil_sqrt_search.simps) simp
    then show ?thesis using "1.prems" True by simp
  next
    case False
    then have "Suc k = 0 \<or> (Suc k - 1) * (Suc k - 1) < n" by simp
    moreover have "ceil_sqrt_search n k = ceil_sqrt_search n (Suc k)"
      using False by (subst ceil_sqrt_search.simps) simp
    ultimately show ?thesis using "1.IH" [OF False] by simp
  qed
qed

lemma n_plots_of_least:
  "n \<le> n_plots_of n * n_plots_of n \<and> (n_plots_of n = 0 \<or> (n_plots_of n - 1) * (n_plots_of n - 1) < n)"
  unfolding n_plots_of_def by (rule ceil_sqrt_search_least) simp

text \<open>The executable search computes \<open>np.ceil(np.sqrt(n))\<close> of line 138.\<close>

lemma n_plots_of_ceil_sqrt: "n_plots_of n = nat \<lceil>sqrt (real n)\<rceil>"
proof -
  define k where "k = n_plots_of n"
  have le: "n \<le> k * k" and lt: "k = 0 \<or> (k - 1) * (k - 1) < n" using n_plots_of_least unfolding k_def by simp_all
  have up: "sqrt (real n) \<le> real k"
  proof (rule real_le_lsqrt)
    have "real n \<le> real k * real k" using le by (metis of_nat_le_iff of_nat_mult)
    then show "real n \<le> (real k)\<^sup>2" by (simp add: power2_eq_square)
  qed simp
  have low: "real k - 1 < sqrt (real n)"
  proof (cases "k = 0")
    case True
    have "0 \<le> sqrt (real n)" by simp
    with True show ?thesis by linarith
  next
    case False
    with lt have "real (k - 1) * real (k - 1) < real n" by (metis of_nat_less_iff of_nat_mult)
    then have "real (k - 1) < sqrt (real n)" by (simp add: real_less_rsqrt power2_eq_square)
    with False show ?thesis by (simp add: of_nat_diff)
  qed
  have "\<lceil>sqrt (real n)\<rceil> = int k"
    by (rule ceiling_unique) (use up low in simp_all)
  then show ?thesis unfolding k_def by simp
qed

subsection \<open>numpy helpers\<close>

lemma np_min_Inr: "np_min xs = Inr lo \<longleftrightarrow> xs \<noteq> [] \<and> lo = Min (set xs)"
  by (auto simp: np_min_def)

lemma np_max_Inr: "np_max xs = Inr hi \<longleftrightarrow> xs \<noteq> [] \<and> hi = Max (set xs)"
  by (auto simp: np_max_def)

lemma length_np_linspace [simp]: "1 \<le> num \<Longrightarrow> length (np_linspace start stop num) = num"
  by (simp add: np_linspace_def)

text \<open>Every point of \<open>np.linspace\<close> lies between its two ends.\<close>

lemma np_linspace_between:
  assumes "2 \<le> num" and "x \<in> set (np_linspace start stop num)"
  shows "min start stop \<le> x \<and> x \<le> max start stop"
proof (cases "x = stop")
  case False
  define D where "D = real (num - 1)"
  have D: "0 < D" using assms(1) by (simp add: D_def)
  from False assms obtain k where k: "k < num - 1" and x: "x = real k * ((stop - start) / D) + start"
    by (auto simp: np_linspace_def D_def)
  define t where "t = real k / D"
  have t: "0 \<le> t" "t \<le> 1" using k D by (simp_all add: t_def D_def)
  have "x = (1 - t) * start + t * stop" unfolding x t_def using D by (simp add: field_simps)
  moreover have "min start stop \<le> (1 - t) * start + t * stop \<and> (1 - t) * start + t * stop \<le> max start stop"
  proof
    have "(1 - t) * min start stop \<le> (1 - t) * start" "t * min start stop \<le> t * stop"
      using t by (simp_all add: mult_left_mono)
    then show "min start stop \<le> (1 - t) * start + t * stop" by (simp add: algebra_simps)
    have "(1 - t) * start \<le> (1 - t) * max start stop" "t * stop \<le> t * max start stop"
      using t by (simp_all add: mult_left_mono)
    then show "(1 - t) * start + t * stop \<le> max start stop" by (simp add: algebra_simps)
  qed
  ultimately show ?thesis by simp
qed simp

subsection \<open>Warnings and drawing calls\<close>

lemma warnings_of_append [simp]: "warnings_of (es @ es') = warnings_of es @ warnings_of es'"
  by (induction es rule: warnings_of.induct) simp_all

lemma warnings_of_Warn [simp]: "warnings_of (map Warn ws) = ws"
  by (induction ws) simp_all

lemma warnings_of_Draw [simp]: "warnings_of (map Draw cs) = []"
  by (induction cs) simp_all

subsection \<open>The loop with and without the plot\<close>

lemma plot_loop_no_plot:
  "plot_loop [] n i ms obs tbl popsim sids =
   map_sum id (\<lambda>(dm, ws). (dm, map Warn ws)) (demand_subregions ms obs tbl popsim sids)"
proof (induction sids arbitrary: i)
  case (Cons sid sids)
  then show ?case
    by (auto simp: res_bind_def subregion_demand_def split: sum.split prod.split)
qed simp

lemma plot_loop_ConsE:
  assumes "plot_loop plot n i ms obs tbl popsim (sid # sids) = Inr (dm, evs)"
  obtains op st meth calls dm' evs' where "pop_column obs sid = Inr op"
    "select_method sid ms op (the (map_of tbl sid)) (the (map_of popsim sid)) = Inr (st, meth)"
    "(if plot \<noteq> [] then draw_subregion n (Suc i) sid op (the (map_of tbl sid)) (the (map_of popsim sid)) st meth
      else Inr []) = Inr calls"
    "plot_loop plot n (Suc i) ms obs tbl popsim sids = Inr (dm', evs')"
    "dm = (sid, fst (demand_of sid st meth)) # dm'"
    "evs = map Warn (snd (demand_of sid st meth)) @ map Draw calls @ evs'"
proof -
  obtain op where p: "pop_column obs sid = Inr op"
    using assms by (cases "pop_column obs sid") (simp_all add: res_bind_def)
  obtain st meth where s: "select_method sid ms op (the (map_of tbl sid)) (the (map_of popsim sid)) = Inr (st, meth)"
    using assms p by (cases "select_method sid ms op (the (map_of tbl sid)) (the (map_of popsim sid))")
      (auto simp: res_bind_def)
  obtain d ws where dw: "demand_of sid st meth = (d, ws)" by (cases "demand_of sid st meth")
  define dr where "dr = (if plot \<noteq> [] then draw_subregion n (Suc i) sid op (the (map_of tbl sid)) (the (map_of popsim sid)) st meth
      else Inr [])"
  have a: "res_bind dr (\<lambda>calls. res_bind (plot_loop plot n (Suc i) ms obs tbl popsim sids) (\<lambda>(dm, evs).
             Inr ((sid, d) # dm, map Warn ws @ map Draw calls @ evs))) = Inr (dm, evs)"
    using assms p s dw by (simp add: dr_def)
  obtain calls where c: "dr = Inr calls" using a by (cases dr) (simp_all add: res_bind_def)
  obtain dm' evs' where r: "plot_loop plot n (Suc i) ms obs tbl popsim sids = Inr (dm', evs')"
    using a c by (cases "plot_loop plot n (Suc i) ms obs tbl popsim sids") (auto simp: res_bind_def)
  show thesis using that [OF p s c [unfolded dr_def] r] a c r dw by (simp add: res_bind_def)
qed

lemma plot_loop_demand:
  "plot_loop plot n i ms obs tbl popsim sids = Inr (dm, evs) \<Longrightarrow>
   demand_subregions ms obs tbl popsim sids = Inr (dm, warnings_of evs)"
proof (induction sids arbitrary: i dm evs)
  case (Cons sid sids)
  from Cons.prems obtain op st meth calls dm' evs' where
    p: "pop_column obs sid = Inr op"
    and s: "select_method sid ms op (the (map_of tbl sid)) (the (map_of popsim sid)) = Inr (st, meth)"
    and r: "plot_loop plot n (Suc i) ms obs tbl popsim sids = Inr (dm', evs')"
    and dm: "dm = (sid, fst (demand_of sid st meth)) # dm'"
    and evs: "evs = map Warn (snd (demand_of sid st meth)) @ map Draw calls @ evs'"
    by (rule plot_loop_ConsE)
  show ?case using Cons.IH [OF r] p s dm evs by (simp add: subregion_demand_def split: prod.split)
qed simp

subsection \<open>\<open>main()\<close> with the plot\<close>

lemma demand_run_InrE:
  assumes "demand_run inp plot fmts = Inr (txt, evs)"
  obtains tbl ids popsim dm evs0 where
    "length (time_column (observed inp)) \<noteq> 1"
    "length (univar_outputs inp) = length (time_column (observed inp))"
    "gather_developed (univar_outputs inp) = Inr (tbl, ids)"
    "interp_subregions (simulation_times inp) (observed inp) (projected inp) (map fst tbl) = Inr popsim"
    "plot_loop plot (n_plots_of (length ids)) 0 (methods inp) (observed inp) tbl popsim ids = Inr (dm, evs0)"
    "write_demand (simulation_times inp) (map fst (observed inp)) ids dm = Inr txt"
    "evs = (if plot \<noteq> [] then Draw (Figure (5 * real (n_plots_of (length ids)))) # evs0 @ [Draw TightLayout, Draw (SaveFig plot)]
            else evs0)"
proof -
  have one: "length (time_column (observed inp)) \<noteq> 1"
    using assms by (auto simp: demand_run_def split: if_splits)
  have cnt: "length (univar_outputs inp) = length (time_column (observed inp))"
    using assms one by (simp add: demand_run_def split: if_splits)
  obtain tbl ids where g: "gather_developed (univar_outputs inp) = Inr (tbl, ids)"
    using assms one cnt by (cases "gather_developed (univar_outputs inp)") (auto simp: demand_run_def res_bind_def)
  obtain popsim where i: "interp_subregions (simulation_times inp) (observed inp) (projected inp) (map fst tbl) = Inr popsim"
    using assms one cnt g
    by (cases "interp_subregions (simulation_times inp) (observed inp) (projected inp) (map fst tbl)")
       (auto simp: demand_run_def res_bind_def)
  obtain dm evs0 where l: "plot_loop plot (n_plots_of (length ids)) 0 (methods inp) (observed inp) tbl popsim ids = Inr (dm, evs0)"
    using assms one cnt g i
    by (cases "plot_loop plot (n_plots_of (length ids)) 0 (methods inp) (observed inp) tbl popsim ids")
       (auto simp: demand_run_def res_bind_def)
  have "(if plot \<noteq> [] \<and> savefig_format plot \<notin> set fmts then Inl (UnsupportedFormat (savefig_format plot))
         else res_bind (write_demand (simulation_times inp) (map fst (observed inp)) ids dm) (\<lambda>txt.
          Inr (txt, if plot \<noteq> [] then Draw (Figure (5 * real (n_plots_of (length ids)))) # evs0 @ [Draw TightLayout, Draw (SaveFig plot)]
                    else evs0))) = Inr (txt, evs)"
    using assms one cnt g i l by (simp add: demand_run_def)
  then show thesis using that [OF one cnt g i l] by (auto simp: res_bind_eq_Inr split: if_splits)
qed

text \<open>Without the option \<open>plot\<close>, \<open>main()\<close> is the model of \<open>Pipeline\<close>.\<close>

lemma demand_run_no_plot:
  "demand_run inp [] fmts = map_sum id (\<lambda>(txt, ws). (txt, map Warn ws)) (demand_main inp)"
  by (auto simp: demand_run_def demand_main_def plot_loop_no_plot res_bind_def split: sum.split prod.split)

text \<open>C9: drawing changes neither the demand file nor the warnings: a run with the plot
  that returns writes the file and prints the warnings of the run without it.\<close>

theorem demand_run_plot_refines:
  assumes "demand_run inp plot fmts = Inr (txt, evs)"
  shows "demand_main inp = Inr (txt, warnings_of evs)"
proof -
  obtain tbl ids popsim dm evs0 where one: "length (time_column (observed inp)) \<noteq> 1"
    and cnt: "length (univar_outputs inp) = length (time_column (observed inp))"
    and g: "gather_developed (univar_outputs inp) = Inr (tbl, ids)"
    and i: "interp_subregions (simulation_times inp) (observed inp) (projected inp) (map fst tbl) = Inr popsim"
    and l: "plot_loop plot (n_plots_of (length ids)) 0 (methods inp) (observed inp) tbl popsim ids = Inr (dm, evs0)"
    and w: "write_demand (simulation_times inp) (map fst (observed inp)) ids dm = Inr txt"
    and e: "evs = (if plot \<noteq> [] then Draw (Figure (5 * real (n_plots_of (length ids)))) # evs0 @ [Draw TightLayout, Draw (SaveFig plot)]
            else evs0)"
    using assms by (rule demand_run_InrE)
  have "warnings_of evs = warnings_of evs0" using e by simp
  then show ?thesis using demand_main_stages [OF one cnt g i plot_loop_demand [OF l] w] by simp
qed

subsection \<open>Panels\<close>

lemma panels_append [simp]: "panels (es @ es') = panels es @ panels es'"
  by (induction es rule: panels.induct) simp_all

lemma panels_Warn [simp]: "panels (map Warn ws) = []"
  by (induction ws) simp_all

lemma draw_subregion_panels:
  "draw_subregion n i sid obs dev sim st meth = Inr calls \<Longrightarrow> panels (map Draw calls) = [(n, n, i)]"
  by (auto simp: draw_subregion_def res_bind_eq_Inr Let_def case_prod_beta split: if_splits)

lemma plot_loop_panels:
  "plot_loop plot n i ms obs tbl popsim sids = Inr (dm, evs) \<Longrightarrow>
   panels evs = (if plot \<noteq> [] then map (\<lambda>j. (n, n, j)) [Suc i..<Suc (i + length sids)] else [])"
proof (induction sids arbitrary: i dm evs)
  case (Cons sid sids)
  from Cons.prems obtain op st meth calls dm' evs' where
    c: "(if plot \<noteq> [] then draw_subregion n (Suc i) sid op (the (map_of tbl sid)) (the (map_of popsim sid)) st meth
      else Inr []) = Inr calls"
    and r: "plot_loop plot n (Suc i) ms obs tbl popsim sids = Inr (dm', evs')"
    and evs: "evs = map Warn (snd (demand_of sid st meth)) @ map Draw calls @ evs'"
    by (rule plot_loop_ConsE)
  have "panels (map Draw calls) = (if plot \<noteq> [] then [(n, n, Suc i)] else [])"
    using c draw_subregion_panels by (auto split: if_splits)
  then show ?case using Cons.IH [OF r] evs by (simp add: upt_rec)
qed simp

text \<open>C10: with the plot, the subregions get the panels \<open>1, 2, \<dots>\<close> of the grid in their
  sorted order, one each, and the \<open>n_plots \<times> n_plots\<close> grid of line 138 holds them all, so
  every index \<open>add_subplot\<close> receives at line 187 is in range.\<close>

theorem demand_run_panels:
  assumes "demand_run inp plot fmts = Inr (txt, evs)" and "plot \<noteq> []"
    and "gather_developed (univar_outputs inp) = Inr (tbl, ids)"
  shows "panels evs = map (\<lambda>j. (n_plots_of (length ids), n_plots_of (length ids), j)) [1..<Suc (length ids)] \<and>
         length ids \<le> n_plots_of (length ids) * n_plots_of (length ids)"
proof -
  obtain tbl' ids' popsim dm evs0 where g: "gather_developed (univar_outputs inp) = Inr (tbl', ids')"
    and l: "plot_loop plot (n_plots_of (length ids')) 0 (methods inp) (observed inp) tbl' popsim ids' = Inr (dm, evs0)"
    and e: "evs = (if plot \<noteq> [] then Draw (Figure (5 * real (n_plots_of (length ids')))) # evs0 @ [Draw TightLayout, Draw (SaveFig plot)]
            else evs0)"
    using assms(1) by (rule demand_run_InrE)
  have "ids' = ids" using g assms(3) by simp
  then show ?thesis using plot_loop_panels [OF l] e assms(2) n_plots_of_least by simp
qed

subsection \<open>The fitted curve\<close>

lemma plot_loop_draws:
  "plot_loop plot n i ms obs tbl popsim sids = Inr (dm, evs) \<Longrightarrow> Draw e \<in> set evs \<Longrightarrow>
   \<exists>sid\<in>set sids. \<exists>op st meth calls j. pop_column obs sid = Inr op \<and>
     select_method sid ms op (the (map_of tbl sid)) (the (map_of popsim sid)) = Inr (st, meth) \<and>
     draw_subregion n j sid op (the (map_of tbl sid)) (the (map_of popsim sid)) st meth = Inr calls \<and> e \<in> set calls"
proof (induction sids arbitrary: i dm evs)
  case (Cons sid sids)
  from Cons.prems(1) obtain op st meth calls dm' evs' where
    p: "pop_column obs sid = Inr op"
    and s: "select_method sid ms op (the (map_of tbl sid)) (the (map_of popsim sid)) = Inr (st, meth)"
    and c: "(if plot \<noteq> [] then draw_subregion n (Suc i) sid op (the (map_of tbl sid)) (the (map_of popsim sid)) st meth
      else Inr []) = Inr calls"
    and r: "plot_loop plot n (Suc i) ms obs tbl popsim sids = Inr (dm', evs')"
    and evs: "evs = map Warn (snd (demand_of sid st meth)) @ map Draw calls @ evs'"
    by (rule plot_loop_ConsE)
  from Cons.prems(2) evs have "e \<in> set calls \<or> Draw e \<in> set evs'" by auto
  then show ?case
  proof
    assume "e \<in> set calls"
    with c have "draw_subregion n (Suc i) sid op (the (map_of tbl sid)) (the (map_of popsim sid)) st meth = Inr calls"
      by (auto split: if_splits)
    with p s \<open>e \<in> set calls\<close> show ?case by auto
  next
    assume "Draw e \<in> set evs'"
    from Cons.IH [OF r this] show ?case by auto
  qed
qed simp

lemma draw_subregion_curve:
  assumes "draw_subregion n i sid obs dev sim st meth = Inr calls" and "PlotCurve xs ys lbl \<in> set calls"
  shows "obs \<noteq> [] \<and> sim \<noteq> [] \<and> xs = np_linspace (Min (set obs)) (Max (set sim)) 10"
  using assms
  by (auto simp: draw_subregion_def res_bind_eq_Inr np_min_Inr np_max_Inr Let_def case_prod_beta curve_def
           split: regression_method.splits if_splits)

lemma np_linspace_ends:
  "2 \<le> num \<Longrightarrow> length (np_linspace a b num) = num \<and> hd (np_linspace a b num) = a \<and> last (np_linspace a b num) = b"
  by (cases num) (auto simp: np_linspace_def upt_conv_Cons)

lemma interp_subregions_single:
  assumes "interp_subregions sim obs proj sids = Inr popsim" and "sid \<in> set sids"
  shows "interp_subregions sim obs proj [sid] = Inr [(sid, the (map_of popsim sid))]"
  using assms
proof (induction sids arbitrary: popsim)
  case (Cons s sids)
  from Cons.prems(1) obtain fo fp v rest where "pop_column obs s = Inr fo" "pop_column proj s = Inr fp"
    "np_interp sim (time_column obs @ time_column proj) (fo @ fp) = Inr v"
    and r: "interp_subregions sim obs proj sids = Inr rest" and ps: "popsim = (s, v) # rest"
    by (rule interp_subregions_ConsE)
  then show ?case using Cons.IH [OF r] Cons.prems(2) by (cases "sid = s") (auto simp: res_bind_def)
qed simp

text \<open>C11: each fitted curve is drawn over the ten points of \<open>np.linspace\<close> from the smallest
  observed population of its subregion to the largest population interpolated for it at
  the simulation times (lines 196--197): ten points, the two ends exactly, every point
  between them.\<close>

theorem demand_run_curve_domain:
  assumes "demand_run inp plot fmts = Inr (txt, evs)" and "Draw (PlotCurve xs ys lbl) \<in> set evs"
  shows "\<exists>sid op sim. pop_column (observed inp) sid = Inr op \<and>
           interp_subregions (simulation_times inp) (observed inp) (projected inp) [sid] = Inr [(sid, sim)] \<and>
           length xs = 10 \<and> hd xs = Min (set op) \<and> last xs = Max (set sim) \<and>
           list_all (\<lambda>x. min (Min (set op)) (Max (set sim)) \<le> x \<and> x \<le> max (Min (set op)) (Max (set sim))) xs"
proof -
  obtain tbl ids popsim dm evs0 where g: "gather_developed (univar_outputs inp) = Inr (tbl, ids)"
    and i: "interp_subregions (simulation_times inp) (observed inp) (projected inp) (map fst tbl) = Inr popsim"
    and l: "plot_loop plot (n_plots_of (length ids)) 0 (methods inp) (observed inp) tbl popsim ids = Inr (dm, evs0)"
    and e: "evs = (if plot \<noteq> [] then Draw (Figure (5 * real (n_plots_of (length ids)))) # evs0 @ [Draw TightLayout, Draw (SaveFig plot)]
            else evs0)"
    using assms(1) by (rule demand_run_InrE)
  have "Draw (PlotCurve xs ys lbl) \<in> set evs0" using assms(2) e by (auto split: if_splits)
  from plot_loop_draws [OF l this] obtain sid op st meth calls j where sid: "sid \<in> set ids"
    and p: "pop_column (observed inp) sid = Inr op"
    and d: "draw_subregion (n_plots_of (length ids)) j sid op (the (map_of tbl sid)) (the (map_of popsim sid)) st meth = Inr calls"
    and pc: "PlotCurve xs ys lbl \<in> set calls" by blast
  define sim where "sim = the (map_of popsim sid)"
  have xs: "xs = np_linspace (Min (set op)) (Max (set sim)) 10"
    using draw_subregion_curve [OF d pc] by (simp add: sim_def)
  have "sid \<in> set (map fst tbl)" using sid gather_developed_ids [OF g] by simp
  then have s: "interp_subregions (simulation_times inp) (observed inp) (projected inp) [sid] = Inr [(sid, sim)]"
    unfolding sim_def by (rule interp_subregions_single [OF i])
  have "list_all (\<lambda>x. min (Min (set op)) (Max (set sim)) \<le> x \<and> x \<le> max (Min (set op)) (Max (set sim))) xs"
    using np_linspace_between [of 10 _ "Min (set op)" "Max (set sim)"] unfolding xs list_all_iff by simp
  moreover have "length xs = 10 \<and> hd xs = Min (set op) \<and> last xs = Max (set sim)"
    using np_linspace_ends [of 10 "Min (set op)" "Max (set sim)"] unfolding xs by simp
  ultimately show ?thesis using p s by blast
qed

subsection \<open>When the plot can be drawn\<close>

lemma draw_subregion_succeeds:
  "1 \<le> i \<Longrightarrow> i \<le> n * n \<Longrightarrow> obs \<noteq> [] \<Longrightarrow> sim \<noteq> [] \<Longrightarrow>
   \<exists>calls. draw_subregion n i sid obs dev sim st meth = Inr calls"
  by (simp add: draw_subregion_def np_min_def np_max_def Let_def case_prod_beta)

lemma plot_loop_succeeds:
  assumes "demand_subregions ms obs tbl popsim sids = Inr (dm, ws)" and "i + length sids \<le> n * n"
    and "\<forall>sid\<in>set sids. (\<forall>c. pop_column obs sid = Inr c \<longrightarrow> c \<noteq> []) \<and> the (map_of popsim sid) \<noteq> []"
  shows "\<exists>evs. plot_loop plot n i ms obs tbl popsim sids = Inr (dm, evs) \<and> warnings_of evs = ws"
  using assms
proof (induction sids arbitrary: i dm ws)
  case (Cons sid sids)
  from Cons.prems(1) obtain op d w dm' ws' where
    p: "pop_column obs sid = Inr op"
    and sd: "subregion_demand sid ms op (the (map_of tbl sid)) (the (map_of popsim sid)) = Inr (d, w)"
    and rest: "demand_subregions ms obs tbl popsim sids = Inr (dm', ws')"
    and dm: "dm = (sid, d) # dm'" and ws: "ws = w @ ws'"
    by (auto simp: res_bind_eq_Inr split: prod.splits)
  from sd obtain st meth where s: "select_method sid ms op (the (map_of tbl sid)) (the (map_of popsim sid)) = Inr (st, meth)"
    and dw: "demand_of sid st meth = (d, w)"
    by (auto simp: subregion_demand_def res_bind_eq_Inr)
  have le: "Suc i + length sids \<le> n * n" using Cons.prems(2) by simp
  obtain evs' where r: "plot_loop plot n (Suc i) ms obs tbl popsim sids = Inr (dm', evs')" and we: "warnings_of evs' = ws'"
    using Cons.IH [OF rest le] Cons.prems(3) by auto
  have ne: "op \<noteq> []" "the (map_of popsim sid) \<noteq> []" using Cons.prems(3) p by auto
  show ?case
  proof (cases "plot = []")
    case True
    then show ?thesis using p s dw r we dm ws by simp
  next
    case False
    have "1 \<le> Suc i" "Suc i \<le> n * n" using Cons.prems(2) by simp_all
    then obtain calls where c: "draw_subregion n (Suc i) sid op (the (map_of tbl sid)) (the (map_of popsim sid)) st meth = Inr calls"
      using draw_subregion_succeeds [OF _ _ ne] by blast
    show ?thesis using False p s dw c r we dm ws by simp
  qed
qed simp

text \<open>After a run of \<open>main()\<close> without the plot that returns, with simulation times and
  non-empty observed columns, the loop with the plot returns the same demand.\<close>

lemma demand_main_plot_loop:
  assumes "demand_main inp = Inr (txt, ws)" and "simulation_times inp \<noteq> []"
    and "\<forall>(k, c)\<in>set (observed inp). c \<noteq> []"
  obtains tbl ids popsim dm evs0 where
    "length (time_column (observed inp)) \<noteq> 1"
    "length (univar_outputs inp) = length (time_column (observed inp))"
    "gather_developed (univar_outputs inp) = Inr (tbl, ids)"
    "interp_subregions (simulation_times inp) (observed inp) (projected inp) (map fst tbl) = Inr popsim"
    "plot_loop plot (n_plots_of (length ids)) 0 (methods inp) (observed inp) tbl popsim ids = Inr (dm, evs0)"
    "write_demand (simulation_times inp) (map fst (observed inp)) ids dm = Inr txt"
    "warnings_of evs0 = ws"
proof -
  from assms(1) obtain tbl ids popsim dm where
    one: "length (time_column (observed inp)) \<noteq> 1"
    and cnt: "length (univar_outputs inp) = length (time_column (observed inp))"
    and g: "gather_developed (univar_outputs inp) = Inr (tbl, ids)"
    and i: "interp_subregions (simulation_times inp) (observed inp) (projected inp) (map fst tbl) = Inr popsim"
    and d: "demand_subregions (methods inp) (observed inp) tbl popsim ids = Inr (dm, ws)"
    and w: "write_demand (simulation_times inp) (map fst (observed inp)) ids dm = Inr txt"
    by (auto simp: demand_main_def res_bind_eq_Inr split: if_splits prod.splits)
  have "\<forall>sid\<in>set ids. (\<forall>c. pop_column (observed inp) sid = Inr c \<longrightarrow> c \<noteq> []) \<and> the (map_of popsim sid) \<noteq> []"
  proof
    fix sid assume sid: "sid \<in> set ids"
    have "\<forall>c. pop_column (observed inp) sid = Inr c \<longrightarrow> c \<noteq> []"
      using assms(3) by (auto simp: pop_column_def split: option.splits dest: map_of_SomeD)
    moreover have "sid \<in> set (map fst tbl)" using sid gather_developed_ids [OF g] by simp
    then obtain v where "map_of popsim sid = Some v" "length v = length (simulation_times inp)"
      using interp_subregions_lookup [OF i] by blast
    then have "the (map_of popsim sid) \<noteq> []" using assms(2) by auto
    ultimately show "(\<forall>c. pop_column (observed inp) sid = Inr c \<longrightarrow> c \<noteq> []) \<and> the (map_of popsim sid) \<noteq> []" by blast
  qed
  moreover have "0 + length ids \<le> n_plots_of (length ids) * n_plots_of (length ids)" using n_plots_of_least by simp
  ultimately obtain evs0 where l: "plot_loop plot (n_plots_of (length ids)) 0 (methods inp) (observed inp) tbl popsim ids = Inr (dm, evs0)"
    and we: "warnings_of evs0 = ws"
    using plot_loop_succeeds [OF d] by blast
  show thesis by (rule that [OF one cnt g i l w we])
qed

text \<open>C12: the plot raises only on empty series or a format the installed matplotlib cannot
  write: when \<open>main()\<close> without the plot returns, the simulation times are given, every
  observed column has a value and \<open>savefig\<close> can write the format of the file name,
  \<open>main()\<close> with the plot returns too, with the same demand file and the same warnings.\<close>

theorem demand_run_plot_succeeds:
  assumes "demand_main inp = Inr (txt, ws)" and "simulation_times inp \<noteq> []"
    and "\<forall>(k, c)\<in>set (observed inp). c \<noteq> []" and "savefig_format plot \<in> set fmts"
  shows "\<exists>evs. demand_run inp plot fmts = Inr (txt, evs) \<and> warnings_of evs = ws"
proof -
  obtain tbl ids popsim dm evs0 where one: "length (time_column (observed inp)) \<noteq> 1"
    and cnt: "length (univar_outputs inp) = length (time_column (observed inp))"
    and g: "gather_developed (univar_outputs inp) = Inr (tbl, ids)"
    and i: "interp_subregions (simulation_times inp) (observed inp) (projected inp) (map fst tbl) = Inr popsim"
    and l: "plot_loop plot (n_plots_of (length ids)) 0 (methods inp) (observed inp) tbl popsim ids = Inr (dm, evs0)"
    and w: "write_demand (simulation_times inp) (map fst (observed inp)) ids dm = Inr txt"
    and we: "warnings_of evs0 = ws"
    using assms(1-3) by (rule demand_main_plot_loop)
  show ?thesis using one cnt g i l w we assms(4) by (simp add: demand_run_def)
qed


end
