(* ===== verification/Potential.thy ===== *)
theory Potential
  imports Prelude
begin

text \<open>
  \<open>main()\<close> of r.futures.potential.py (lines 120--182), a Python 2 script. It reads its
  options, checks the bounds on the number of predictors, writes the R script of lines
  70--113 to a temporary file, exports the attribute table with \<open>v.db.select\<close>, runs the
  script with \<open>Rscript\<close> and rewrites the coefficient table that R wrote into the output
  file, separated by spaces, with the first two header cells renamed. At exit
  (\<open>atexit\<close>, line 181) \<open>cleanup()\<close> removes the temporary files.

  The effects are a trace of \<open>pot_action\<close> values; what the outside world returns (the
  temporary file names, the exit code and output of \<open>Rscript\<close>, the file R wrote) is a
  \<open>pot_env\<close>. Python 2 compares an \<open>int\<close> with a \<open>str\<close> by type: every number is
  smaller than every string (\<open>py2_gt\<close>).
\<close>

section \<open>Python 2 values and their comparison\<close>

text \<open>The two types \<open>maxv\<close> can have at line 137: the option string (line 134) or the
  \<open>int\<close> \<open>len(columns) - 2\<close> (line 136).\<close>

datatype pyval = PInt int | PStr string

text \<open>\<open>a > b\<close> in Python 2: numbers by value, strings lexicographically by character code,
  and a number below any string.\<close>

fun py2_gt :: "pyval \<Rightarrow> pyval \<Rightarrow> bool" where
  "py2_gt (PInt a) (PInt b) = (b < a)"
| "py2_gt (PInt a) (PStr s) = False"
| "py2_gt (PStr s) (PInt b) = True"
| "py2_gt (PStr s) (PStr t) = (t < s)"

text \<open>\<open>str(v)\<close>.\<close>

fun py_str_val :: "pyval \<Rightarrow> string" where
  "py_str_val (PInt n) = py_str_int n"
| "py_str_val (PStr s) = s"

section \<open>Options, environment and effects\<close>

text \<open>The values of \<open>options\<close> and \<open>flags\<close> (lines 127--132) as \<open>gscript.parser\<close> returns
  them: strings, the empty string for an option not given, and a Boolean flag.\<close>

record pot_options =
  opt_input :: string
  opt_output :: string
  opt_columns :: string
  opt_developed :: string
  opt_subregions :: string
  opt_min :: string
  opt_max :: string
  flag_d :: bool

text \<open>What the calls to the outside return: the three \<open>gscript.tempfile()\<close> names (lines
  141, 142, 145), the exit code, standard output and error of \<open>Rscript\<close> (line 156), and the
  text of the file that R wrote.\<close>

record pot_env =
  tempfiles :: "string \<times> string \<times> string"
  r_returncode :: int
  r_stdout :: string
  r_stderr :: string
  r_potential :: string

datatype pot_action =
    WriteRscript string                                \<comment> \<open>lines 143--144\<close>
  | VDbSelect string "string list" string string       \<comment> \<open>line 148: map, columns, separator, file\<close>
  | Info string                                        \<comment> \<open>\<open>gscript.info\<close>\<close>
  | Popen "string list"                                \<comment> \<open>lines 154--156\<close>
  | Print string                                       \<comment> \<open>Python 2 \<open>print\<close>\<close>
  | WriteFile string string                            \<comment> \<open>the output file, lines 166--176\<close>
  | RemoveFile string                                  \<comment> \<open>\<open>gscript.try_remove\<close>, lines 121--123\<close>

text \<open>The globals \<open>TMP_CSV\<close>, \<open>TMP_RSCRIPT\<close>, \<open>TMP_POT\<close> (\<open>None\<close> until lines 141--145 run)
  and the effects so far.\<close>

record pot_state =
  trace :: "pot_action list"
  tmp_csv :: "string option"
  tmp_rscript :: "string option"
  tmp_pot :: "string option"

definition pot_init :: pot_state where
  "pot_init = \<lparr>trace = [], tmp_csv = None, tmp_rscript = None, tmp_pot = None\<rparr>"

section \<open>The operations of main\<close>

text \<open>Lines 128--138: \<open>int(options['min_variables'])\<close>, the default of \<open>maxv\<close>, and the
  check that fails with \<open>gscript.fatal\<close>.\<close>

definition pot_validate :: "pot_options \<Rightarrow> (int \<times> pyval) result" where
  "pot_validate opts =
     (case py_int_of_str (opt_min opts) of
        None \<Rightarrow> Inl (BadIntOption (opt_min opts))
      | Some minim \<Rightarrow>
          (let columns = py_split CHR '','' (opt_columns opts);
               maxv = (if opt_max opts \<noteq> [] then PStr (opt_max opts) else PInt (int (length columns) - 2))
           in if flag_d opts \<and> py2_gt (PInt minim) maxv then Inl MinAboveMax else Inr (minim, maxv)))"

text \<open>Line 154: the command line of \<open>Rscript\<close>.\<close>

definition rscript_argv :: "pot_options \<Rightarrow> string \<Rightarrow> string \<Rightarrow> string \<Rightarrow> int \<Rightarrow> pyval \<Rightarrow> string list" where
  "rscript_argv opts rs csv pot minim maxv =
     [''Rscript'', rs, ''-i'', csv, ''-l'', opt_subregions opts, ''-r'', opt_developed opts,
      ''-m'', py_str_int minim, ''-x'', py_str_val maxv, ''-o'', pot, ''-d'',
      if flag_d opts then ''TRUE'' else ''FALSE'']"

text \<open>\<open>f.readlines()\<close>: the lines of a text, each with its newline, the last one without
  if the text does not end in a newline.\<close>

fun py_readlines :: "string \<Rightarrow> string list" where
  "py_readlines [] = []"
| "py_readlines (c # cs) =
     (if c = CHR ''\<newline>'' then [CHR ''\<newline>''] # py_readlines cs
      else (case py_readlines cs of [] \<Rightarrow> [[c]] | l # ls \<Rightarrow> (c # l) # ls))"

text \<open>\<open>each.strip('"')\<close>.\<close>

definition strip_quotes :: "string \<Rightarrow> string" where
  "strip_quotes s = rev (dropWhile (\<lambda>c. c = CHR 0x22) (rev (dropWhile (\<lambda>c. c = CHR 0x22) s)))"

text \<open>Lines 169--173 for line \<open>i\<close> of the file R wrote: the fields of the stripped line,
  unquoted; in the first line the first two are renamed, and a first line of one field
  fails with IndexError at \<open>row[1]\<close>.\<close>

definition reformat_row :: "nat \<Rightarrow> string \<Rightarrow> string list result" where
  "reformat_row i line =
     (let row = map strip_quotes (py_split CHR 0x09 (py_strip line))
      in if i = 0 then (if length row < 2 then Inl ShortHeaderRow else Inr (row[0 := ''ID'', 1 := ''Intercept'']))
         else Inr row)"

text \<open>Lines 167--176: the text written to the output file.\<close>

fun reformat_lines :: "nat \<Rightarrow> string list \<Rightarrow> string result" where
  "reformat_lines i [] = Inr []"
| "reformat_lines i (l # ls) =
     res_bind (reformat_row i l) (\<lambda>row.
     res_bind (reformat_lines (Suc i) ls) (\<lambda>rest. Inr (py_join CHR '' '' row @ CHR ''\<newline>'' # rest)))"

text \<open>Lines 140--157: the temporary names, the R script written, the export with
  \<open>v.db.select\<close> of the predictors with the two extra columns (line 147), the message,
  \<open>Rscript\<close> run and its standard error printed.\<close>

definition pot_launch :: "pot_options \<Rightarrow> pot_env \<Rightarrow> int \<Rightarrow> pyval \<Rightarrow> pot_state" where
  "pot_launch opts env minim maxv =
     (case tempfiles env of
        (ta, tb, tc) \<Rightarrow>
          let csv = ta @ ''.csv''; rs = tb; pot = tc @ ''_potential.csv'';
              columns = py_split CHR '','' (opt_columns opts) @ [opt_developed opts, opt_subregions opts]
          in \<lparr>trace = [WriteRscript rs, VDbSelect (opt_input opts) columns ''comma'' csv,
                       Info (if flag_d opts then ''Running automatic model selection ...'' else ''Computing model...''),
                       Popen (rscript_argv opts rs csv pot minim maxv), Print (r_stderr env)],
              tmp_csv = Some csv, tmp_rscript = Some rs, tmp_pot = Some pot\<rparr>)"

text \<open>Lines 126--176. A failing \<open>Rscript\<close> prints its error again and exits (lines
  158--160). An exception raised while the output is rewritten leaves the file opened for
  writing and empty: that can only happen at the first line.\<close>

definition pot_main :: "pot_options \<Rightarrow> pot_env \<Rightarrow> pot_state \<times> unit result" where
  "pot_main opts env =
     (case pot_validate opts of
        Inl e \<Rightarrow> (pot_init, Inl e)
      | Inr (minim, maxv) \<Rightarrow>
          let st = pot_launch opts env minim maxv
          in if r_returncode env \<noteq> 0 then (st\<lparr>trace := trace st @ [Print (r_stderr env)]\<rparr>, Inl RscriptFailed)
             else
               let shown = trace st @ [Info ''Best model summary:'', Info ''-------------------------'', Print (r_stdout env)]
               in (case reformat_lines 0 (py_readlines (r_potential env)) of
                     Inl e \<Rightarrow> (st\<lparr>trace := shown @ [WriteFile (opt_output opts) []]\<rparr>, Inl e)
                   | Inr txt \<Rightarrow> (st\<lparr>trace := shown @ [WriteFile (opt_output opts) txt]\<rparr>, Inr ())))"

text \<open>Lines 120--123: \<open>try_remove\<close> of a name that is still \<open>None\<close> does nothing.\<close>

definition cleanup :: "pot_state \<Rightarrow> pot_action list" where
  "cleanup st = concat (map (\<lambda>t. case t of None \<Rightarrow> [] | Some f \<Rightarrow> [RemoveFile f])
                         [tmp_csv st, tmp_pot st, tmp_rscript st])"

text \<open>Lines 179--182: \<open>main()\<close>, then the \<open>atexit\<close> handler, whether main returned or
  exited with an error.\<close>

definition pot_script :: "pot_options \<Rightarrow> pot_env \<Rightarrow> pot_action list \<times> unit result" where
  "pot_script opts env = (case pot_main opts env of (st, r) \<Rightarrow> (trace st @ cleanup st, r))"


section \<open>What R writes\<close>

text \<open>The table that \<open>write.table(..., sep="\t", row.names=FALSE)\<close> (line 112) writes: one
  line per row, cells separated by tabs, each cell quoted (strings) or bare (numbers).\<close>

definition r_cell :: "bool \<times> string \<Rightarrow> string" where
  "r_cell qc = (if fst qc then CHR 0x22 # snd qc @ [CHR 0x22] else snd qc)"

definition r_table_text :: "(bool \<times> string) list list \<Rightarrow> string" where
  "r_table_text rows = concat (map (\<lambda>row. py_join CHR 0x09 (map r_cell row) @ [CHR ''\<newline>'']) rows)"

text \<open>A cell the rewriting reads back unchanged: no quote, tab, newline or other white
  space in it, and not empty when bare.\<close>

definition good_cell :: "bool \<times> string \<Rightarrow> bool" where
  "good_cell qc \<longleftrightarrow> (\<forall>c\<in>set (snd qc). c \<noteq> CHR 0x22 \<and> \<not> is_space c) \<and> (fst qc \<or> snd qc \<noteq> [])"

definition space_table :: "string list list \<Rightarrow> string" where
  "space_table rows = concat (map (\<lambda>row. py_join CHR '' '' row @ [CHR ''\<newline>'']) rows)"

text \<open>A run used in the examples: a minimum of 5 predictors above a given maximum "2".\<close>

definition example_options :: pot_options where
  "example_options = \<lparr>opt_input = ''samples'', opt_output = ''potential.txt'', opt_columns = ''slope,road'',
     opt_developed = ''dev'', opt_subregions = ''county'', opt_min = ''5'', opt_max = ''2'', flag_d = True\<rparr>"

definition example_env :: pot_env where
  "example_env = \<lparr>tempfiles = (''/tmp/a'', ''/tmp/b'', ''/tmp/c''), r_returncode = 0, r_stdout = ''summary'',
     r_stderr = [], r_potential = r_table_text [[(True, ''rownames''), (True, ''Intercept''), (True, ''slope'')],
                                                [(True, ''1''), (False, ''0.5''), (False, ''-2'')]]\<rparr>"

section \<open>Lemmas\<close>

lemma py_readlines_line:
  "CHR ''\<newline>'' \<notin> set l \<Longrightarrow> py_readlines (l @ CHR ''\<newline>'' # rest) = (l @ [CHR ''\<newline>'']) # py_readlines rest"
  by (induction l) auto

lemma py_readlines_lines:
  "\<forall>l\<in>set ls. CHR ''\<newline>'' \<notin> set l \<Longrightarrow>
   py_readlines (concat (map (\<lambda>l. l @ [CHR ''\<newline>'']) ls)) = map (\<lambda>l. l @ [CHR ''\<newline>'']) ls"
  by (induction ls) (simp_all add: py_readlines_line)

lemma concat_py_readlines: "concat (py_readlines s) = s"
  by (induction s rule: py_readlines.induct) (auto split: list.split)

lemma py_strip_newline:
  assumes "s \<noteq> []" and "\<not> is_space (hd s)" and "\<not> is_space (last s)"
  shows "py_strip (s @ [CHR ''\<newline>'']) = s"
proof -
  obtain c cs where s: "s = c # cs" using assms(1) by (cases s) auto
  have "dropWhile is_space (s @ [CHR ''\<newline>'']) = s @ [CHR ''\<newline>'']"
    using assms(2) s by simp
  moreover have "dropWhile is_space (rev s) = rev s"
    using assms(1,3) by (cases "rev s") (auto simp: last_rev [symmetric])
  ultimately show ?thesis by (simp add: py_strip_def is_space_def)
qed

lemma py_strip_append_space: "\<forall>c\<in>set r. is_space c \<Longrightarrow> py_strip (l @ r) = py_strip l"
proof (cases "\<forall>c\<in>set l. is_space c")
  case True
  assume r: "\<forall>c\<in>set r. is_space c"
  have d1: "dropWhile is_space (l @ r) = []" using True r by (simp add: dropWhile_eq_Nil_conv)
  have d2: "dropWhile is_space l = []" using True by (simp add: dropWhile_eq_Nil_conv)
  show ?thesis unfolding py_strip_def d1 d2 by simp
next
  case False
  assume r: "\<forall>c\<in>set r. is_space c"
  obtain l' where l': "dropWhile is_space l = l'" by blast
  have "dropWhile is_space (l @ r) = l' @ r" using False l' by (auto simp: dropWhile_append)
  moreover have "dropWhile is_space (rev r @ rev l') = dropWhile is_space (rev l')"
    using r by (simp add: dropWhile_append)
  ultimately show ?thesis using l' by (simp add: py_strip_def)
qed

lemma py_strip_tab_newline: "py_strip (l @ [CHR 0x09, CHR ''\<newline>'']) = py_strip (l @ [CHR ''\<newline>''])"
  using py_strip_append_space [of "[CHR 0x09, CHR ''\<newline>'']" l] py_strip_append_space [of "[CHR ''\<newline>'']" l]
  by (simp add: is_space_def)

lemma hd_py_join: "w \<noteq> [] \<Longrightarrow> hd (py_join d (w # ws)) = hd w"
  by (cases ws) auto

lemma py_join_Cons_not_Nil: "w \<noteq> [] \<Longrightarrow> py_join d (w # ws) \<noteq> []"
  by (cases ws) auto

lemma last_py_join: "ws \<noteq> [] \<Longrightarrow> last ws \<noteq> [] \<Longrightarrow> last (py_join d ws) = last (last ws)"
proof (induction ws)
  case (Cons w ws)
  then show ?case by (cases ws) (auto simp: py_join_Cons)
qed simp

lemma r_cell_facts:
  assumes "good_cell qc"
  shows "r_cell qc \<noteq> []" "\<not> is_space (hd (r_cell qc))" "\<not> is_space (last (r_cell qc))"
    "CHR 0x09 \<notin> set (r_cell qc)" "CHR ''\<newline>'' \<notin> set (r_cell qc)" "strip_quotes (r_cell qc) = snd qc"
proof -
  obtain q c where qc: "qc = (q, c)" by (cases qc)
  have nc: "\<forall>x\<in>set c. x \<noteq> CHR 0x22 \<and> \<not> is_space x" and ne: "q \<or> c \<noteq> []"
    using assms qc by (auto simp: good_cell_def)
  have tab: "CHR 0x09 \<notin> set c" "CHR ''\<newline>'' \<notin> set c" using nc by (auto simp: is_space_def)
  show "r_cell qc \<noteq> []" using ne qc by (auto simp: r_cell_def)
  have "\<not> is_space (hd (r_cell qc)) \<and> \<not> is_space (last (r_cell qc))"
  proof (cases q)
    case True
    have "\<not> is_space (CHR 0x22)" by (simp add: is_space_def)
    with True qc show ?thesis by (simp add: r_cell_def)
  next
    case False
    with ne have c: "c \<noteq> []" by simp
    then have "hd c \<in> set c" "last c \<in> set c" by simp_all
    with nc False qc show ?thesis by (simp add: r_cell_def)
  qed
  then show "\<not> is_space (hd (r_cell qc))" "\<not> is_space (last (r_cell qc))" by simp_all
  show "CHR 0x09 \<notin> set (r_cell qc)" "CHR ''\<newline>'' \<notin> set (r_cell qc)"
    using tab qc by (auto simp: r_cell_def)
  have d: "dropWhile (\<lambda>x. x = CHR 0x22) c = c" "dropWhile (\<lambda>x. x = CHR 0x22) (rev c) = rev c"
    using nc by (simp_all add: dropWhile_all_not)
  have "dropWhile (\<lambda>x. x = CHR 0x22) (c @ [CHR 0x22]) = (if c = [] then [] else c @ [CHR 0x22])"
    using d(1) nc by (cases c) (auto simp: dropWhile_append)
  then show "strip_quotes (r_cell qc) = snd qc"
    using d qc by (cases "c = []") (simp_all add: strip_quotes_def r_cell_def)
qed

lemma r_line_fields:
  assumes "row \<noteq> []" and "\<forall>qc\<in>set row. good_cell qc"
  shows "map strip_quotes (py_split CHR 0x09 (py_strip (py_join CHR 0x09 (map r_cell row) @ [CHR ''\<newline>'']))) = map snd row"
proof -
  let ?ws = "map r_cell row"
  obtain x xs where row: "row = x # xs" using assms(1) by (cases row) auto
  have "?ws \<noteq> []" "\<forall>w\<in>set ?ws. CHR 0x09 \<notin> set w" using assms r_cell_facts(4) by auto
  moreover have "py_join CHR 0x09 ?ws \<noteq> []" "\<not> is_space (hd (py_join CHR 0x09 ?ws))"
    using row assms(2) r_cell_facts(1,2) hd_py_join [of "r_cell x" "CHR 0x09"] py_join_Cons_not_Nil [of "r_cell x"]
    by auto
  moreover have "\<not> is_space (last (py_join CHR 0x09 ?ws))"
    using row assms(2) r_cell_facts(1,3) last_py_join [of ?ws "CHR 0x09"] by (simp add: last_map)
  ultimately have "py_split CHR 0x09 (py_strip (py_join CHR 0x09 ?ws @ [CHR ''\<newline>''])) = ?ws"
    by (simp add: py_strip_newline py_split_join)
  with assms(2) show ?thesis by (simp add: r_cell_facts(6))
qed

lemma reformat_rows_later:
  "\<forall>row\<in>set rows. row \<noteq> [] \<and> (\<forall>qc\<in>set row. good_cell qc) \<Longrightarrow>
   reformat_lines (Suc i) (map (\<lambda>row. py_join CHR 0x09 (map r_cell row) @ [CHR ''\<newline>'']) rows) =
     Inr (space_table (map (map snd) rows))"
  by (induction rows arbitrary: i) (simp_all add: reformat_row_def r_line_fields space_table_def)

lemma r_table_lines:
  "\<forall>row\<in>set rows. \<forall>qc\<in>set row. good_cell qc \<Longrightarrow>
   py_readlines (r_table_text rows) = map (\<lambda>row. py_join CHR 0x09 (map r_cell row) @ [CHR ''\<newline>'']) rows"
proof -
  assume g: "\<forall>row\<in>set rows. \<forall>qc\<in>set row. good_cell qc"
  have "CHR ''\<newline>'' \<notin> set (py_join CHR 0x09 (map r_cell row))" if "row \<in> set rows" for row
  proof (rule py_join_not_in)
    show "\<forall>w\<in>set (map r_cell row). CHR ''\<newline>'' \<notin> set w" using g that r_cell_facts(5) by auto
  qed simp
  then have "\<forall>l\<in>set (map (\<lambda>row. py_join CHR 0x09 (map r_cell row)) rows). CHR ''\<newline>'' \<notin> set l"
    by auto
  from py_readlines_lines [OF this] show ?thesis by (simp add: r_table_text_def comp_def)
qed

text \<open>Reading back what R wrote: the output holds the same table, cells separated
  by one space, quotes removed, the first two header cells renamed \<open>ID\<close> and
  \<open>Intercept\<close>.\<close>

lemma reformat_table:
  assumes "length hdr \<ge> 2" and "\<forall>row\<in>set (hdr # body). row \<noteq> [] \<and> (\<forall>qc\<in>set row. good_cell qc)"
  shows "reformat_lines 0 (py_readlines (r_table_text (hdr # body))) =
           Inr (space_table ((map snd hdr)[0 := ''ID'', 1 := ''Intercept''] # map (map snd) body))"
proof -
  have g: "\<forall>row\<in>set (hdr # body). \<forall>qc\<in>set row. good_cell qc" using assms(2) by blast
  let ?line = "\<lambda>row. py_join CHR 0x09 (map r_cell row) @ [CHR ''\<newline>'']"
  let ?hdr = "(map snd hdr)[0 := ''ID'', 1 := ''Intercept'']"
  have l: "py_readlines (r_table_text (hdr # body)) = ?line hdr # map ?line body"
    by (simp only: r_table_lines [OF g] list.map)
  have h: "reformat_row 0 (?line hdr) = Inr ?hdr"
    using assms r_line_fields [of hdr] by (simp add: reformat_row_def)
  have b: "reformat_lines (Suc 0) (map ?line body) = Inr (space_table (map (map snd) body))"
    using reformat_rows_later [of body 0] assms(2) by simp
  have t: "py_join CHR '' '' ?hdr @ CHR ''\<newline>'' # space_table (map (map snd) body) =
             space_table (?hdr # map (map snd) body)"
    by (simp add: space_table_def)
  show ?thesis
    unfolding l reformat_lines.simps h b res_bind_simps t ..
qed


lemma set_py_strip: "set (py_strip s) \<subseteq> set s"
  unfolding py_strip_def by (metis set_dropWhileD set_rev subsetI)

lemma cleanup_launch:
  "tempfiles env = (ta, tb, tc) \<Longrightarrow>
   cleanup (pot_launch opts env minim maxv\<lparr>trace := acts\<rparr>) =
     [RemoveFile (ta @ ''.csv''), RemoveFile (tc @ ''_potential.csv''), RemoveFile tb]"
  by (simp add: cleanup_def pot_launch_def Let_def)

lemma pot_script_launched:
  assumes "pot_validate opts = Inr (minim, maxv)"
  shows "pot_script opts env =
     (let st = pot_launch opts env minim maxv;
          shown = trace st @ [Info ''Best model summary:'', Info ''-------------------------'', Print (r_stdout env)]
      in if r_returncode env \<noteq> 0 then (trace st @ [Print (r_stderr env)] @ cleanup st, Inl RscriptFailed)
         else case reformat_lines 0 (py_readlines (r_potential env)) of
                Inl e \<Rightarrow> (shown @ [WriteFile (opt_output opts) []] @ cleanup st, Inl e)
              | Inr txt \<Rightarrow> (shown @ [WriteFile (opt_output opts) txt] @ cleanup st, Inr ()))"
proof -
  have "cleanup (st\<lparr>trace := acts\<rparr>) = cleanup st" for st :: pot_state and acts
    by (simp add: cleanup_def)
  then show ?thesis
    using assms by (simp add: pot_script_def pot_main_def Let_def split: sum.split)
qed

lemma no_write_launch: "WriteFile f t \<notin> set (trace (pot_launch opts env minim maxv))"
  by (simp add: pot_launch_def Let_def split: prod.split)

text \<open>C16: Python 2 compares the \<open>int\<close> \<open>minim\<close> with the option string \<open>maxv\<close> by type, an
  \<open>int\<close> being smaller than any string: when \<open>max_variables\<close> is given the check of
  line 137 never fails, whatever the two numbers.\<close>

theorem pot_validate_max_given:
  "opt_max opts \<noteq> [] \<Longrightarrow> py_int_of_str (opt_min opts) = Some m \<Longrightarrow> pot_validate opts = Inr (m, PStr (opt_max opts))"
  by (simp add: pot_validate_def)

text \<open>Without \<open>max_variables\<close> the bound is \<open>len(columns) - 2\<close> and the run stops with
  the fatal error of line 138 exactly when \<open>-d\<close> is set and \<open>min_variables\<close> exceeds it.\<close>

theorem pot_validate_default:
  assumes "opt_max opts = []" and "py_int_of_str (opt_min opts) = Some m"
  shows "pot_validate opts = Inl MinAboveMax \<longleftrightarrow>
           flag_d opts \<and> int (length (py_split CHR '','' (opt_columns opts))) - 2 < m"
  using assms by (simp add: pot_validate_def Let_def)

text \<open>C15: when R succeeds and writes a table of well-formed cells, the script writes the R
  script, exports the predictors with the developed and subregion columns, runs \<open>Rscript\<close>
  with its options, writes the space-separated table to the output and removes its three
  temporary files, in this order.\<close>

theorem pot_script_output:
  assumes "pot_validate opts = Inr (minim, maxv)" and "tempfiles env = (ta, tb, tc)"
    and "r_returncode env = 0" and "r_potential env = r_table_text (hdr # body)" and "length hdr \<ge> 2"
    and "\<forall>row\<in>set (hdr # body). row \<noteq> [] \<and> (\<forall>qc\<in>set row. good_cell qc)"
  shows "pot_script opts env =
     ([WriteRscript tb,
       VDbSelect (opt_input opts) (py_split CHR '','' (opt_columns opts) @ [opt_developed opts, opt_subregions opts])
         ''comma'' (ta @ ''.csv''),
       Info (if flag_d opts then ''Running automatic model selection ...'' else ''Computing model...''),
       Popen (rscript_argv opts tb (ta @ ''.csv'') (tc @ ''_potential.csv'') minim maxv), Print (r_stderr env),
       Info ''Best model summary:'', Info ''-------------------------'', Print (r_stdout env),
       WriteFile (opt_output opts) (space_table ((map snd hdr)[0 := ''ID'', 1 := ''Intercept''] # map (map snd) body)),
       RemoveFile (ta @ ''.csv''), RemoveFile (tc @ ''_potential.csv''), RemoveFile tb], Inr ())"
proof -
  have c: "cleanup (pot_launch opts env minim maxv) =
             [RemoveFile (ta @ ''.csv''), RemoveFile (tc @ ''_potential.csv''), RemoveFile tb]"
    using cleanup_launch [OF assms(2), where opts = opts and minim = minim and maxv = maxv and acts = "trace (pot_launch opts env minim maxv)"] by simp
  show ?thesis
    using pot_script_launched [OF assms(1)] reformat_table [OF assms(5,6)] assms(2-4) c
    by (simp add: pot_launch_def Let_def)
qed

text \<open>C17: once the options are accepted, the temporary files are removed at exit whatever
  happens next; when they are not, the script does nothing but fail.\<close>

theorem pot_script_cleanup:
  "(pot_validate opts = Inl e \<longrightarrow> pot_script opts env = ([], Inl e)) \<and>
   (pot_validate opts = Inr v \<longrightarrow> tempfiles env = (ta, tb, tc) \<longrightarrow>
      (\<exists>acts. fst (pot_script opts env) = acts @ [RemoveFile (ta @ ''.csv''), RemoveFile (tc @ ''_potential.csv''), RemoveFile tb]))"
proof (intro conjI impI)
  assume "pot_validate opts = Inl e"
  then show "pot_script opts env = ([], Inl e)" by (simp add: pot_script_def pot_main_def pot_init_def cleanup_def)
next
  assume v: "pot_validate opts = Inr v" and t: "tempfiles env = (ta, tb, tc)"
  obtain minim maxv where v': "pot_validate opts = Inr (minim, maxv)" using v by (cases v) auto
  have c: "cleanup (pot_launch opts env minim maxv) =
             [RemoveFile (ta @ ''.csv''), RemoveFile (tc @ ''_potential.csv''), RemoveFile tb]"
    using cleanup_launch [OF t, where opts = opts and minim = minim and maxv = maxv and acts = "trace (pot_launch opts env minim maxv)"] by simp
  show "\<exists>acts. fst (pot_script opts env) = acts @ [RemoveFile (ta @ ''.csv''), RemoveFile (tc @ ''_potential.csv''), RemoveFile tb]"
    using pot_script_launched [OF v'] c by (simp add: Let_def split: sum.split)
qed

text \<open>C21: a failing \<open>Rscript\<close> ends the run with the fatal error of line 160 and the output
  file is never written.\<close>

theorem pot_script_rscript_failed:
  assumes "pot_validate opts = Inr (minim, maxv)" and "r_returncode env \<noteq> 0"
  shows "snd (pot_script opts env) = Inl RscriptFailed \<and> (\<forall>f t. WriteFile f t \<notin> set (fst (pot_script opts env)))"
proof -
  have "WriteFile f t \<notin> set (cleanup st)" for f t st by (auto simp: cleanup_def split: option.splits)
  then show ?thesis
    using pot_script_launched [OF assms(1)] assms(2) no_write_launch by (simp add: Let_def)
qed

text \<open>C22: a first line of the R output with a single field (no tab) makes \<open>row[1] = ...\<close>
  raise IndexError at line 173; the output file is left empty.\<close>

theorem pot_script_short_header:
  assumes "pot_validate opts = Inr (minim, maxv)" and "r_returncode env = 0"
    and "r_potential env = h @ CHR ''\<newline>'' # rest" and "CHR ''\<newline>'' \<notin> set h" and "CHR 0x09 \<notin> set h"
  shows "snd (pot_script opts env) = Inl ShortHeaderRow \<and> WriteFile (opt_output opts) [] \<in> set (fst (pot_script opts env))"
proof -
  have "CHR 0x09 \<notin> set (py_strip (h @ [CHR ''\<newline>'']))"
    using set_py_strip [of "h @ [CHR ''\<newline>'']"] assms(5) by auto
  then have "reformat_row 0 (h @ [CHR ''\<newline>'']) = Inl ShortHeaderRow"
    by (simp add: reformat_row_def py_split_no_sep)
  then have "reformat_lines 0 (py_readlines (r_potential env)) = Inl ShortHeaderRow"
    using assms(3,4) by (simp add: py_readlines_line)
  then show ?thesis using pot_script_launched [OF assms(1)] assms(2) by (simp add: Let_def)
qed

text \<open>A row whose last field is empty reads as the row without it: \<open>line.strip()\<close>
  removes the tab before the newline, so the output has one column fewer.\<close>

theorem reformat_row_trailing_tab: "reformat_row i (l @ [CHR 0x09, CHR ''\<newline>'']) = reformat_row i (l @ [CHR ''\<newline>''])"
  by (simp add: reformat_row_def py_strip_tab_newline)

section \<open>Examples\<close>

lemma example_min: "py_int_of_str ''5'' = Some 5"
  by code_simp

theorem pot_validate_max_given_witness: "pot_validate example_options = Inr (5, PStr ''2'')"
  using pot_validate_max_given [where opts = example_options and m = 5] example_min by (simp add: example_options_def)

theorem pot_validate_default_witness:
  "pot_validate (example_options\<lparr>opt_max := []\<rparr>) = Inl MinAboveMax"
proof -
  have "py_split CHR '','' ''slope,road'' = [''slope'', ''road'']" by code_simp
  then show ?thesis
    using pot_validate_default [where opts = "example_options\<lparr>opt_max := []\<rparr>" and m = 5] example_min
    by (simp add: example_options_def)
qed

lemma example_validate: "pot_validate example_options = Inr (5, PStr ''2'')"
  using example_min by (simp add: pot_validate_def example_options_def)

theorem pot_script_output_witness:
  "pot_script example_options example_env =
     ([WriteRscript ''/tmp/b'', VDbSelect ''samples'' [''slope'', ''road'', ''dev'', ''county''] ''comma'' ''/tmp/a.csv'',
       Info ''Running automatic model selection ...'',
       Popen (rscript_argv example_options ''/tmp/b'' ''/tmp/a.csv'' ''/tmp/c_potential.csv'' 5 (PStr ''2'')), Print [],
       Info ''Best model summary:'', Info ''-------------------------'', Print ''summary'',
       WriteFile ''potential.txt'' (space_table [[''ID'', ''Intercept'', ''slope''], [''1'', ''0.5'', ''-2'']]),
       RemoveFile ''/tmp/a.csv'', RemoveFile ''/tmp/c_potential.csv'', RemoveFile ''/tmp/b''], Inr ())"
proof -
  have cols: "py_split CHR '','' ''slope,road'' = [''slope'', ''road'']" by code_simp
  have g: "\<forall>row\<in>set [[(True, ''rownames''), (True, ''Intercept''), (True, ''slope'')], [(True, ''1''), (False, ''0.5''), (False, ''-2'')]].
             row \<noteq> [] \<and> (\<forall>qc\<in>set row. good_cell qc)"
    by code_simp
  show ?thesis
    using pot_script_output [OF example_validate, where env = example_env and ta = "''/tmp/a''" and tb = "''/tmp/b''" and tc = "''/tmp/c''"] g cols
    by (simp add: example_env_def example_options_def)
qed

theorem pot_script_cleanup_witness:
  "pot_script (example_options\<lparr>opt_max := []\<rparr>) example_env = ([], Inl MinAboveMax) \<and>
   (\<exists>acts. fst (pot_script example_options example_env) =
      acts @ [RemoveFile ''/tmp/a.csv'', RemoveFile ''/tmp/c_potential.csv'', RemoveFile ''/tmp/b''])"
proof -
  have "py_split CHR '','' ''slope,road'' = [''slope'', ''road'']" by code_simp
  then have v: "pot_validate (example_options\<lparr>opt_max := []\<rparr>) = Inl MinAboveMax"
    using example_min by (simp add: pot_validate_def example_options_def)
  show ?thesis
    using pot_script_cleanup [where opts = "example_options\<lparr>opt_max := []\<rparr>" and e = MinAboveMax and env = example_env]
      pot_script_cleanup [where opts = example_options and v = "(5, PStr ''2'')" and env = example_env
        and ta = "''/tmp/a''" and tb = "''/tmp/b''" and tc = "''/tmp/c''"]
      v example_validate
    by (simp add: example_env_def)
qed

theorem pot_script_rscript_failed_witness:
  "snd (pot_script example_options (example_env\<lparr>r_returncode := 1\<rparr>)) = Inl RscriptFailed \<and>
   (\<forall>f t. WriteFile f t \<notin> set (fst (pot_script example_options (example_env\<lparr>r_returncode := 1\<rparr>))))"
  using pot_script_rscript_failed [OF example_validate, where env = "example_env\<lparr>r_returncode := 1\<rparr>"] by simp

theorem pot_script_short_header_witness:
  "snd (pot_script example_options (example_env\<lparr>r_potential := ''x\<newline>1''\<rparr>)) = Inl ShortHeaderRow \<and>
   WriteFile ''potential.txt'' [] \<in> set (fst (pot_script example_options (example_env\<lparr>r_potential := ''x\<newline>1''\<rparr>)))"
  using pot_script_short_header [OF example_validate, where env = "example_env\<lparr>r_potential := ''x\<newline>1''\<rparr>" and h = "''x''" and rest = "''1''"]
  by (simp add: example_env_def example_options_def)

end
