(* ===== verification/RScript.thy ===== *)
theory RScript
  imports Potential
begin

text \<open>
  The R program that r.futures.potential.py writes to a temporary file (the string
  \<open>rscript\<close>, lines 70--113) and runs with \<open>Rscript\<close>: its command-line options (lines
  79--89, \<open>optparse\<close>), the predictors and the model formula it builds from the columns
  of the exported table (lines 92--99) and the choice between one \<open>glmer\<close> fit and a
  \<open>dredge\<close> over sub-models (lines 100--109), preceded by the check of the installed
  packages (lines 72--75, \<open>r_script\<close>), and the coefficient table it writes (lines
  111--112, \<open>r_write_coefs\<close>). The statistics of \<open>glmer\<close> and \<open>dredge\<close> (lme4, MuMIn)
  are not modelled: the result is the fit the program asks for, a value of \<open>r_fit\<close>, and
  the coefficients are the input of \<open>r_write_coefs\<close>. R values are \<open>rval\<close>, with \<open>NA\<close>.
\<close>

section \<open>R values and the option list\<close>

datatype rval = RNA | RStr string | RBool bool | RInt int

datatype r_type = RCharacter | RLogical | RInteger

text \<open>\<open>make_option(c(short, long), action="store", default=NA, type=...)\<close>.\<close>

record r_option =
  r_short :: string
  r_long :: string
  r_type :: r_type

text \<open>Lines 79--87, in their order.\<close>

definition option_list :: "r_option list" where
  "option_list =
     [\<lparr>r_short = ''-i'', r_long = ''--input'', r_type = RCharacter\<rparr>,
      \<lparr>r_short = ''-o'', r_long = ''--output'', r_type = RCharacter\<rparr>,
      \<lparr>r_short = ''-l'', r_long = ''--level'', r_type = RCharacter\<rparr>,
      \<lparr>r_short = ''-r'', r_long = ''--response'', r_type = RCharacter\<rparr>,
      \<lparr>r_short = ''-d'', r_long = ''--usedredge'', r_type = RLogical\<rparr>,
      \<lparr>r_short = ''-m'', r_long = ''--minimum'', r_type = RInteger\<rparr>,
      \<lparr>r_short = ''-x'', r_long = ''--maximum'', r_type = RInteger\<rparr>]"

text \<open>\<open>optparse\<close> names the value of an option after its long flag without the dashes.\<close>

definition r_dest :: "r_option \<Rightarrow> string" where
  "r_dest ro = drop 2 (r_long ro)"

text \<open>The option a command-line word names, by its short or its long flag.\<close>

definition find_option :: "string \<Rightarrow> r_option option" where
  "find_option f = find (\<lambda>ro. r_short ro = f \<or> r_long ro = f) option_list"

text \<open>\<open>as.logical\<close> of a string: the spellings R reads as \<open>TRUE\<close> or \<open>FALSE\<close>, otherwise
  \<open>NA\<close>.\<close>

definition r_as_logical :: "string \<Rightarrow> rval" where
  "r_as_logical s =
     (if s \<in> {''TRUE'', ''true'', ''True'', ''T''} then RBool True
      else if s \<in> {''FALSE'', ''false'', ''False'', ''F''} then RBool False else RNA)"

text \<open>\<open>as.integer\<close> of a string (\<open>IntegerFromString\<close> of R's coerce.c): \<open>NA\<close> for a
  blank string; otherwise \<open>R_strtod\<close> (arithmetic.c) must read a number that the
  blanks after it end, and a number outside the range of a 32-bit \<open>int\<close> (whose least
  value is \<open>NA\<close>) is \<open>NA\<close> too; the rest is truncated towards zero. \<open>R_strtod\<close> reads, after
  blanks and a sign, a hexadecimal integer \<open>0x...\<close> or a decimal literal. Its spellings
  \<open>NA\<close>, \<open>NaN\<close>, \<open>Inf\<close> and \<open>infinity\<close> are values that \<open>as.integer\<close> turns into
  \<open>NA\<close>, as it does here for every text \<open>r_strtod\<close> does not read; hexadecimal fractions
  and binary exponents (\<open>0x1.8p1\<close>) are among those texts here.\<close>

definition is_hex_digit :: "char \<Rightarrow> bool" where
  "is_hex_digit c \<longleftrightarrow> is_digit c \<or> (CHR ''a'' \<le> c \<and> c \<le> CHR ''f'') \<or> (CHR ''A'' \<le> c \<and> c \<le> CHR ''F'')"

definition hex_val :: "char \<Rightarrow> nat" where
  "hex_val c = (if is_digit c then digit_val c else if CHR ''a'' \<le> c \<and> c \<le> CHR ''f'' then of_char c - 87 else of_char c - 55)"

definition r_strtod :: "string \<Rightarrow> real option" where
  "r_strtod s =
     (let (sg, r) = sign_split s
      in case r of
           c0 # c1 # c2 # r' \<Rightarrow>
             if c0 = CHR ''0'' \<and> (c1 = CHR ''x'' \<or> c1 = CHR ''X'') then
               (if dropWhile is_hex_digit (c2 # r') = []
                then Some (real_of_int sg * real (foldl (\<lambda>acc c. 16 * acc + hex_val c) 0 (c2 # r'))) else None)
             else dec_literal False s
         | _ \<Rightarrow> dec_literal False s)"

text \<open>An \<open>int\<close> of R that is not \<open>NA\<close>.\<close>

definition r_int_range :: "int \<Rightarrow> bool" where
  "r_int_range n \<longleftrightarrow> -2147483648 < n \<and> n < 2147483648"

definition r_int_of_str :: "string \<Rightarrow> int option" where
  "r_int_of_str s =
     (case r_strtod (py_strip s) of
        None \<Rightarrow> None
      | Some y \<Rightarrow> if 2147483648 \<le> y \<or> y \<le> -2147483648 then None else Some (py_trunc y))"

definition r_as_integer :: "string \<Rightarrow> rval" where
  "r_as_integer s = (case r_int_of_str s of Some n \<Rightarrow> RInt n | None \<Rightarrow> RNA)"

definition r_convert :: "r_type \<Rightarrow> string \<Rightarrow> rval" where
  "r_convert t v = (case t of RCharacter \<Rightarrow> RStr v | RLogical \<Rightarrow> r_as_logical v | RInteger \<Rightarrow> r_as_integer v)"

section \<open>\<open>parse_args\<close>\<close>

text \<open>What stops the R program before it fits anything; \<open>Rscript\<close> then exits with a
  non-zero code, which is \<open>RscriptFailed\<close> on the Python side.\<close>

datatype r_error =
    PackageNotFound string    \<comment> \<open>\<open>stop(paste("Package", package, " not found"))\<close>, line 74\<close>
  | UnknownFlag string        \<comment> \<open>\<open>getopt\<close>: a flag that is not in \<open>option_list\<close>\<close>
  | MissingValue string       \<comment> \<open>\<open>getopt\<close>: a flag at the end without its value\<close>
  | NotGiven string           \<comment> \<open>\<open>opt$level\<close> or \<open>opt$response\<close> left \<open>NA\<close>\<close>
  | UsedredgeNA               \<comment> \<open>\<open>if(opt$usedredge)\<close> on \<open>NA\<close>, line 102\<close>

text \<open>Line 89 on a command line of flag--value pairs: every option starts at its default
  \<open>NA\<close>; each flag stores the next word, converted to the option's type; a later flag of
  the same option overrides an earlier one.\<close>

fun r_parse :: "string list \<Rightarrow> (string \<times> rval) list \<Rightarrow> r_error + (string \<times> rval) list" where
  "r_parse [] opt = Inr opt"
| "r_parse [f] opt = (case find_option f of None \<Rightarrow> Inl (UnknownFlag f) | Some ro \<Rightarrow> Inl (MissingValue f))"
| "r_parse (f # v # rest) opt =
     (case find_option f of
        None \<Rightarrow> Inl (UnknownFlag f)
      | Some ro \<Rightarrow> r_parse rest (dict_set opt (r_dest ro) (r_convert (r_type ro) v)))"

definition r_parse_args :: "string list \<Rightarrow> r_error + (string \<times> rval) list" where
  "r_parse_args args = r_parse args (map (\<lambda>ro. (r_dest ro, RNA)) option_list)"

text \<open>\<open>opt$name\<close>.\<close>

definition r_get :: "(string \<times> rval) list \<Rightarrow> string \<Rightarrow> rval" where
  "r_get opt n = (case map_of opt n of Some v \<Rightarrow> v | None \<Rightarrow> RNA)"

section \<open>The model formula and the fit\<close>

text \<open>Lines 94--96: the columns of the table other than the level and the response.\<close>

definition r_predictors :: "string list \<Rightarrow> string \<Rightarrow> string \<Rightarrow> string list" where
  "r_predictors names level response = filter (\<lambda>p. p \<noteq> response) (filter (\<lambda>p. p \<noteq> level) names)"

text \<open>Line 98, \<open>paste\<close> joining with a blank.\<close>

definition r_interc :: "string \<Rightarrow> string" where
  "r_interc level = ''(1| '' @ level @ '' )''"

text \<open>Line 99: \<open>paste(opt$response, " ~ ", paste(c(predictors, interc), collapse= "+"))\<close>.\<close>

definition r_fmla :: "string \<Rightarrow> string list \<Rightarrow> string \<Rightarrow> string" where
  "r_fmla response preds level = response @ ''  ~  '' @ py_join CHR ''+'' (preds @ [r_interc level])"

text \<open>The fit the program makes: \<open>glmer\<close> of the formula (line 100), or with \<open>-d\<close> the best
  model of \<open>dredge\<close> over it with \<open>m.lim = c(opt$minimum, opt$maximum)\<close> (lines 104--108).\<close>

datatype r_fit = Glmer string | Dredge string rval rval

text \<open>Lines 89--109 for the arguments after the script name and the column names of the
  table read at line 92.\<close>

definition r_program :: "string list \<Rightarrow> string list \<Rightarrow> r_error + r_fit" where
  "r_program args names =
     (case r_parse_args args of
        Inl e \<Rightarrow> Inl e
      | Inr opt \<Rightarrow>
          (case (r_get opt ''level'', r_get opt ''response'') of
             (RStr lv, RStr rs) \<Rightarrow>
               let fmla = r_fmla rs (r_predictors names lv rs) lv
               in (case r_get opt ''usedredge'' of
                     RBool True \<Rightarrow> Inr (Dredge fmla (r_get opt ''minimum'') (r_get opt ''maximum''))
                   | RBool False \<Rightarrow> Inr (Glmer fmla)
                   | _ \<Rightarrow> Inl UsedredgeNA)
           | (RStr lv, _) \<Rightarrow> Inl (NotGiven ''response'')
           | _ \<Rightarrow> Inl (NotGiven ''level'')))"

section \<open>The package check and the table written\<close>


fun r_check_packages :: "string list \<Rightarrow> string list \<Rightarrow> r_error + unit" where
  "r_check_packages installed [] = Inr ()"
| "r_check_packages installed (p # ps) =
     (if p \<in> set installed then r_check_packages installed ps else Inl (PackageNotFound p))"


text \<open>Lines 111--112: \<open>coefs\<close> is the data frame of the coefficients of the fitted model per
  level, with the column names \<open>cols\<close> and one row per level, its row name and the
  printed coefficients; \<open>write.table(cbind(rownames(coefs), coefs), row.names=FALSE)\<close> with
  tabs as separators writes a header of the quoted column names, the first being the
  expression \<open>rownames(coefs)\<close>, and each row with its quoted row name and the numbers
  unquoted. The numbers are kept as the text R prints for them.\<close>

definition r_write_coefs :: "string list \<Rightarrow> (string \<times> string list) list \<Rightarrow> string" where
  "r_write_coefs cols rows =
     r_table_text (map (\<lambda>c. (True, c)) (''rownames(coefs)'' # cols) #
                   map (\<lambda>(rn, vs). (True, rn) # map (\<lambda>v. (False, v)) vs) rows)"

text \<open>The integer R reads from \<open>str(maxv)\<close>, if any.\<close>

definition pyval_int :: "pyval \<Rightarrow> int option" where
  "pyval_int v = r_int_of_str (py_str_val v)"

definition r_has_type :: "r_type \<Rightarrow> rval \<Rightarrow> bool" where
  "r_has_type t v = (case (t, v) of (RCharacter, RStr _) \<Rightarrow> True | (RLogical, RBool _) \<Rightarrow> True
                       | (RInteger, RInt _) \<Rightarrow> True | _ \<Rightarrow> False)"

text \<open>The options of the example run without \<open>max_variables\<close>, four predictors.\<close>

definition example_default :: pot_options where
  "example_default = example_options\<lparr>opt_min := ''1'', opt_max := [], opt_columns := ''a,b,c,d''\<rparr>"

text \<open>The example run without \<open>-d\<close>, and R's table of its \<open>glmer\<close> fit for one subregion.\<close>

definition example_glmer :: pot_options where
  "example_glmer = example_options\<lparr>flag_d := False\<rparr>"

definition example_glmer_env :: pot_env where
  "example_glmer_env = example_env\<lparr>r_potential := r_write_coefs [''(Intercept)'', ''slope'', ''road''] [(''1'', [''0.5'', ''-2'', ''3''])]\<rparr>"

section \<open>Lemmas\<close>

lemma find_option_flags:
  "find_option ''-i'' = Some (option_list ! 0)" "find_option ''-o'' = Some (option_list ! 1)"
  "find_option ''-l'' = Some (option_list ! 2)" "find_option ''-r'' = Some (option_list ! 3)"
  "find_option ''-d'' = Some (option_list ! 4)" "find_option ''-m'' = Some (option_list ! 5)"
  "find_option ''-x'' = Some (option_list ! 6)"
  by (simp_all add: find_option_def option_list_def)

lemma r_dest_flags:
  "map r_dest option_list = [''input'', ''output'', ''level'', ''response'', ''usedredge'', ''minimum'', ''maximum'']"
  by (simp add: option_list_def r_dest_def)

lemma r_strtod_str: "r_strtod (py_str_int n) = Some (of_int n)"
proof -
  have "sign_split (py_str_int n) = (if n < 0 then -1 else 1, nat_digits (nat \<bar>n\<bar>))"
    using sign_split_digits [OF nat_digits_are_digits] by (simp add: py_str_int_def sign_split_def)
  moreover have "c1 \<noteq> CHR ''x'' \<and> c1 \<noteq> CHR ''X''" if "nat_digits k = c0 # c1 # r" for k c0 c1 r
    using nat_digits_are_digits [of k] that by (auto simp: is_digit_def)
  ultimately show ?thesis
    by (auto simp: r_strtod_def dec_literal_str split: list.split)
qed

lemma r_int_of_str_str: "r_int_range n \<Longrightarrow> r_int_of_str (py_str_int n) = Some n"
  by (simp add: r_int_of_str_def py_strip_id [OF py_str_int_no_space] r_strtod_str r_int_range_def)

lemma r_as_integer_str: "r_int_range n \<Longrightarrow> r_as_integer (py_str_int n) = RInt n"
  by (simp add: r_as_integer_def r_int_of_str_str)

lemma r_as_logical_flag: "r_as_logical (if b then ''TRUE'' else ''FALSE'') = RBool b"
  by (simp add: r_as_logical_def)

lemma r_parse_rscript_argv:
  "r_parse_args (drop 2 (rscript_argv opts rs csv pot minim maxv)) =
     Inr [(''input'', RStr csv), (''output'', RStr pot), (''level'', RStr (opt_subregions opts)),
          (''response'', RStr (opt_developed opts)), (''usedredge'', RBool (flag_d opts)),
          (''minimum'', r_as_integer (py_str_int minim)), (''maximum'', r_as_integer (py_str_val maxv))]"
  by (simp add: r_parse_args_def rscript_argv_def find_option_flags r_convert_def
      r_as_logical_flag option_list_def r_dest_def)

lemma pyval_int_str: "pyval_int maxv = Some mx \<Longrightarrow> r_as_integer (py_str_val maxv) = RInt mx"
  by (simp add: pyval_int_def r_as_integer_def)

lemma r_program_argv:
  "r_program (drop 2 (rscript_argv opts rs csv pot minim maxv)) names =
     (let fmla = r_fmla (opt_developed opts) (r_predictors names (opt_subregions opts) (opt_developed opts)) (opt_subregions opts)
      in if flag_d opts then Inr (Dredge fmla (r_as_integer (py_str_int minim)) (r_as_integer (py_str_val maxv))) else Inr (Glmer fmla))"
  by (simp add: r_program_def r_parse_rscript_argv r_get_def Let_def)

lemma r_predictors_exported:
  assumes "dev \<notin> set cols" and "sub \<notin> set cols" and "dev \<noteq> sub"
  shows "r_predictors (cols @ [dev, sub]) sub dev = cols"
proof -
  have "filter (\<lambda>p. p \<noteq> sub) cols = cols" "filter (\<lambda>p. p \<noteq> dev) cols = cols"
    using assms by (auto simp: filter_id_conv)
  then show ?thesis using assms(3) by (simp add: r_predictors_def)
qed

lemma launch_calls:
  assumes "Popen (''Rscript'' # rs # args) \<in> set (trace (pot_launch opts env minim maxv))"
    and "VDbSelect vin names sep csv \<in> set (trace (pot_launch opts env minim maxv))"
  shows "\<exists>rs' csv' pot'. args = drop 2 (rscript_argv opts rs' csv' pot' minim maxv) \<and>
           names = py_split CHR '','' (opt_columns opts) @ [opt_developed opts, opt_subregions opts]"
  using assms by (auto simp: pot_launch_def Let_def rscript_argv_def split: prod.splits)

lemma launch_members:
  assumes "tempfiles env = (ta, tb, tc)"
  shows "Popen (''Rscript'' # tb # drop 2 (rscript_argv opts tb (ta @ ''.csv'') (tc @ ''_potential.csv'') minim maxv))
           \<in> set (trace (pot_launch opts env minim maxv))"
    and "VDbSelect (opt_input opts) (py_split CHR '','' (opt_columns opts) @ [opt_developed opts, opt_subregions opts])
           ''comma'' (ta @ ''.csv'') \<in> set (trace (pot_launch opts env minim maxv))"
  using assms by (simp_all add: pot_launch_def Let_def rscript_argv_def)

lemma r_check_packages_first:
  "r_check_packages installed ps =
     (case filter (\<lambda>p. p \<notin> set installed) ps of [] \<Rightarrow> Inr () | p # _ \<Rightarrow> Inl (PackageNotFound p))"
  by (induction ps) auto

text \<open>The output file the script writes from a table of well-formed cells that R wrote.\<close>

lemma pot_script_writes:
  assumes "pot_validate opts = Inr (minim, maxv)" and "tempfiles env = (ta, tb, tc)"
    and "r_returncode env = 0" and "r_potential env = r_table_text (hdr # body)" and "length hdr \<ge> 2"
    and "\<forall>row\<in>set (hdr # body). row \<noteq> [] \<and> (\<forall>qc\<in>set row. good_cell qc)"
  shows "WriteFile (opt_output opts) (space_table ((map snd hdr)[0 := ''ID'', 1 := ''Intercept''] # map (map snd) body))
           \<in> set (fst (pot_script opts env))"
  using pot_script_launched [OF assms(1)] reformat_table [OF assms(5,6)] assms(3,4)
  by (simp add: pot_launch_def Let_def)

lemma good_cell_quoted: "good_cell (True, c) \<longleftrightarrow> (\<forall>x\<in>set c. x \<noteq> CHR 0x22 \<and> \<not> is_space x)"
  by (simp add: good_cell_def)

lemma good_cell_bare: "good_cell (False, c) \<longleftrightarrow> c \<noteq> [] \<and> (\<forall>x\<in>set c. x \<noteq> CHR 0x22 \<and> \<not> is_space x)"
  by (auto simp: good_cell_def)

lemma r_write_coefs_table:
  assumes "\<forall>c\<in>set cols. c \<noteq> [] \<and> (\<forall>x\<in>set c. x \<noteq> CHR 0x22 \<and> \<not> is_space x)"
    and "\<forall>(rn, vs)\<in>set rows. (\<forall>x\<in>set rn. x \<noteq> CHR 0x22 \<and> \<not> is_space x) \<and>
                            (\<forall>v\<in>set vs. v \<noteq> [] \<and> (\<forall>x\<in>set v. x \<noteq> CHR 0x22 \<and> \<not> is_space x))"
  obtains hdr body where "r_write_coefs (''(Intercept)'' # cols) rows = r_table_text (hdr # body)" "length hdr \<ge> 2"
    "\<forall>row\<in>set (hdr # body). row \<noteq> [] \<and> (\<forall>qc\<in>set row. good_cell qc)"
    "(map snd hdr)[0 := ''ID'', 1 := ''Intercept''] = ''ID'' # ''Intercept'' # cols"
    "map (map snd) body = map (\<lambda>(rn, vs). rn # vs) rows"
proof
  let ?hdr = "map (\<lambda>c. (True, c)) (''rownames(coefs)'' # ''(Intercept)'' # cols)"
  let ?body = "map (\<lambda>(rn, vs). (True, rn) # map (\<lambda>v. (False, v)) vs) rows"
  show "r_write_coefs (''(Intercept)'' # cols) rows = r_table_text (?hdr # ?body)" by (simp add: r_write_coefs_def)
  show "length ?hdr \<ge> 2" by simp
  have h1: "good_cell (True, ''rownames(coefs)'')" and h2: "good_cell (True, ''(Intercept)'')"
    by (simp_all add: good_cell_quoted is_space_def)
  have hc: "\<forall>qc\<in>set ?hdr. good_cell qc" using h1 h2 assms(1) by (auto simp: good_cell_quoted)
  have bc: "\<forall>row\<in>set ?body. row \<noteq> [] \<and> (\<forall>qc\<in>set row. good_cell qc)"
  proof
    fix row assume "row \<in> set ?body"
    then obtain rn vs where r: "(rn, vs) \<in> set rows" and row: "row = (True, rn) # map (\<lambda>v. (False, v)) vs" by auto
    have "(\<forall>x\<in>set rn. x \<noteq> CHR 0x22 \<and> \<not> is_space x) \<and>
          (\<forall>v\<in>set vs. v \<noteq> [] \<and> (\<forall>x\<in>set v. x \<noteq> CHR 0x22 \<and> \<not> is_space x))"
      using bspec [OF assms(2) r] by simp
    then show "row \<noteq> [] \<and> (\<forall>qc\<in>set row. good_cell qc)"
      unfolding row by (simp add: good_cell_quoted good_cell_bare)
  qed
  show "\<forall>row\<in>set (?hdr # ?body). row \<noteq> [] \<and> (\<forall>qc\<in>set row. good_cell qc)" using hc bc by simp
  show "(map snd ?hdr)[0 := ''ID'', 1 := ''Intercept''] = ''ID'' # ''Intercept'' # cols" by (simp add: comp_def)
  show "map (map snd) ?body = map (\<lambda>(rn, vs). rn # vs) rows" by (auto simp: comp_def)
qed

text \<open>Every value the Python side passes to the R program has the type that
  \<open>option_list\<close> declares for it (character, logical, integer), and none is left \<open>NA\<close>,
  whenever \<open>minim\<close> is an \<open>int\<close> of R and R reads an integer from \<open>str(maxv)\<close>.\<close>

theorem rscript_argv_typed:
  assumes "r_int_range minim" and "pyval_int maxv = Some mx"
  shows "\<exists>opt. r_parse_args (drop 2 (rscript_argv opts rs csv pot minim maxv)) = Inr opt \<and>
           list_all (\<lambda>ro. r_has_type (r_type ro) (r_get opt (r_dest ro))) option_list"
  using r_as_integer_str [OF assms(1)] pyval_int_str [OF assms(2)]
  by (simp add: r_parse_rscript_argv option_list_def r_dest_def r_get_def r_has_type_def)

text \<open>C23: the R program that the script starts reads the table it exported and fits the
  developed column against the predictor columns, with a random intercept per subregion;
  with \<open>-d\<close> it runs \<open>dredge\<close> with the bounds \<open>minim\<close> and \<open>maxv\<close> as integers, in
  whatever order they are.\<close>

theorem potential_r_fit:
  assumes "pyval_int maxv = Some mx"
    and "Popen (''Rscript'' # rs # args) \<in> set (trace (pot_launch opts env minim maxv))"
    and "VDbSelect vin names sep csv \<in> set (trace (pot_launch opts env minim maxv))"
    and "opt_developed opts \<notin> set (py_split CHR '','' (opt_columns opts))"
    and "opt_subregions opts \<notin> set (py_split CHR '','' (opt_columns opts))"
    and "opt_developed opts \<noteq> opt_subregions opts" and "r_int_range minim"
  shows "r_program args names =
           (let fmla = r_fmla (opt_developed opts) (py_split CHR '','' (opt_columns opts)) (opt_subregions opts)
            in if flag_d opts then Inr (Dredge fmla (RInt minim) (RInt mx)) else Inr (Glmer fmla))"
proof -
  obtain rs' csv' pot' where a: "args = drop 2 (rscript_argv opts rs' csv' pot' minim maxv)"
    and n: "names = py_split CHR '','' (opt_columns opts) @ [opt_developed opts, opt_subregions opts]"
    using launch_calls [OF assms(2,3)] by blast
  show ?thesis
    using r_program_argv [of opts rs' csv' pot' minim maxv names] r_predictors_exported [OF assms(4-6)]
    unfolding a n pyval_int_str [OF assms(1)] r_as_integer_str [OF assms(7)] by simp
qed

text \<open>C24: without \<open>max_variables\<close> the upper bound given to \<open>dredge\<close> is two less than
  the number of predictors R finds: line 136 subtracts the developed and subregion columns
  from a list that does not hold them yet (they are added at line 147).\<close>

theorem potential_default_max:
  assumes "pot_validate opts = Inr (minim, maxv)" and "opt_max opts = []" and "flag_d opts"
    and "Popen (''Rscript'' # rs # args) \<in> set (trace (pot_launch opts env minim maxv))"
    and "VDbSelect vin names sep csv \<in> set (trace (pot_launch opts env minim maxv))"
    and "opt_developed opts \<notin> set (py_split CHR '','' (opt_columns opts))"
    and "opt_subregions opts \<notin> set (py_split CHR '','' (opt_columns opts))"
    and "opt_developed opts \<noteq> opt_subregions opts"
    and "r_int_range minim" and "r_int_range (int (length (py_split CHR '','' (opt_columns opts))) - 2)"
  shows "\<exists>fmla. r_program args names =
           Inr (Dredge fmla (RInt minim) (RInt (int (length (r_predictors names (opt_subregions opts) (opt_developed opts))) - 2)))"
proof -
  have m: "maxv = PInt (int (length (py_split CHR '','' (opt_columns opts))) - 2)"
    using assms(1,2) by (auto simp: pot_validate_def Let_def split: option.splits if_splits)
  obtain rs' csv' pot' where a: "args = drop 2 (rscript_argv opts rs' csv' pot' minim maxv)"
    and n: "names = py_split CHR '','' (opt_columns opts) @ [opt_developed opts, opt_subregions opts]"
    using launch_calls [OF assms(4,5)] by blast
  show ?thesis
    using r_program_argv [of opts rs' csv' pot' minim maxv names] assms(3) r_predictors_exported [OF assms(6-8)]
    unfolding a n m by (simp add: Let_def r_as_integer_str [OF assms(9)] r_as_integer_str [OF assms(10)])
qed


text \<open>C25: the two languages agree on the table. Without \<open>-d\<close> the program fits one
  \<open>glmer\<close> model of the developed column on the predictor columns; when R writes the
  coefficients of such a model (the columns \<open>(Intercept)\<close> and the predictors, in the
  order of the formula, one row per subregion), the output file of the script is the
  space-separated table with the header \<open>ID Intercept\<close> followed by the columns the
  user gave, and one line per subregion: the renaming of the first two header cells at
  lines 172--173 replaces exactly the two cells R writes there.\<close>

theorem potential_glmer_output:
  assumes "pot_validate opts = Inr (minim, maxv)" and "\<not> flag_d opts" and "tempfiles env = (ta, tb, tc)"
    and "r_returncode env = 0"
    and "Popen (''Rscript'' # rs # args) \<in> set (trace (pot_launch opts env minim maxv))"
    and "VDbSelect vin names sep csv \<in> set (trace (pot_launch opts env minim maxv))"
    and "cols = py_split CHR '','' (opt_columns opts)"
    and "opt_developed opts \<notin> set cols" and "opt_subregions opts \<notin> set cols"
    and "opt_developed opts \<noteq> opt_subregions opts"
    and "r_potential env = r_write_coefs (''(Intercept)'' # cols) rows"
    and "\<forall>c\<in>set cols. c \<noteq> [] \<and> (\<forall>x\<in>set c. x \<noteq> CHR 0x22 \<and> \<not> is_space x)"
    and "\<forall>(rn, vs)\<in>set rows. (\<forall>x\<in>set rn. x \<noteq> CHR 0x22 \<and> \<not> is_space x) \<and>
                            (\<forall>v\<in>set vs. v \<noteq> [] \<and> (\<forall>x\<in>set v. x \<noteq> CHR 0x22 \<and> \<not> is_space x))"
  shows "r_program args names = Inr (Glmer (r_fmla (opt_developed opts) cols (opt_subregions opts))) \<and>
         WriteFile (opt_output opts) (space_table ((''ID'' # ''Intercept'' # cols) # map (\<lambda>(rn, vs). rn # vs) rows))
           \<in> set (fst (pot_script opts env))"
proof
  obtain rs' csv' pot' where a: "args = drop 2 (rscript_argv opts rs' csv' pot' minim maxv)"
    and n: "names = cols @ [opt_developed opts, opt_subregions opts]"
    using launch_calls [OF assms(5,6)] assms(7) by blast
  show "r_program args names = Inr (Glmer (r_fmla (opt_developed opts) cols (opt_subregions opts)))"
    using r_program_argv [of opts rs' csv' pot' minim maxv names] r_predictors_exported [OF assms(8-10)] assms(2)
    unfolding a n by (simp add: Let_def)
  obtain hdr body where t: "r_write_coefs (''(Intercept)'' # cols) rows = r_table_text (hdr # body)"
    and l: "length hdr \<ge> 2" and g: "\<forall>row\<in>set (hdr # body). row \<noteq> [] \<and> (\<forall>qc\<in>set row. good_cell qc)"
    and h: "(map snd hdr)[0 := ''ID'', 1 := ''Intercept''] = ''ID'' # ''Intercept'' # cols"
    and b: "map (map snd) body = map (\<lambda>(rn, vs). rn # vs) rows"
    using r_write_coefs_table [OF assms(12,13)] by blast
  show "WriteFile (opt_output opts) (space_table ((''ID'' # ''Intercept'' # cols) # map (\<lambda>(rn, vs). rn # vs) rows))
          \<in> set (fst (pot_script opts env))"
    using pot_script_writes [OF assms(1,3,4) _ l g] assms(11) t unfolding h b by simp
qed

section \<open>Examples\<close>


lemma example_r_facts:
  "pyval_int (PStr ''2'') = Some 2" "py_split CHR '','' ''slope,road'' = [''slope'', ''road'']"
  by code_simp+

lemma example_tempfiles: "tempfiles example_env = (''/tmp/a'', ''/tmp/b'', ''/tmp/c'')"
  by (simp add: example_env_def)

theorem rscript_argv_typed_witness:
  "\<exists>opt. r_parse_args (drop 2 (rscript_argv example_options ''/tmp/b'' ''/tmp/a.csv'' ''/tmp/c_potential.csv'' 5 (PStr ''2''))) = Inr opt \<and>
     list_all (\<lambda>ro. r_has_type (r_type ro) (r_get opt (r_dest ro))) option_list"
  using rscript_argv_typed [of 5 "PStr ''2''" 2] example_r_facts by (simp add: r_int_range_def)

theorem potential_r_fit_witness:
  "r_program (drop 2 (rscript_argv example_options ''/tmp/b'' ''/tmp/a.csv'' ''/tmp/c_potential.csv'' 5 (PStr ''2'')))
     [''slope'', ''road'', ''dev'', ''county''] = Inr (Dredge ''dev  ~  slope+road+(1| county )'' (RInt 5) (RInt 2))"
  using potential_r_fit [OF example_r_facts(1) launch_members [OF example_tempfiles, where opts = example_options and minim = 5]]
    example_r_facts
  by (simp add: example_options_def r_fmla_def r_interc_def r_int_range_def)

theorem potential_default_max_witness:
  "r_program (drop 2 (rscript_argv example_default ''/tmp/b'' ''/tmp/a.csv'' ''/tmp/c_potential.csv'' 1 (PInt 2)))
     [''a'', ''b'', ''c'', ''d'', ''dev'', ''county''] = Inr (Dredge ''dev  ~  a+b+c+d+(1| county )'' (RInt 1) (RInt 2)) \<and>
   length (r_predictors [''a'', ''b'', ''c'', ''d'', ''dev'', ''county''] ''county'' ''dev'') = 4"
proof -
  have f: "py_int_of_str ''1'' = Some 1" "py_split CHR '','' ''a,b,c,d'' = [''a'', ''b'', ''c'', ''d'']" by code_simp+
  have v: "pot_validate example_default = Inr (1, PInt 2)"
    using f by (simp add: pot_validate_def example_default_def example_options_def)
  have "\<exists>fmla. r_program (drop 2 (rscript_argv example_default ''/tmp/b'' ''/tmp/a.csv'' ''/tmp/c_potential.csv'' 1 (PInt 2)))
          [''a'', ''b'', ''c'', ''d'', ''dev'', ''county''] = Inr (Dredge fmla (RInt 1) (RInt (int (length (r_predictors [''a'', ''b'', ''c'', ''d'', ''dev'', ''county''] ''county'' ''dev'')) - 2)))"
    using potential_default_max [OF v _ _ launch_members [OF example_tempfiles]] f
    by (simp add: example_default_def example_options_def example_env_def r_int_range_def)
  then show ?thesis
    by (simp add: r_program_argv r_predictors_def example_default_def example_options_def r_fmla_def r_interc_def Let_def)
qed

theorem potential_glmer_output_witness:
  "r_program (drop 2 (rscript_argv example_glmer ''/tmp/b'' ''/tmp/a.csv'' ''/tmp/c_potential.csv'' 5 (PStr ''2'')))
     [''slope'', ''road'', ''dev'', ''county''] = Inr (Glmer ''dev  ~  slope+road+(1| county )'') \<and>
   WriteFile ''potential.txt'' (space_table [[''ID'', ''Intercept'', ''slope'', ''road''], [''1'', ''0.5'', ''-2'', ''3'']])
     \<in> set (fst (pot_script example_glmer example_glmer_env))"
proof -
  have cols: "py_split CHR '','' ''slope,road'' = [''slope'', ''road'']" by code_simp
  have v: "pot_validate example_glmer = Inr (5, PStr ''2'')"
    using example_min cols by (simp add: pot_validate_def example_glmer_def example_options_def)
  have t: "tempfiles example_glmer_env = (''/tmp/a'', ''/tmp/b'', ''/tmp/c'')"
    by (simp add: example_glmer_env_def example_env_def)
  have c: "\<forall>c\<in>set [''slope'', ''road'']. c \<noteq> [] \<and> (\<forall>x\<in>set c. x \<noteq> CHR 0x22 \<and> \<not> is_space x)"
    by (simp add: is_space_def)
  have r: "\<forall>(rn, vs)\<in>set [(''1'', [''0.5'', ''-2'', ''3''])]. (\<forall>x\<in>set rn. x \<noteq> CHR 0x22 \<and> \<not> is_space x) \<and>
             (\<forall>v\<in>set vs. v \<noteq> [] \<and> (\<forall>x\<in>set v. x \<noteq> CHR 0x22 \<and> \<not> is_space x))"
    by (simp add: is_space_def)
  have o: "\<not> flag_d example_glmer" "r_returncode example_glmer_env = 0" "opt_output example_glmer = ''potential.txt''"
    "opt_columns example_glmer = ''slope,road''" "opt_developed example_glmer = ''dev''" "opt_subregions example_glmer = ''county''"
    "opt_input example_glmer = ''samples''"
    "r_potential example_glmer_env = r_write_coefs [''(Intercept)'', ''slope'', ''road''] [(''1'', [''0.5'', ''-2'', ''3''])]"
    by (simp_all add: example_glmer_def example_options_def example_glmer_env_def example_env_def)
  show ?thesis
    using potential_glmer_output [OF v o(1) t o(2) launch_members [OF t, where opts = example_glmer and minim = 5 and maxv = "PStr ''2''"]
        _ _ _ _ _ c r] cols o
    by (simp add: r_fmla_def r_interc_def)
qed

end
