(* ===== verification/Script_Options.thy ===== *)
theory Script_Options
  imports Grass_Options Plot RScript
begin

text \<open>
  From the command line to \<open>main()\<close>. For r.futures.demand.py: the options as
  \<open>main()\<close> reads them (lines 89--96), the inputs it takes from the outside world (the
  output of \<open>r.univar\<close> for each development raster, line 114, and the tables
  \<open>numpy.genfromtxt\<close> returns, lines 98--99, whose parsing is not modelled) and the
  script, the parser then \<open>main()\<close> (lines 239--241). For r.futures.potential.py: the
  options record of \<open>Potential\<close> read from the parser's dictionaries (lines 127--133) and
  the script, the parser then \<open>main()\<close> and the exit handler (lines 179--182).
\<close>

section \<open>r.futures.demand\<close>

text \<open>\<open>gutils.separator\<close> (grass.script.utils): the names of the usual separators, and
  any other string as it is.\<close>

definition gutils_separator :: "string \<Rightarrow> string" where
  "gutils_separator s =
     (if s = ''pipe'' then ''|'' else if s = ''comma'' then '','' else if s = ''space'' then '' ''
      else if s = ''tab'' \<or> s = [CHR 0x5C, CHR ''t''] then [CHR 0x09]
      else if s = ''newline'' \<or> s = [CHR 0x5C, CHR ''n''] then ''\<newline>'' else s)"

text \<open>\<open>float(each)\<close>: surrounding blanks are stripped and the rest must be a decimal
  literal with an optional fraction and exponent; other strings raise ValueError
  (\<^const>\<open>None\<close>). Python also reads the spellings \<open>inf\<close>, \<open>infinity\<close> and \<open>nan\<close> (any
  case, with a sign), which denote no real number and are left out here: they never reach
  line 96, because GRASS's \<open>check_int\<close> rejects a value of \<open>simulation_times\<close> whose first
  character after the blanks and the sign is not a digit.\<close>

definition py_float :: "string \<Rightarrow> real option" where
  "py_float s = dec_literal True (py_strip s)"

text \<open>Lines 150--166 compare the method name with \<open>'logarithmic'\<close> and
  \<open>'exponential'\<close>; every other name takes the linear branches.\<close>

definition method_of_string :: "string \<Rightarrow> regression_method" where
  "method_of_string m = (if m = ''logarithmic'' then Logarithmic else if m = ''exponential'' then Exponential else Linear)"

record demand_args =
  developments :: "string list"
  observed_file :: string
  projected_file :: string
  sep :: string
  subregions_map :: string
  method_names :: "string list"
  plot_file :: string
  sim_times :: "real list"

text \<open>Lines 89--96; only \<open>float(each)\<close> can raise.\<close>

definition demand_read :: "(string \<times> string) list \<Rightarrow> demand_args result" where
  "demand_read opts =
     (let ts = py_split CHR '','' (opt_get opts ''simulation_times'')
      in case find (\<lambda>t. py_float t = None) ts of
           Some t \<Rightarrow> Inl (BadFloatOption t)
         | None \<Rightarrow> Inr \<lparr>developments = py_split CHR '','' (opt_get opts ''development''),
                       observed_file = opt_get opts ''observed_population'',
                       projected_file = opt_get opts ''projected_population'',
                       sep = gutils_separator (opt_get opts ''separator''),
                       subregions_map = opt_get opts ''subregions'',
                       method_names = py_split CHR '','' (opt_get opts ''method''),
                       plot_file = opt_get opts ''plot'',
                       sim_times = map (\<lambda>t. the (py_float t)) ts\<rparr>)"

text \<open>What \<open>main()\<close> receives from the outside world: \<open>r.univar -gt zones=... map=...\<close>
  (line 114), \<open>numpy.genfromtxt(file, delimiter=sep, names=True)\<close> (lines 98--99) and the
  formats the installed matplotlib can save (line 215).\<close>

record demand_env =
  univar_of :: "string \<Rightarrow> string \<Rightarrow> string"
  genfromtxt :: "string \<Rightarrow> string \<Rightarrow> pop_table"
  savefig_formats :: "string list"

text \<open>The inputs of the model of \<open>main()\<close>: the raster \<open>i\<close> of line 114 is
  \<open>developments[i]\<close>, and after the check of line 105 there is one per observed time.\<close>

definition demand_input :: "demand_args \<Rightarrow> demand_env \<Rightarrow> run_input" where
  "demand_input a env =
     \<lparr>univar_outputs = map (univar_of env (subregions_map a)) (developments a),
      observed = genfromtxt env (observed_file a) (sep a),
      projected = genfromtxt env (projected_file a) (sep a),
      simulation_times = sim_times a,
      methods = map method_of_string (method_names a)\<rparr>"

text \<open>Lines 239--241: the parser, then \<open>main()\<close> with the plot option it read.\<close>

definition demand_script :: "string list \<Rightarrow> demand_env \<Rightarrow> parse_error + (string \<times> demand_event list) result" where
  "demand_script argv env =
     (case g_parser demand_decls [] argv of
        Inl e \<Rightarrow> Inl e
      | Inr (opts, fl) \<Rightarrow> Inr (res_bind (demand_read opts) (\<lambda>a. demand_run (demand_input a env) (plot_file a) (savefig_formats env))))"

section \<open>r.futures.potential\<close>

text \<open>Lines 127--133 read the dictionaries of the parser.\<close>

definition pot_options_of :: "(string \<times> string) list \<Rightarrow> (char \<times> bool) list \<Rightarrow> pot_options" where
  "pot_options_of opts fl =
     \<lparr>opt_input = opt_get opts ''input'', opt_output = opt_get opts ''output'',
      opt_columns = opt_get opts ''columns'', opt_developed = opt_get opts ''developed_column'',
      opt_subregions = opt_get opts ''subregions_column'', opt_min = opt_get opts ''min_variables'',
      opt_max = opt_get opts ''max_variables'', flag_d = flag_get fl (CHR ''d'')\<rparr>"

text \<open>Lines 179--182: the parser, then \<open>main()\<close> and the exit handler.\<close>

definition pot_cli :: "string list \<Rightarrow> pot_env \<Rightarrow> parse_error + pot_action list \<times> unit result" where
  "pot_cli argv env =
     (case g_parser potential_decls potential_flags argv of
        Inl e \<Rightarrow> Inl e
      | Inr (opts, fl) \<Rightarrow> Inr (pot_script (pot_options_of opts fl) env))"

text \<open>Example command lines: the demand script with the required options only, and the
  potential script with both bounds and \<open>-d\<close>.\<close>

definition example_demand_argv :: "string list" where
  "example_demand_argv = [''development=dev2000,dev2010'', ''subregions=counties'', ''observed_population=obs.csv'',
     ''projected_population=proj.csv'', ''simulation_times=2010,2020,2030'', ''demand=demand.txt'']"

definition example_demand_opts :: "(string \<times> string) list" where
  "example_demand_opts = [(''development'', ''dev2000,dev2010''), (''subregions'', ''counties''),
     (''observed_population'', ''obs.csv''), (''projected_population'', ''proj.csv''),
     (''simulation_times'', ''2010,2020,2030''), (''method'', ''linear,logarithmic''), (''plot'', []),
     (''demand'', ''demand.txt''), (''separator'', ''pipe'')]"

definition example_pot_argv :: "string list" where
  "example_pot_argv = [''input=samples'', ''output=potential.txt'', ''columns=slope,road'', ''developed_column=dev'',
     ''subregions_column=county'', ''min_variables=2'', ''max_variables=5'', ''-d'']"

definition example_pot_opts :: "(string \<times> string) list" where
  "example_pot_opts = [(''input'', ''samples''), (''output'', ''potential.txt''), (''columns'', ''slope,road''),
     (''developed_column'', ''dev''), (''subregions_column'', ''county''), (''min_variables'', ''2''),
     (''max_variables'', ''5'')]"

section \<open>Lemmas\<close>

lemma distinct_demand_keys: "distinct (map g_key demand_decls)"
  by (simp add: demand_decls_def g_opt_def)

lemma distinct_potential_keys: "distinct (map g_key potential_decls)"
  by (simp add: potential_decls_def g_opt_def)

lemma demand_decl_facts:
  "\<lparr>g_key = ''simulation_times'', g_type = TypeInteger, g_required = True, g_multiple = True,
     g_values = AnyValue, g_answer = []\<rparr> \<in> set demand_decls"
  "\<lparr>g_key = ''method'', g_type = TypeString, g_required = True, g_multiple = True,
     g_values = OneOf [''linear'', ''logarithmic'', ''exponential''], g_answer = ''linear,logarithmic''\<rparr> \<in> set demand_decls"
  by (simp_all add: demand_decls_def)

lemma potential_decl_facts:
  "\<lparr>g_key = ''min_variables'', g_type = TypeInteger, g_required = False, g_multiple = False,
     g_values = IntRange 1 20, g_answer = ''1''\<rparr> \<in> set potential_decls"
  "\<lparr>g_key = ''max_variables'', g_type = TypeInteger, g_required = False, g_multiple = False,
     g_values = IntRange 1 20, g_answer = []\<rparr> \<in> set potential_decls"
  by (simp_all add: potential_decls_def)

text \<open>After the parser, every method is one of the three names.\<close>

lemma demand_parsed:
  assumes "g_parser demand_decls [] argv = Inr (opts, fl)"
  shows "set (py_split CHR '','' (opt_get opts ''method'')) \<subseteq> {''linear'', ''logarithmic'', ''exponential''}"
  using g_parser_option [OF assms distinct_demand_keys demand_decl_facts(2)]
  by (fastforce simp: g_items_def check_item_def split: if_splits)

lemma method_of_string_inj: "inj_on method_of_string {''linear'', ''logarithmic'', ''exponential''}"
  by (auto simp: inj_on_def method_of_string_def)

text \<open>After the parser, \<open>min_variables\<close> is \<open>-\<close> or a text whose first number is from 1
  to 20.\<close>

lemma potential_parsed:
  assumes "g_parser potential_decls potential_flags argv = Inr (opts, fl)"
  shows "opt_get opts ''min_variables'' = ''-'' \<or>
           (\<exists>n. c_sscanf_int (opt_get opts ''min_variables'') = Some n \<and> 1 \<le> n \<and> n \<le> 20)"
  using g_parser_option [OF assms distinct_potential_keys potential_decl_facts(1)]
  by (auto simp: g_items_def check_item_def split: option.splits if_splits)

lemma py_int_dash: "py_int_of_str ''-'' = None"
  by (simp add: py_int_of_str_def py_strip_def is_space_def unsigned_digits_def)

lemma potential_min_range:
  assumes "g_parser potential_decls potential_flags argv = Inr (opts, fl)"
    and "py_int_of_str (opt_get opts ''min_variables'') = Some n"
  shows "1 \<le> n \<and> n \<le> 20"
  using potential_parsed [OF assms(1)] py_int_sscanf [OF assms(2)] assms(2) py_int_dash by auto

lemma potential_parsed_validate:
  assumes "g_parser potential_decls potential_flags argv = Inr (opts, fl)"
    and "pot_validate (pot_options_of opts fl) = Inr (minim, maxv)"
  shows "1 \<le> minim \<and> minim \<le> 20"
proof -
  have "py_int_of_str (opt_get opts ''min_variables'') = Some minim"
    using assms(2) by (auto simp: pot_validate_def pot_options_of_def Let_def split: option.splits if_splits)
  then show ?thesis by (rule potential_min_range [OF assms(1)])
qed

lemma pot_script_invalid: "pot_validate opts = Inl e \<Longrightarrow> pot_script opts env = ([], Inl e)"
  by (simp add: pot_script_def pot_main_def pot_init_def cleanup_def)

text \<open>A command line of \<open>Rscript\<close> in the trace of the script comes from the launch of
  lines 140--157 after the options were accepted.\<close>

lemma pot_script_popen:
  assumes "Popen (''Rscript'' # rs # args) \<in> set (fst (pot_script opts env))"
  shows "\<exists>minim maxv rs' csv pot. pot_validate opts = Inr (minim, maxv) \<and>
           args = drop 2 (rscript_argv opts rs' csv pot minim maxv)"
proof (cases "pot_validate opts")
  case (Inl e)
  then show ?thesis using assms pot_script_invalid by simp
next
  case (Inr v)
  then obtain minim maxv where v: "pot_validate opts = Inr (minim, maxv)" by (cases v) auto
  have "Popen (''Rscript'' # rs # args) \<notin> set (cleanup st)" for st :: pot_state
    by (auto simp: cleanup_def split: option.splits)
  then have "Popen (''Rscript'' # rs # args) \<in> set (trace (pot_launch opts env minim maxv))"
    using assms pot_script_launched [OF v] by (auto simp: Let_def split: if_splits sum.splits)
  moreover have "VDbSelect (opt_input opts) (py_split CHR '','' (opt_columns opts) @ [opt_developed opts, opt_subregions opts])
      ''comma'' (fst (tempfiles env) @ ''.csv'') \<in> set (trace (pot_launch opts env minim maxv))"
    using launch_members(2) [of env "fst (tempfiles env)" "fst (snd (tempfiles env))" "snd (snd (tempfiles env))"] by simp
  ultimately show ?thesis using launch_calls v by blast
qed

text \<open>C29: once the GRASS parser has accepted the command line, the options of
  r.futures.demand are read without error unless \<open>float(each)\<close> of line 96 raises
  ValueError on a value of \<open>simulation_times\<close>; when they are read, at least one method and
  one simulation time are given, every method is one of the three names, and distinct
  names take distinct branches of lines 150--166.\<close>

theorem demand_options_read:
  assumes "g_parser demand_decls [] argv = Inr (opts, fl)"
  shows "case demand_read opts of
           Inl e \<Rightarrow> (\<exists>t. e = BadFloatOption t \<and> t \<in> set (py_split CHR '','' (opt_get opts ''simulation_times'')) \<and>
                         py_float t = None)
         | Inr a \<Rightarrow> sim_times a \<noteq> [] \<and> method_names a \<noteq> [] \<and>
                    set (method_names a) \<subseteq> {''linear'', ''logarithmic'', ''exponential''} \<and>
                    inj_on method_of_string (set (method_names a))"
proof (cases "find (\<lambda>t. py_float t = None) (py_split CHR '','' (opt_get opts ''simulation_times''))")
  case None
  then show ?thesis
    using demand_parsed [OF assms] inj_on_subset [OF method_of_string_inj]
    by (simp add: demand_read_def Let_def)
next
  case (Some t)
  then show ?thesis using find_Some_mem [OF Some] by (simp add: demand_read_def Let_def)
qed


text \<open>C27: every \<open>Rscript\<close> command that a command line accepted by the parser leads to
  gives the R program a value of the declared type (character, logical, integer) for
  each of its options but \<open>maximum\<close>, none left \<open>NA\<close>, and a \<open>minimum\<close> from 1 to 20.\<close>

theorem pot_cli_rscript_typed:
  assumes "pot_cli argv env = Inr (acts, r)" and "Popen (''Rscript'' # rs # args) \<in> set acts"
  shows "\<exists>opt minim. r_parse_args args = Inr opt \<and> r_get opt ''minimum'' = RInt minim \<and> 1 \<le> minim \<and> minim \<le> 20 \<and>
           list_all (\<lambda>ro. r_dest ro = ''maximum'' \<or> r_has_type (r_type ro) (r_get opt (r_dest ro))) option_list"
proof -
  obtain opts fl where p: "g_parser potential_decls potential_flags argv = Inr (opts, fl)"
    and a: "acts = fst (pot_script (pot_options_of opts fl) env)"
    using assms(1) by (auto simp: pot_cli_def split: sum.splits prod.splits)
  obtain minim maxv rs' csv pot where v: "pot_validate (pot_options_of opts fl) = Inr (minim, maxv)"
    and args: "args = drop 2 (rscript_argv (pot_options_of opts fl) rs' csv pot minim maxv)"
    using pot_script_popen assms(2) a by blast
  have m: "1 \<le> minim \<and> minim \<le> 20" using potential_parsed_validate [OF p v] .
  then have "r_as_integer (py_str_int minim) = RInt minim" by (simp add: r_as_integer_str r_int_range_def)
  with m show ?thesis unfolding args
    by (simp add: r_parse_rscript_argv option_list_def r_dest_def r_get_def r_has_type_def)
qed

lemma py_float_digits:
  assumes "ds \<noteq> []" and "\<forall>c\<in>set ds. is_digit c"
  shows "py_float ds = Some (real (digits_value ds))"
  using assms dec_literal_digits(1) [OF assms] py_strip_id [of ds] is_digit_not_space
  by (auto simp: py_float_def)

text \<open>Without \<open>method=\<close> and \<open>separator=\<close> on the command line, r.futures.demand fits
  the linear and the logarithmic relation, in this order, and reads the population files
  with the separator \<open>|\<close> (the defaults of lines 61 and 75).\<close>

theorem demand_defaults:
  assumes "g_parser demand_decls [] argv = Inr (opts, fl)" and "demand_read opts = Inr a"
    and "\<forall>w\<in>set argv. takeWhile (\<lambda>c. c \<noteq> CHR ''='') w \<notin> {''method'', ''separator''}"
  shows "map method_of_string (method_names a) = [Linear, Logarithmic] \<and> sep a = ''|''"
proof -
  have m: "opt_get opts ''method'' = ''linear,logarithmic''"
    using g_parser_default [OF assms(1) distinct_demand_keys demand_decl_facts(2)] assms(3) by auto
  have "(g_opt ''separator'' False False)\<lparr>g_answer := ''pipe''\<rparr> \<in> set demand_decls"
    by (simp add: demand_decls_def)
  from g_parser_default [OF assms(1) distinct_demand_keys this] assms(3)
  have s: "opt_get opts ''separator'' = ''pipe''" by (auto simp: g_opt_def)
  have "py_split CHR '','' ''linear,logarithmic'' = [''linear'', ''logarithmic'']" by code_simp
  then show ?thesis
    using assms(2) m s by (auto simp: demand_read_def Let_def method_of_string_def gutils_separator_def split: option.splits)
qed

section \<open>Examples\<close>

lemma example_demand_parsed: "g_parser demand_decls [] example_demand_argv = Inr (example_demand_opts, [])"
  by code_simp

lemma example_pot_parsed:
  "g_parser potential_decls potential_flags example_pot_argv = Inr (example_pot_opts, [(CHR ''d'', True)])"
  by code_simp

lemma example_demand_read: "\<exists>a. demand_read example_demand_opts = Inr a"
proof -
  have "py_split CHR '','' ''2010,2020,2030'' = [''2010'', ''2020'', ''2030'']" by code_simp
  moreover have "py_float ''2010'' \<noteq> None" "py_float ''2020'' \<noteq> None" "py_float ''2030'' \<noteq> None"
    by (simp_all add: py_float_digits is_digit_def)
  ultimately show ?thesis by (simp add: demand_read_def example_demand_opts_def opt_get_def)
qed

theorem demand_options_read_witness:
  "\<exists>a. demand_read example_demand_opts = Inr a \<and> sim_times a \<noteq> [] \<and> method_names a \<noteq> [] \<and>
     set (method_names a) \<subseteq> {''linear'', ''logarithmic'', ''exponential''} \<and>
     inj_on method_of_string (set (method_names a))"
proof -
  obtain a where a: "demand_read example_demand_opts = Inr a" using example_demand_read by blast
  show ?thesis using demand_options_read [OF example_demand_parsed] a by simp
qed

theorem demand_defaults_witness:
  "map method_of_string (method_names (projr (demand_read example_demand_opts))) = [Linear, Logarithmic] \<and>
   sep (projr (demand_read example_demand_opts)) = ''|''"
proof -
  obtain a where a: "demand_read example_demand_opts = Inr a" using example_demand_read by blast
  have "\<forall>w\<in>set example_demand_argv. takeWhile (\<lambda>c. c \<noteq> CHR ''='') w \<notin> {''method'', ''separator''}"
    by code_simp
  then show ?thesis using demand_defaults [OF example_demand_parsed a] a by simp
qed


theorem pot_cli_rscript_typed_witness:
  "\<exists>opt minim. r_parse_args (drop 2 (rscript_argv (pot_options_of example_pot_opts [(CHR ''d'', True)])
            ''/tmp/b'' ''/tmp/a.csv'' ''/tmp/c_potential.csv'' 2 (PStr ''5''))) = Inr opt \<and>
     r_get opt ''minimum'' = RInt minim \<and> 1 \<le> minim \<and> minim \<le> 20 \<and>
     list_all (\<lambda>ro. r_dest ro = ''maximum'' \<or> r_has_type (r_type ro) (r_get opt (r_dest ro))) option_list"
proof -
  let ?o = "pot_options_of example_pot_opts [(CHR ''d'', True)]"
  have v: "pot_validate ?o = Inr (2, PStr ''5'')"
  proof -
    have "py_int_of_str ''2'' = Some 2" by code_simp
    then show ?thesis
      by (simp add: pot_validate_def pot_options_of_def example_pot_opts_def opt_get_def flag_get_def)
  qed
  have t: "tempfiles example_env = (''/tmp/a'', ''/tmp/b'', ''/tmp/c'')" by (simp add: example_env_def)
  have "Popen (''Rscript'' # ''/tmp/b'' # drop 2 (rscript_argv ?o ''/tmp/b'' ''/tmp/a.csv'' ''/tmp/c_potential.csv'' 2 (PStr ''5'')))
          \<in> set (fst (pot_script ?o example_env))"
    using launch_members(1) [OF t, of ?o 2 "PStr ''5''"] pot_script_launched [OF v, of example_env]
    by (auto simp: Let_def split: sum.splits)
  moreover have "pot_cli example_pot_argv example_env = Inr (pot_script ?o example_env)"
    using example_pot_parsed by (simp add: pot_cli_def)
  ultimately show ?thesis
    using pot_cli_rscript_typed [of example_pot_argv example_env "fst (pot_script ?o example_env)"
        "snd (pot_script ?o example_env)" "''/tmp/b''"] by simp
qed

text \<open>C31: the GRASS parser lets through values of \<open>simulation_times\<close>, an option declared
  \<open>type: integer\<close>, that are not integers: \<open>2010.5\<close> is read by \<open>float()\<close> as the time
  2010.5, and \<open>2020x\<close> (whose first number \<open>sscanf\<close> reads) makes line 96 raise
  ValueError after the parser accepted it.\<close>

theorem demand_parser_non_integer_times:
  "g_parser demand_decls [] (example_demand_argv[4 := ''simulation_times=2010.5,2020x'']) =
     Inr (example_demand_opts[4 := (''simulation_times'', ''2010.5,2020x'')], []) \<and>
   demand_read (example_demand_opts[4 := (''simulation_times'', ''2010.5,2020x'')]) = Inl (BadFloatOption ''2020x'') \<and>
   g_parser demand_decls [] (example_demand_argv[4 := ''simulation_times=2010.5,2020'']) =
     Inr (example_demand_opts[4 := (''simulation_times'', ''2010.5,2020'')], []) \<and>
   map_sum id sim_times (demand_read (example_demand_opts[4 := (''simulation_times'', ''2010.5,2020'')])) = Inr [2010.5, 2020]"
proof -
  have p1: "g_parser demand_decls [] (example_demand_argv[4 := ''simulation_times=2010.5,2020x'']) =
     Inr (example_demand_opts[4 := (''simulation_times'', ''2010.5,2020x'')], [])" by code_simp
  have p2: "g_parser demand_decls [] (example_demand_argv[4 := ''simulation_times=2010.5,2020'']) =
     Inr (example_demand_opts[4 := (''simulation_times'', ''2010.5,2020'')], [])" by code_simp
  have s1: "py_split CHR '','' ''2010.5,2020x'' = [''2010.5'', ''2020x'']"
    and s2: "py_split CHR '','' ''2010.5,2020'' = [''2010.5'', ''2020'']" by code_simp+
  have f: "py_float ''2010.5'' = Some 2010.5" "py_float ''2020x'' = None" "py_float ''2020'' = Some 2020"
    by (simp_all add: py_float_def py_strip_def is_space_def dec_literal_def sign_split_def is_digit_def
        digits_value_def digit_val_def)
  have r1: "demand_read (example_demand_opts[4 := (''simulation_times'', ''2010.5,2020x'')]) = Inl (BadFloatOption ''2020x'')"
    using s1 f by (simp add: demand_read_def example_demand_opts_def opt_get_def)
  have r2: "map_sum id sim_times (demand_read (example_demand_opts[4 := (''simulation_times'', ''2010.5,2020'')])) = Inr [2010.5, 2020]"
    using s2 f by (simp add: demand_read_def example_demand_opts_def opt_get_def)
  show ?thesis using p1 p2 r1 r2 by simp
qed

text \<open>C30: the range \<open>1-20\<close> of \<open>min_variables\<close> and \<open>max_variables\<close> checks only the
  first number of the text: \<open>min_variables=5x\<close> passes the parser and makes \<open>int()\<close> of
  line 131 raise ValueError; \<open>max_variables=5x\<close> passes the parser and line 137 and reaches
  R, whose \<open>as.integer\<close> reads it as \<open>NA\<close>; \<open>max_variables=2e1\<close> passes as 2 and R
  reads it as 20.\<close>

theorem potential_parser_unchecked_bounds:
  "g_parser potential_decls potential_flags (example_pot_argv[5 := ''min_variables=5x'']) =
     Inr (example_pot_opts[5 := (''min_variables'', ''5x'')], [(CHR ''d'', True)]) \<and>
   pot_validate (pot_options_of (example_pot_opts[5 := (''min_variables'', ''5x'')]) [(CHR ''d'', True)]) = Inl (BadIntOption ''5x'') \<and>
   g_parser potential_decls potential_flags (example_pot_argv[6 := ''max_variables=5x'']) =
     Inr (example_pot_opts[6 := (''max_variables'', ''5x'')], [(CHR ''d'', True)]) \<and>
   pot_validate (pot_options_of (example_pot_opts[6 := (''max_variables'', ''5x'')]) [(CHR ''d'', True)]) = Inr (2, PStr ''5x'') \<and>
   r_as_integer ''5x'' = RNA \<and>
   g_parser potential_decls potential_flags (example_pot_argv[6 := ''max_variables=2e1'']) =
     Inr (example_pot_opts[6 := (''max_variables'', ''2e1'')], [(CHR ''d'', True)]) \<and>
   r_as_integer ''2e1'' = RInt 20"
proof -
  have p: "g_parser potential_decls potential_flags (example_pot_argv[5 := ''min_variables=5x'']) =
     Inr (example_pot_opts[5 := (''min_variables'', ''5x'')], [(CHR ''d'', True)])"
    "g_parser potential_decls potential_flags (example_pot_argv[6 := ''max_variables=5x'']) =
     Inr (example_pot_opts[6 := (''max_variables'', ''5x'')], [(CHR ''d'', True)])"
    "g_parser potential_decls potential_flags (example_pot_argv[6 := ''max_variables=2e1'']) =
     Inr (example_pot_opts[6 := (''max_variables'', ''2e1'')], [(CHR ''d'', True)])"
    by code_simp+
  have i: "py_int_of_str ''5x'' = None" "py_int_of_str ''2'' = Some 2" by code_simp+
  have v: "pot_validate (pot_options_of (example_pot_opts[5 := (''min_variables'', ''5x'')]) [(CHR ''d'', True)]) = Inl (BadIntOption ''5x'')"
    "pot_validate (pot_options_of (example_pot_opts[6 := (''max_variables'', ''5x'')]) [(CHR ''d'', True)]) = Inr (2, PStr ''5x'')"
    using i by (simp_all add: pot_validate_def pot_options_of_def example_pot_opts_def opt_get_def flag_get_def)
  have r: "r_as_integer ''5x'' = RNA" "r_as_integer ''2e1'' = RInt 20"
    by (simp_all add: r_as_integer_def r_int_of_str_def r_strtod_def dec_literal_def sign_split_def py_strip_def
        is_space_def is_digit_def digits_value_def digit_val_def py_trunc_def)
  show ?thesis using p v r by simp
qed
end
