(* ===== verification/Interp_Search.thy ===== *)
theory Interp_Search
  imports Interp "HOL-Library.While_Combinator"
begin

text \<open>
  How \<open>numpy.interp\<close>, called at r.futures.demand.py lines 129--132, finds the segment of
  a target time: \<open>binary_search_with_guess\<close> of NumPy's \<open>compiled_base.c\<close>. Its final
  bisection loop keeps \<open>imin < imax\<close>, tests \<open>key >= arr[imid]\<close> at the midpoint and moves
  one bound; the index is \<open>imin - 1\<close>. For increasing sample times its other strategies (a
  linear scan of short arrays, a guess from the previous target) return the same index,
  the number of samples not above the key less one. The loop is modelled as a
  \<^const>\<open>while_option\<close>, so that it might in principle not return; the first theorem below
  shows that it always does. The second shows that NumPy's computation of one interpolated
  value is the scan \<^const>\<open>interp_seg\<close> of \<open>Interp\<close>, on which the other theorems rest.
\<close>

definition bisect_step :: "real \<Rightarrow> real list \<Rightarrow> nat \<times> nat \<Rightarrow> nat \<times> nat" where
  "bisect_step key arr st =
     (case st of (imin, imax) \<Rightarrow>
        let imid = imin + (imax - imin) div 2
        in if arr ! imid \<le> key then (Suc imid, imax) else (imin, imid))"

definition np_bisect :: "real \<Rightarrow> real list \<Rightarrow> nat option" where
  "np_bisect key arr =
     map_option fst (while_option (\<lambda>(imin, imax). imin < imax) (bisect_step key arr) (0, length arr))"

text \<open>One target time \<open>x\<close>, for non-empty samples (\<open>arr_interp\<close> of \<open>compiled_base.c\<close>):
  beyond the last time the last value, before the first the first value, otherwise the
  segment \<open>j\<close> of the search, its value at an end point and the slope formula inside.\<close>

definition np_interp_point :: "real \<Rightarrow> real list \<Rightarrow> real list \<Rightarrow> real option" where
  "np_interp_point x xp fp =
     (let n = length xp
      in if xp ! (n - 1) < x then Some (fp ! (n - 1))
         else if x < xp ! 0 then Some (fp ! 0)
         else map_option (\<lambda>i. let j = i - 1 in
                if j = n - 1 then fp ! j
                else if xp ! j = x then fp ! j
                else (fp ! Suc j - fp ! j) / (xp ! Suc j - xp ! j) * (x - xp ! j) + fp ! j)
                (np_bisect x xp))"

section \<open>Lemmas\<close>

text \<open>The invariant of the bisection: the samples below \<open>imin\<close> are not above the key, those
  from \<open>imax\<close> on are above it.\<close>

definition bisect_inv :: "real \<Rightarrow> real list \<Rightarrow> nat \<times> nat \<Rightarrow> bool" where
  "bisect_inv key arr st \<longleftrightarrow>
     (case st of (imin, imax) \<Rightarrow>
        imin \<le> imax \<and> imax \<le> length arr \<and> (\<forall>i < imin. arr ! i \<le> key) \<and>
        (\<forall>i. imax \<le> i \<and> i < length arr \<longrightarrow> key < arr ! i))"

lemma bisect_step_less:
  "imin < imax \<Longrightarrow> bisect_step key arr (imin, imax) = (lo', hi') \<Longrightarrow> hi' - lo' < imax - imin"
  by (auto simp: bisect_step_def Let_def split: if_splits)

lemma bisect_step_inv:
  assumes "sorted arr" and "bisect_inv key arr (imin, imax)" and "imin < imax"
  shows "bisect_inv key arr (bisect_step key arr (imin, imax))"
proof -
  let ?m = "imin + (imax - imin) div 2"
  have m: "imin \<le> ?m" "?m < imax" "?m < length arr" using assms(2,3) by (auto simp: bisect_inv_def)
  show ?thesis
  proof (cases "arr ! ?m \<le> key")
    case True
    have "arr ! i \<le> key" if "i < Suc ?m" for i
    proof (cases "i < imin")
      case True with assms(2) show ?thesis by (auto simp: bisect_inv_def)
    next
      case False
      then have "arr ! i \<le> arr ! ?m" using that m assms(1) by (auto intro: sorted_nth_mono)
      with \<open>arr ! ?m \<le> key\<close> show ?thesis by simp
    qed
    with True m assms(2) show ?thesis by (auto simp: bisect_step_def bisect_inv_def Let_def)
  next
    case False
    have "key < arr ! i" if "?m \<le> i" "i < length arr" for i
      using that False assms(1) sorted_nth_mono [OF assms(1) that] by simp
    with False m assms(2) show ?thesis by (auto simp: bisect_step_def bisect_inv_def Let_def)
  qed
qed

lemma np_bisect_count:
  assumes "sorted arr"
  shows "\<exists>k. np_bisect key arr = Some k \<and> k \<le> length arr \<and> (\<forall>i < k. arr ! i \<le> key) \<and>
           (\<forall>i. k \<le> i \<and> i < length arr \<longrightarrow> key < arr ! i)"
proof -
  let ?b = "\<lambda>(imin, imax). imin < (imax :: nat)"
  have init: "bisect_inv key arr (0, length arr)" by (simp add: bisect_inv_def)
  have step: "bisect_inv key arr (bisect_step key arr s) \<and>
                (case bisect_step key arr s of (lo, hi) \<Rightarrow> hi - lo) < (case s of (lo, hi) \<Rightarrow> hi - lo)"
    if "bisect_inv key arr s" "?b s" for s
  proof -
    obtain lo hi where s: "s = (lo, hi)" by (cases s)
    obtain lo' hi' where s': "bisect_step key arr (lo, hi) = (lo', hi')" by (cases "bisect_step key arr (lo, hi)")
    have "lo < hi" using that(2) s by simp
    then have "bisect_inv key arr (lo', hi')" "hi' - lo' < hi - lo"
      using bisect_step_inv [OF assms, of key lo hi] bisect_step_less [of lo hi key arr lo' hi'] that(1) s s'
      by simp_all
    then show ?thesis using s s' by simp
  qed
  obtain t where t: "while_option ?b (bisect_step key arr) (0, length arr) = Some t"
    using measure_while_option_Some [where P = "bisect_inv key arr" and f = "\<lambda>(lo, hi). hi - lo", OF step init]
    by blast
  have inv: "bisect_inv key arr t"
    using while_option_rule [OF _ t, where P = "bisect_inv key arr"] init step by blast
  have "\<not> ?b t" using while_option_stop [OF t] .
  with inv obtain k where "t = (k, k)" by (cases t) (auto simp: bisect_inv_def)
  with inv t show ?thesis by (auto simp: np_bisect_def bisect_inv_def)
qed

lemma interp_seg_at:
  assumes "sorted_wrt (<) (map fst ps)" and "Suc j < length ps" and "fst (ps ! j) \<le> x" and "x < fst (ps ! Suc j)"
  shows "interp_seg x ps =
           (if x = fst (ps ! j) then snd (ps ! j)
            else (snd (ps ! Suc j) - snd (ps ! j)) / (fst (ps ! Suc j) - fst (ps ! j)) * (x - fst (ps ! j)) + snd (ps ! j))"
  using assms
proof (induction x ps arbitrary: j rule: interp_seg.induct)
  case (3 x x0 f0 x1 f1 ps)
  show ?case
  proof (cases j)
    case 0
    with "3.prems" show ?thesis by auto
  next
    case (Suc j')
    have lt: "\<forall>p\<in>set ps. x1 < fst p" using "3.prems"(1) by simp
    have "x1 \<le> fst (((x1, f1) # ps) ! j')"
    proof (cases j')
      case (Suc n)
      then have "ps ! n \<in> set ps" using "3.prems"(2) \<open>j = Suc j'\<close> by simp
      with lt Suc show ?thesis by (simp add: less_imp_le)
    qed simp
    with "3.prems"(3) Suc have "\<not> x < x1" by simp
    with "3.IH" [of j'] "3.prems" Suc show ?thesis by simp
  qed
qed auto


text \<open>Within the samples the bisection finds the segment of \<open>x\<close>, where the formula of
  \<open>arr_interp\<close> and the scan agree.\<close>

lemma np_interp_point_inside:
  assumes sorted: "sorted_wrt (<) xp" and len: "length fp = length xp" and ne: "xp \<noteq> []"
    and right: "\<not> xp ! (length xp - 1) < x" and left: "\<not> x < xp ! 0"
  shows "np_interp_point x xp fp = Some (interp_seg x (zip xp fp))"
proof -
  let ?ps = "zip xp fp" and ?n = "length xp"
  have facts: "?ps \<noteq> []" "sorted_wrt (<) (map fst ?ps)" "last ?ps = (last xp, last fp)"
    using zip_sorted_facts [OF sorted len ne] by simp_all
  have fne: "fp \<noteq> []" using ne len by auto
  have last: "last xp = xp ! (?n - 1)" "last fp = fp ! (?n - 1)" using ne fne len by (simp_all add: last_conv_nth)
  have nth: "?ps ! i = (xp ! i, fp ! i)" if "i < ?n" for i using that len by simp
  obtain k where k: "np_bisect x xp = Some k" "k \<le> ?n" "\<forall>i < k. xp ! i \<le> x"
    "\<forall>i. k \<le> i \<and> i < ?n \<longrightarrow> x < xp ! i"
    using np_bisect_count [OF strict_sorted_imp_sorted [OF sorted]] by blast
  have "0 < k" using k(4) left ne by (cases k) auto
  define j where "j = k - 1"
  have j: "j < ?n" "xp ! j \<le> x" using k(2,3) \<open>0 < k\<close> by (auto simp: j_def)
  show ?thesis
  proof (cases "j = ?n - 1")
    case True
    then have "x = xp ! (?n - 1)" using j right by simp
    then show ?thesis
      using interp_seg_last [of ?ps x] zip_sorted_facts [OF sorted len ne] last True right left k(1) \<open>0 < k\<close>
      by (simp add: np_interp_point_def j_def)
  next
    case False
    then have sj: "Suc j < ?n" "x < xp ! Suc j" using j k(4) \<open>0 < k\<close> by (auto simp: j_def)
    have "interp_seg x ?ps =
            (if x = xp ! j then fp ! j
             else (fp ! Suc j - fp ! j) / (xp ! Suc j - xp ! j) * (x - xp ! j) + fp ! j)"
      using interp_seg_at [of ?ps j x] facts(2) sj j len nth [of j] nth [of "Suc j"] by simp
    moreover have "np_bisect x xp = Some (Suc j)" using k(1) \<open>0 < k\<close> by (simp add: j_def)
    ultimately show ?thesis using False right left by (simp add: np_interp_point_def Let_def)
  qed
qed

text \<open>The bisection loop of \<open>numpy.interp\<close> returns for every key and every array,
  sorted or not: \<open>imax - imin\<close> decreases at each step.\<close>

theorem np_bisect_returns: "\<exists>k. np_bisect key arr = Some k"
proof -
  have "\<exists>t. while_option (\<lambda>(imin, imax). imin < imax) (bisect_step key arr) (0, length arr) = Some t"
  proof (rule measure_while_option_Some [where P = "\<lambda>_. True" and f = "\<lambda>(lo, hi). hi - lo"])
    fix s :: "nat \<times> nat"
    assume "(\<lambda>(imin, imax). imin < imax) s"
    then show "True \<and> (case bisect_step key arr s of (lo, hi) \<Rightarrow> hi - lo) < (case s of (lo, hi) \<Rightarrow> hi - lo)"
      using bisect_step_less by (auto split: prod.splits)
  qed simp
  then show ?thesis by (auto simp: np_bisect_def)
qed

text \<open>For strictly increasing sample times NumPy's computation of an interpolated value
  (the bisection and the formula of \<open>arr_interp\<close>) is the scan \<^const>\<open>interp_seg\<close> by which
  \<^const>\<open>np_interp\<close> is modelled.\<close>

theorem np_interp_point_scan:
  assumes sorted: "sorted_wrt (<) xp" and len: "length fp = length xp" and ne: "xp \<noteq> []"
  shows "np_interp_point x xp fp = Some (interp_seg x (zip xp fp))"
proof -
  let ?ps = "zip xp fp" and ?n = "length xp"
  have facts: "?ps \<noteq> []" "sorted (map fst ?ps)" "sorted_wrt (<) (map fst ?ps)"
    "hd ?ps = (hd xp, hd fp)" "last ?ps = (last xp, last fp)"
    using zip_sorted_facts [OF sorted len ne] by simp_all
  have fne: "fp \<noteq> []" using ne len by auto
  have hd0: "hd xp = xp ! 0" "hd fp = fp ! 0" using ne fne by (simp_all add: hd_conv_nth)
  have last: "last xp = xp ! (?n - 1)" "last fp = fp ! (?n - 1)" using ne fne len by (simp_all add: last_conv_nth)
  consider (right) "xp ! (?n - 1) < x" | (left) "x < xp ! 0" | (inside) "\<not> xp ! (?n - 1) < x" "\<not> x < xp ! 0"
    by blast
  then show ?thesis
  proof cases
    case right
    then show ?thesis using interp_seg_last [of ?ps x] facts last by (simp add: np_interp_point_def)
  next
    case left
    have "\<not> xp ! (?n - 1) < x"
      using left sorted_nth_mono [OF strict_sorted_imp_sorted [OF sorted], of 0 "?n - 1"] ne by simp
    then show ?thesis using interp_seg_head [of ?ps x] facts hd0 left by (simp add: np_interp_point_def)
  next
    case inside
    then show ?thesis using np_interp_point_inside [OF sorted len ne] by blast
  qed
qed

section \<open>Examples\<close>

theorem np_interp_point_scan_witness: "np_interp_point 2002 [2000, 2005, 2010] [1000, 1500, 2000] = Some 1200"
  using np_interp_point_scan [where xp = "[2000, 2005, 2010]" and fp = "[1000, 1500, 2000]" and x = 2002] by simp

end
