(* ===== verification/Tempfiles.thy ===== *)
theory Tempfiles
  imports Potential
begin

text \<open>
  The temporary files of r.futures.potential.py as a state machine. The statements of
  \<open>main()\<close> that name or create a temporary file (lines 141--154) are steps of an
  \<open>inductive\<close> relation; any statement may raise (\<open>gscript.fatal\<close>, a failing module, an
  I/O error, an interrupt), and a statement that writes a file may raise after writing
  it. When \<open>main()\<close> returns or raises, the \<open>atexit\<close> handler \<open>cleanup()\<close> (lines 120--123,
  registered at line 181) removes the files the three globals name. The state holds the
  program point, the globals (the \<open>pot_state\<close> of \<open>Potential\<close>) and the temporary files
  on disk that the run created. \<open>gscript.tempfile()\<close> runs \<open>g.tempfile\<close>, which creates the
  file, before line 142 binds \<open>TMP_RSCRIPT\<close> to its name: the two are separate steps.
\<close>

text \<open>The program points: before each statement that touches a temporary file, after
  \<open>main()\<close> returned or raised, and after the exit handler ran.\<close>

datatype pot_pc = AtMain | AtCsvName | AtRscript | AtRscriptBind | AtWriteR | AtPotName | AtExport | AtRun
  | AtRewrite | Returned | Raised | Exited

record proc_state =
  pc :: pot_pc
  glob :: pot_state
  disk :: "string set"

definition proc_init :: proc_state where
  "proc_init = \<lparr>pc = AtMain, glob = pot_init, disk = {}\<rparr>"

text \<open>The files \<open>cleanup()\<close> removes from a state of the globals.\<close>

definition removed :: "pot_state \<Rightarrow> string set" where
  "removed g = {f. RemoveFile f \<in> set (cleanup g)}"

text \<open>
  \<^item> \<open>validate\<close>: lines 127--138, no file touched;
  \<^item> \<open>csv_name\<close>: line 141, \<open>TMP_CSV = gscript.tempfile(create=False) + '.csv'\<close>, a name only;
  \<^item> \<open>rscript\<close>: line 142, \<open>gscript.tempfile()\<close> creates the file;
  \<^item> \<open>rscript_bind\<close>: line 142, \<open>TMP_RSCRIPT\<close> is bound to its name;
  \<^item> \<open>write_r\<close>: lines 143--144 write the R program into it;
  \<^item> \<open>pot_name\<close>: line 145, \<open>TMP_POT\<close>, a name only;
  \<^item> \<open>export\<close>, \<open>export_fail\<close>: line 148, \<open>v.db.select\<close> writes \<open>TMP_CSV\<close>, and may fail after;
  \<^item> \<open>run\<close>, \<open>run_fail\<close>: lines 154--160, R writes \<open>TMP_POT\<close>, and may exit non-zero after;
  \<^item> \<open>rewrite\<close>: lines 162--176, only the output file, which is not temporary, is written;
  \<^item> \<open>raise\<close>: any statement raises before its effect;
  \<^item> \<open>exit\<close>: the \<open>atexit\<close> handler after \<open>main()\<close> returned or raised.\<close>

inductive pot_step :: "pot_env \<Rightarrow> proc_state \<Rightarrow> proc_state \<Rightarrow> bool" for env where
  validate: "pc s = AtMain \<Longrightarrow> pot_step env s (s\<lparr>pc := AtCsvName\<rparr>)"
| csv_name: "pc s = AtCsvName \<Longrightarrow> tempfiles env = (ta, tb, tc) \<Longrightarrow>
     pot_step env s (s\<lparr>pc := AtRscript, glob := (glob s)\<lparr>tmp_csv := Some (ta @ ''.csv'')\<rparr>\<rparr>)"
| rscript: "pc s = AtRscript \<Longrightarrow> tempfiles env = (ta, tb, tc) \<Longrightarrow>
     pot_step env s (s\<lparr>pc := AtRscriptBind, disk := insert tb (disk s)\<rparr>)"
| rscript_bind: "pc s = AtRscriptBind \<Longrightarrow> tempfiles env = (ta, tb, tc) \<Longrightarrow>
     pot_step env s (s\<lparr>pc := AtWriteR, glob := (glob s)\<lparr>tmp_rscript := Some tb\<rparr>\<rparr>)"
| write_r: "pc s = AtWriteR \<Longrightarrow> pot_step env s (s\<lparr>pc := AtPotName\<rparr>)"
| pot_name: "pc s = AtPotName \<Longrightarrow> tempfiles env = (ta, tb, tc) \<Longrightarrow>
     pot_step env s (s\<lparr>pc := AtExport, glob := (glob s)\<lparr>tmp_pot := Some (tc @ ''_potential.csv'')\<rparr>\<rparr>)"
| export: "pc s = AtExport \<Longrightarrow> tmp_csv (glob s) = Some f \<Longrightarrow>
     pot_step env s (s\<lparr>pc := AtRun, disk := insert f (disk s)\<rparr>)"
| export_fail: "pc s = AtExport \<Longrightarrow> tmp_csv (glob s) = Some f \<Longrightarrow>
     pot_step env s (s\<lparr>pc := Raised, disk := insert f (disk s)\<rparr>)"
| run: "pc s = AtRun \<Longrightarrow> tmp_pot (glob s) = Some f \<Longrightarrow>
     pot_step env s (s\<lparr>pc := AtRewrite, disk := insert f (disk s)\<rparr>)"
| run_fail: "pc s = AtRun \<Longrightarrow> tmp_pot (glob s) = Some f \<Longrightarrow>
     pot_step env s (s\<lparr>pc := Raised, disk := insert f (disk s)\<rparr>)"
| rewrite: "pc s = AtRewrite \<Longrightarrow> pot_step env s (s\<lparr>pc := Returned\<rparr>)"
| raise: "pc s \<notin> {Returned, Raised, Exited} \<Longrightarrow> pot_step env s (s\<lparr>pc := Raised\<rparr>)"
| exit: "pc s \<in> {Returned, Raised} \<Longrightarrow> pot_step env s (s\<lparr>pc := Exited, disk := disk s - removed (glob s)\<rparr>)"

definition reachable :: "pot_env \<Rightarrow> proc_state \<Rightarrow> bool" where
  "reachable env s \<longleftrightarrow> (pot_step env)\<^sup>*\<^sup>* proc_init s"

text \<open>How far \<open>main()\<close> has got: the globals not yet assigned are still \<open>None\<close>.\<close>

fun stage :: "pot_pc \<Rightarrow> nat" where
  "stage AtMain = 0" | "stage AtCsvName = 1" | "stage AtRscript = 2" | "stage AtRscriptBind = 3"
| "stage AtWriteR = 4" | "stage AtPotName = 5" | "stage AtExport = 6" | "stage AtRun = 7"
| "stage AtRewrite = 8" | "stage Returned = 9" | "stage Raised = 10" | "stage Exited = 11"

text \<open>The file \<open>g.tempfile\<close> creates for the R script, and the set of it while
  \<open>TMP_RSCRIPT\<close> is still unbound: a file on disk that no global names.\<close>

definition rscript_file :: "pot_env \<Rightarrow> string" where
  "rscript_file env = fst (snd (tempfiles env))"






section \<open>Lemmas\<close>

lemma removed_simps:
  "removed g = {f. tmp_csv g = Some f \<or> tmp_pot g = Some f \<or> tmp_rscript g = Some f}"
  by (auto simp: removed_def cleanup_def split: option.splits)




lemma reachable_init: "reachable env proc_init"
  by (simp add: reachable_def)

lemma reachable_step: "reachable env s \<Longrightarrow> pot_step env s s' \<Longrightarrow> reachable env s'"
  unfolding reachable_def by (rule rtranclp.rtrancl_into_rtrancl)

lemma pot_step_stage: "pot_step env s s' \<Longrightarrow> stage (pc s) < stage (pc s')"
proof (induction rule: pot_step.induct)
  case (raise s)
  then show ?case by (cases "pc s") simp_all
next
  case (exit s)
  then show ?case by auto
qed simp_all

lemma stage_le: "stage p \<le> 11"
  by (cases p) simp_all

lemma exited_final:
  assumes "pc s = Exited"
  shows "\<not> pot_step env s s'"
proof
  assume "pot_step env s s'"
  then have "stage (pc s) < stage (pc s')" by (rule pot_step_stage)
  with assms stage_le [of "pc s'"] show False by simp
qed

lemma reaches_exit_from_end:
  assumes "pc s \<in> {Returned, Raised}"
  shows "\<exists>s'. (pot_step env)\<^sup>*\<^sup>* s s' \<and> pc s' = Exited"
proof
  let ?s' = "s\<lparr>pc := Exited, disk := disk s - removed (glob s)\<rparr>"
  have "pot_step env s ?s'" using assms by (rule pot_step.exit)
  then show "(pot_step env)\<^sup>*\<^sup>* s ?s' \<and> pc ?s' = Exited" by simp
qed

text \<open>From every point of the run the exit handler can still be reached.\<close>

lemma pot_run_can_exit: "reachable env s \<Longrightarrow> \<exists>s'. (pot_step env)\<^sup>*\<^sup>* s s' \<and> pc s' = Exited"
proof (cases "pc s \<in> {Returned, Raised, Exited}")
  case True
  then consider "pc s \<in> {Returned, Raised}" | "pc s = Exited" by blast
  then show ?thesis using reaches_exit_from_end by cases blast+
next
  case False
  then have "pot_step env s (s\<lparr>pc := Raised\<rparr>)" by (rule pot_step.raise)
  moreover obtain s' where "(pot_step env)\<^sup>*\<^sup>* (s\<lparr>pc := Raised\<rparr>) s'" "pc s' = Exited"
    using reaches_exit_from_end [of "s\<lparr>pc := Raised\<rparr>"] by auto
  ultimately show ?thesis by (blast intro: converse_rtranclp_into_rtranclp)
qed

text \<open>Every run is finite.\<close>

lemma pot_step_terminates: "wfP (\<lambda>s' s. pot_step env s s')"
proof (rule wfp_if_convertible_to_nat)
  show "pot_step env s s' \<Longrightarrow> 11 - stage (pc s') < 11 - stage (pc s)" for s s'
    using pot_step_stage [of env s s'] by (cases "pc s'") simp_all
qed



text \<open>C20: that file is left behind on some run: an exception between the creation of the
  file by \<open>g.tempfile\<close> and the binding of \<open>TMP_RSCRIPT\<close> (an interrupt while line 142
  reads the name) ends the run with the file on disk, which \<open>cleanup()\<close> does not know.\<close>

theorem rscript_file_leaks:
  assumes "rscript_file env \<noteq> fst (tempfiles env) @ ''.csv''"
  shows "\<exists>s. reachable env s \<and> pc s = Exited \<and> disk s = {rscript_file env}"
proof -
  obtain ta tb tc where t: "tempfiles env = (ta, tb, tc)" by (cases "tempfiles env") auto
  have tb: "rscript_file env = tb" using t by (simp add: rscript_file_def)
  define g1 where "g1 = pot_init\<lparr>tmp_csv := Some (ta @ ''.csv'')\<rparr>"
  have "reachable env \<lparr>pc = AtCsvName, glob = pot_init, disk = {}\<rparr>"
    using reachable_step [OF reachable_init pot_step.validate [of proc_init]] by (simp add: proc_init_def)
  moreover have "pot_step env \<lparr>pc = AtCsvName, glob = pot_init, disk = {}\<rparr> \<lparr>pc = AtRscript, glob = g1, disk = {}\<rparr>"
    using pot_step.csv_name [OF _ t, of "\<lparr>pc = AtCsvName, glob = pot_init, disk = {}\<rparr>"] by (simp add: g1_def)
  moreover have "pot_step env \<lparr>pc = AtRscript, glob = g1, disk = {}\<rparr> \<lparr>pc = AtRscriptBind, glob = g1, disk = {tb}\<rparr>"
    using pot_step.rscript [OF _ t, of "\<lparr>pc = AtRscript, glob = g1, disk = {}\<rparr>"] by simp
  moreover have "pot_step env \<lparr>pc = AtRscriptBind, glob = g1, disk = {tb}\<rparr> \<lparr>pc = Raised, glob = g1, disk = {tb}\<rparr>"
    using pot_step.raise [of "\<lparr>pc = AtRscriptBind, glob = g1, disk = {tb}\<rparr>"] by simp
  moreover have "pot_step env \<lparr>pc = Raised, glob = g1, disk = {tb}\<rparr> \<lparr>pc = Exited, glob = g1, disk = {tb}\<rparr>"
  proof -
    have "{tb} - removed g1 = {tb}" using assms t tb by (auto simp: removed_simps g1_def pot_init_def)
    then show ?thesis using pot_step.exit [of "\<lparr>pc = Raised, glob = g1, disk = {tb}\<rparr>"] by simp
  qed
  ultimately have "reachable env \<lparr>pc = Exited, glob = g1, disk = {tb}\<rparr>" by (meson reachable_step)
  then show ?thesis using tb by fastforce
qed

section \<open>Examples\<close>







theorem rscript_file_leaks_witness:
  "\<exists>s. reachable example_env s \<and> pc s = Exited \<and> disk s = {''/tmp/b''}"
proof -
  have "rscript_file example_env \<noteq> fst (tempfiles example_env) @ ''.csv''" "rscript_file example_env = ''/tmp/b''"
    by (simp_all add: rscript_file_def example_env_def)
  with rscript_file_leaks [of example_env] show ?thesis by simp
qed

end
