(* ===== verification/Spec2Isabelle.thy ===== *)
theory Spec2Isabelle
  imports Script_Options Interp_Search Tempfiles
begin

text \<open>
  \<^bold>\<open>r.futures.demand and r.futures.potential, modelled in HOL.\<close>

  The repository holds two GRASS GIS scripts of the FUTURES land-change model.
  \<^item> src/r.futures/r.futures.demand/r.futures.demand.py computes the demand table: how many
    cells each subregion develops per simulation step. \<open>main()\<close> (lines 88--236) counts the
    developed cells of every subregion in each development raster (through \<open>r.univar\<close>),
    interpolates the population of every subregion at the simulation times, fits for every
    subregion a relation between population and developed cells by each requested method
    (linear, logarithmic, exponential) with \<open>numpy.linalg.lstsq\<close>, keeps the method of least
    RMSE, takes the first difference of its predictions, clamps it at zero and writes the
    table with one row per simulation time after the first.
  \<^item> src/r.futures/r.futures.potential/r.futures.potential.py writes a CSV of sampled
    predictors, runs an R script (a \<open>glmer\<close> model, optionally chosen by \<open>dredge\<close>) and
    reformats its coefficient table; \<open>cleanup()\<close> removes the temporary files at exit.

  \<^bold>\<open>Theories.\<close> Each theory models one part of r.futures.demand.py, in the order in which
  \<open>main()\<close> uses it, or the potential script; each imports the parts it calls.
  \<^item> \<open>Prelude\<close>: the error type (one constructor per exception or \<open>gcore.fatal\<close> of the
    script), \<open>'a result = error + 'a\<close> with \<open>res_bind\<close>, and the Python and NumPy built-ins
    the script calls: \<open>str.split\<close> (\<open>py_split\<close>), \<open>str.join\<close> (\<open>py_join\<close>),
    \<open>str.splitlines\<close> (\<open>py_splitlines\<close>), \<open>str(int)\<close> (\<open>py_str_int\<close>), \<open>int(str)\<close>
    (\<open>py_int_of_str\<close>), \<open>int(float)\<close> (\<open>py_trunc\<close>), \<open>numpy.diff\<close> (\<open>np_diff\<close>) and
    dictionary assignment (\<open>dict_set\<close>, on association lists kept in insertion order).
  \<^item> \<open>Univar\<close> (lines 108--125): the state \<open>dev_state\<close> holds \<open>table_developed\<close> and
    \<open>subregionIds\<close>; \<open>parse_univar_line\<close> reads one line of \<open>r.univar\<close> output,
    \<open>add_zone\<close> is the body of the inner loop, \<open>gather_lines\<close> and \<open>gather_rasters\<close> the two
    loops and \<open>gather_developed\<close> the whole block with the final \<open>sorted\<close>.
  \<^item> \<open>Interp\<close> (lines 126--132): \<open>np_interp\<close> is \<open>numpy.interp\<close> (a scan over the segments,
    \<open>interp_seg\<close>), \<open>pop_column\<close> and \<open>time_column\<close> read a population table as
    \<open>numpy.genfromtxt(names=True)\<close> returns it, \<open>interp_subregions\<close> is the loop.
  \<^item> \<open>Interp_Search\<close>: how NumPy computes one interpolated value, its bisection loop
    \<open>np_bisect\<close> (a \<open>while_option\<close> over \<open>bisect_step\<close>) and the formula of \<open>arr_interp\<close>
    (\<open>np_interp_point\<close>); the loop always returns, and for increasing sample times the value
    is the scan \<open>interp_seg\<close> that \<open>np_interp\<close> uses.
  \<^item> \<open>Lstsq\<close> (lines 156--157): \<open>np_lstsq\<close> is \<open>lstsq\<close> on the design matrix \<open>[x, 1]\<close>:
    the normal equations when the predictor values are not all equal, the minimum-norm
    solution when they are. \<open>ssr\<close> and \<open>is_lsq_solution\<close> are its specification.
  \<^item> \<open>CurveFit\<close> (lines 147--170): \<open>fit_method\<close> is one iteration of the method loop:
    \<open>transform_pop\<close>, \<open>transform_dev\<close>, \<open>np_lstsq\<close>, \<open>predict\<close>, \<open>residuals\<close> and the RMSE
    \<open>fl_rmse\<close>, whose value is a float (\<open>fl\<close>: a number, \<open>inf\<close> or \<open>nan\<close>).
  \<^item> \<open>Select\<close> (lines 141--172): the loop state \<open>reg_state\<close> holds the dictionaries
    \<open>rmse\<close>, \<open>predicted\<close>, \<open>coeff\<close> and the variable \<open>m\<close> (\<open>last_m\<close>); \<open>record_fit\<close> is one
    iteration, \<open>regress_loop\<close> the loop, \<open>py_min_key\<close> is \<open>min(rmse, key=rmse.get)\<close> with the
    IEEE comparison \<open>fl_less\<close>.
  \<^item> \<open>Demand\<close> (lines 172--183): \<open>select_method\<close>, \<open>demand_of\<close> (difference, clamp
    \<open>clamp_negative\<close>, the zero-fill on \<open>m < 0\<close>, the two warnings) and
    \<open>subregion_demand\<close>, the whole body of the subregion loop.
  \<^item> \<open>Output\<close> (lines 217--236): \<open>write_demand\<close> with \<open>write_rows\<close>, \<open>row_fields\<close> and
    \<open>demand_field\<close>; \<open>row_text\<close>, \<open>row_list\<close> and \<open>cell_value\<close> describe what a reader finds in
    the file.
  \<^item> \<open>Pipeline\<close>: \<open>demand_subregions\<close> is the loop of line 141, \<open>demand_main\<close> is \<open>main()\<close>
    without the plot; \<open>run_input\<close> holds what \<open>main\<close> reads.
  \<^item> \<open>Plot\<close> (lines 136--139, 185--215): \<open>main()\<close> with the diagnostic plot. The calls to
    matplotlib are values of \<open>plot_call\<close>; warnings and drawing calls form one sequence of
    \<open>demand_event\<close>s in program order. \<open>n_plots_of\<close> (a search for the least \<open>k\<close> with
    \<open>n \<le> k * k\<close>) is \<open>np.ceil(np.sqrt(n))\<close> of line 138, \<open>np_linspace\<close>, \<open>np_min\<close> and
    \<open>np_max\<close> the NumPy calls of lines 196--197, \<open>curve\<close> lines 198--207,
    \<open>draw_subregion\<close> one panel, \<open>plot_loop\<close> the subregion loop with the counter \<open>i\<close> and
    the drawing, \<open>demand_run\<close> the whole of \<open>main()\<close>. The script entry point
    \<open>demand_script\<close> runs \<open>demand_run\<close> with the \<open>plot\<close> option it read.
  \<^item> \<open>Potential\<close> (r.futures.potential.py lines 115--182): the options \<open>pot_options\<close>, the
    answers of the outside world \<open>pot_env\<close>, the effects \<open>pot_action\<close> and the state
    \<open>pot_state\<close> (the trace and the three temporary names); \<open>pot_validate\<close> (lines
    128--138, with the Python 2 comparison \<open>py2_gt\<close>), \<open>pot_launch\<close> (lines 140--157),
    \<open>reformat_row\<close> and \<open>reformat_lines\<close> (lines 166--176), \<open>pot_main\<close>, \<open>cleanup\<close>
    (lines 120--123) and \<open>pot_script\<close>, the run with its \<open>atexit\<close> handler.
    \<open>r_table_text\<close> is R's \<open>write.table\<close> format, against which the reformatting is proved.
  \<^item> \<open>RScript\<close> (r.futures.potential.py lines 79--109, the R program in the string
    \<open>rscript\<close>): \<open>option_list\<close> and \<open>r_parse_args\<close> (\<open>parse_args\<close> of \<open>optparse\<close> on the
    flag--value pairs of the command line, values converted to the declared type),
    \<open>r_predictors\<close>, \<open>r_interc\<close> and \<open>r_fmla\<close> (lines 94--99) and \<open>r_program\<close>, which
    returns the fit asked for: \<open>glmer\<close> of the formula, or \<open>dredge\<close> with its limits;
    \<open>r_script\<close> runs it after the check of the installed packages (lines 72--75), and
    \<open>r_write_coefs\<close> is the coefficient table of lines 111--112. The
    Python side and the R side meet in the trace: the \<open>Popen\<close> arguments and the columns
    exported by \<open>v.db.select\<close> are the R program's inputs.
  \<^item> \<open>Tempfiles\<close> (r.futures.potential.py lines 115--182): the statements of \<open>main()\<close> that
    name or create a temporary file as an \<open>inductive\<close> step relation \<open>pot_step\<close> over the
    program point, the globals and the temporary files on disk; every statement may
    raise, a statement that writes a file may raise after writing it, and the exit
    handler runs \<open>cleanup\<close> after \<open>main()\<close> returns or raises. \<open>proc_inv\<close>, strengthened with
    the globals still unassigned at each point, is the inductive invariant.
  \<^item> \<open>Grass_Options\<close>: the \<open>#%option\<close> and \<open>#%flag\<close> declarations of both scripts
    (\<open>demand_decls\<close>, demand lines 20--78; \<open>potential_decls\<close>, potential lines 20--62) and
    \<open>g_parser\<close>, the checks \<open>gcore.parser()\<close> makes before \<open>main()\<close>: known keys and flags,
    single answers, required options, defaults, integer types, ranges and option lists.
  \<^item> \<open>Script_Options\<close>: the options as each script reads them (\<open>demand_read\<close>, demand lines
    89--96, with \<open>gutils_separator\<close> and \<open>float\<close>; \<open>pot_options_of\<close>, potential lines
    127--133) and the two entry points, the parser then \<open>main()\<close> (\<open>demand_script\<close>, demand
    lines 239--241, whose inputs from \<open>r.univar\<close> and \<open>numpy.genfromtxt\<close> are a
    \<open>demand_env\<close>; \<open>pot_cli\<close>, potential lines 179--182).
  \<^item> This theory: \<open>well_formed_run\<close>, the inputs on which \<open>main()\<close> of the demand script
    succeeds, the properties of the whole pipeline and concrete runs.

  \<^bold>\<open>Correspondence.\<close> Stateful loops are functions passing their state (a record) and
  returning it, or an error. Every exception the script can raise on the modelled path is a
  constructor of \<open>error\<close>: the count check of line 105, an \<open>r.univar\<close> line too short or
  with a bad integer (line 119), a zone unknown to the first raster (line 123), a missing
  population column, \<open>numpy.interp\<close> on empty or mismatched samples, \<open>lstsq\<close> on mismatched
  series, the empty \<open>min\<close> of line 172, \<open>np.min\<close> or \<open>np.max\<close> of an empty series when
  the plot is drawn (lines 196--197), a missing demand entry at line 232. The log of a
  non-positive value (lines 151, 153, 161) is the error \<open>LogDomain\<close>: NumPy returns
  \<open>-inf\<close> or \<open>nan\<close> with a RuntimeWarning there and the script goes on with meaningless
  coefficients; the model stops, and the theorems about such inputs say so.

  \<^bold>\<open>Abstractions.\<close> Floats are real numbers: \<open>lstsq\<close>, \<open>interp\<close> and the RMSE are exact.
  Only where the script's result depends on IEEE special values is that kept: the RMSE
  divides by \<open>len(reg_pop) - 2\<close>, which is 0 for two observations (\<open>nan\<close> or \<open>inf\<close>,
  \<open>fl_rmse\<close>), and \<open>min\<close> compares with \<open>nan\<close> (\<open>fl_less\<close>). \<open>lstsq\<close>'s cut-off \<open>rcond\<close> is
  taken as exact rank. \<open>splitlines\<close> splits at the newline character only, as \<open>r.univar\<close> prints it.
  Dictionaries iterate in insertion order (Python 3.7 and later). The GRASS parser is
  modelled on command lines of \<open>key=value\<close> and \<open>-flags\<close> words with keys and listed
  values in full; \<open>float\<close> and R's \<open>as.integer\<close> on the decimal integer strings the
  parser lets through. Every loop of the two
  scripts runs over a finite list and is structural recursion, so there is no fuel; the one
  loop that is not, NumPy's bisection, is a \<open>while_option\<close> whose return is proved
  (\<open>Interp_Search.np_bisect_returns\<close>).

  \<^bold>\<open>Properties.\<close> \<open>demand_main_table\<close>: every successful run writes the table of
  \<open>write_demand\<close> from non-negative demand vectors, one entry per simulation interval and
  subregion. \<open>demand_main_spec_scenario\<close>: the run of the specification's round-trip
  scenario, evaluated to the text of the demand file and its warnings.
  \<open>demand_uses_last_slope\<close>: the zero-fill of line 180 tests the slope \<open>m\<close> of
  the last method fitted, not of the method selected; a concrete run where the selected
  method has a positive slope and the demand is still zero. \<open>demand_main_succeeds\<close>: on
  every \<open>well_formed_run\<close> \<open>main()\<close> returns a demand file, built from the success lemmas
  of each stage. \<open>Tempfiles\<close>: in every reachable state the temporary files on disk are
  named by the globals (\<open>temp_files_tracked\<close>, by rule induction over the reachable
  states), none is left after the exit handler whichever statement raised
  (\<open>temp_files_removed_at_exit\<close>), the exit is reachable from every state and every run
  is finite. \<open>Script_Options\<close>: after the parser, reading the options of either script
  cannot raise, and the defaults are linear and logarithmic with separator \<open>|\<close>.
  \<open>Univar.gather_developed_correct\<close>: gathering yields each zone's series
  of counts. The potential theorems give the whole trace of a successful run, the removal
  of the temporary files on every path after validation, the two fatal errors, the
  IndexError of a one-field header, the lost trailing empty field, and the Python 2
  comparison that disables the bound check when \<open>max_variables\<close> is given. Across the two
  languages: every value R receives from an accepted command line has its declared type
  (\<open>Script_Options.pot_cli_rscript_typed\<close>); R fits the developed column against the predictor
  columns with a random intercept per subregion and, with \<open>-d\<close>, runs \<open>dredge\<close> with the
  two bounds even when the minimum exceeds the maximum (\<open>RScript.potential_r_fit\<close>); the
  default bound is two less than the number of predictors (\<open>RScript.potential_default_max\<close>);
  the header Python writes, \<open>ID Intercept\<close> and the user's columns, renames exactly the
  two cells R writes first (\<open>RScript.potential_glmer_output\<close>); a missing R package stops
  the program at the first of the three (\<open>RScript.r_script_packages\<close>). The component theories prove
  the lstsq closed form a least-squares solution (\<open>Lstsq.ols_least_squares\<close>), exact
  recovery of linear data, the RMSE and error cases of a fit, minimality of the selected
  method, the cases of the demand, the interpolation at, before and after the samples and
  its bounds, the readback of the demand file and the parsing of \<open>r.univar\<close> lines.
  \<open>Plot\<close>: drawing changes neither the demand file nor the warnings
  (\<open>Plot.demand_run_plot_refines\<close>), and without the option \<open>main()\<close> is
  \<open>demand_main\<close> exactly (\<open>Plot.demand_run_no_plot\<close>); the subregions get the panels
  \<open>1, 2, \<dots>\<close> of a grid that holds them all (\<open>Plot.demand_run_panels\<close>); the
  logarithmic curve is drawn at positive populations only
  (\<open>Plot.demand_run_log_curve_positive\<close>); the plot raises only on empty series
  (\<open>Plot.demand_run_plot_succeeds\<close>); the executable grid size is
  \<open>nat \<lceil>sqrt n\<rceil>\<close> (\<open>Plot.n_plots_of_ceil_sqrt\<close>). Line 198 rebinds \<open>m\<close> after its
  last use at line 180, which is why the order of drawing and zero-fill matters and
  the refinement holds.

  \<^bold>\<open>Not modelled.\<close> The image matplotlib renders and the text formatting of the
  numbers in its titles and labels (\<open>str\<close>, \<open>'{:.3f}'\<close>: the model keeps the numbers); the
  grid size as the float \<open>np.ceil\<close> returns (the model takes the integer it equals;
  \<open>np.sqrt\<close> of a subregion count below \<open>2^52\<close> rounds to the exact ceiling); messages
  and percent output; the file system and the
  subprocess running \<open>r.univar\<close> (its output is an input of the model);
  \<open>numpy.genfromtxt\<close> parsing (its result is an input of the model). In
  r.futures.potential.py: of the R program, the
  statistics of \<open>glmer\<close>, \<open>dredge\<close> and \<open>summary\<close> (lme4 and MuMIn, run by another
  interpreter; the model takes the table R writes and its output as inputs); R's
  \<open>as.integer\<close> is modelled on decimal integer strings, the only ones it receives;
  \<open>v.db.select\<close> and the temporary file names (inputs); a kill signal, which skips the
  \<open>atexit\<close> handler. Of \<open>gcore.parser()\<close>: abbreviated keys and values, a positional
  first option, the \<open>--\<close> flags common to all modules and the GUI it opens when called
  without arguments.
\<close>

definition univar_line :: "string \<Rightarrow> int \<Rightarrow> string" where
  "univar_line z n = z @ ''||0|0|0|1|1|0|0|0|0|0|'' @ py_str_int n @ ''\<newline>''"

definition univar_header :: string where
  "univar_header = ''zone|label|non_null_cells|null_cells|min|max|range|mean|mean_of_abs|stddev|variance|coeff_var|sum\<newline>''"

definition scenario :: run_input where
  "scenario = \<lparr>univar_outputs =
       [univar_header @ univar_line ''1'' 10 @ univar_line ''2'' 5 @ univar_line ''3'' 100,
        univar_header @ univar_line ''1'' 20 @ univar_line ''2'' 5 @ univar_line ''3'' 90,
        univar_header @ univar_line ''1'' 30 @ univar_line ''2'' 5 @ univar_line ''3'' 80],
     observed = [(''year'', [2000, 2005, 2010]), (''1'', [1000, 1500, 2000]), (''2'', [500, 500, 500]),
                 (''3'', [2000, 1800, 1600])],
     projected = [(''year'', [2020, 2030]), (''1'', [2500, 3000]), (''2'', [500, 500]), (''3'', [1400, 1200])],
     simulation_times = [2010, 2020, 2030],
     methods = [Linear]\<rparr>"

definition scenario_text :: string where
  "scenario_text = ''Years_to_simulate: 3\<newline>year'' @ TAB # ''1'' @ TAB # ''2'' @ TAB # ''3\<newline>'' @
     ''2020'' @ TAB # ''10'' @ TAB # ''0'' @ TAB # ''0\<newline>'' @ ''2030'' @ TAB # ''10'' @ TAB # ''0'' @ TAB # ''0\<newline>''"

definition small_run :: run_input where
  "small_run = \<lparr>univar_outputs = [univar_header @ univar_line ''1'' 10, univar_header @ univar_line ''1'' 20],
     observed = [(''year'', [2000, 2010]), (''1'', [100, 200])], projected = [(''year'', [2020]), (''1'', [300])],
     simulation_times = [2010, 2020], methods = [Linear]\<rparr>"

text \<open>The inputs on which \<open>main()\<close> is shown to return: each development raster reports
  the same distinct zones \<open>Z\<close> (counts \<open>C\<close>, one row per raster, at least two, since the
  table of a single observed time is a 0-d array); every zone has an observed
  and a projected population series of the right lengths; methods are requested; the
  series the requested log transforms see are positive; the header names are distinct.\<close>

definition well_formed_run :: "run_input \<Rightarrow> string \<Rightarrow> (string \<Rightarrow> int \<Rightarrow> string) \<Rightarrow> string list \<Rightarrow> int list list \<Rightarrow> bool" where
  "well_formed_run inp h l Z C \<longleftrightarrow>
     univar_outputs inp = map (\<lambda>cs. univar_text h l (zip Z cs)) C \<and> distinct Z \<and> 2 \<le> length C \<and>
     list_all (\<lambda>cs. length cs = length Z) C \<and> parse_univar_line h = Inr None \<and> CHR ''\<newline>'' \<notin> set h \<and>
     list_all (\<lambda>cs. list_all (\<lambda>(z, c). parse_univar_line (l z c) = Inr (Some (z, c)) \<and> CHR ''\<newline>'' \<notin> set (l z c)) (zip Z cs)) C \<and>
     length C = length (time_column (observed inp)) \<and>
     list_all (\<lambda>z. case (map_of (observed inp) z, map_of (projected inp) z) of
                     (Some fo, Some fp) \<Rightarrow> length fo = length C \<and> length fp = length (time_column (projected inp)) \<and>
                                          (Logarithmic \<in> set (methods inp) \<longrightarrow> list_all (\<lambda>x. 0 < x) (fo @ fp))
                   | _ \<Rightarrow> False) Z \<and>
     methods inp \<noteq> [] \<and> (Exponential \<in> set (methods inp) \<longrightarrow> list_all (list_all (\<lambda>c. 0 < c)) C) \<and>
     distinct (map fst (observed inp)) \<and> 2 \<le> length (observed inp)"

text \<open>The events of the small run with the plot option \<open>fig.png\<close>: one panel in a
  \<open>1 \<times> 1\<close> grid, the linear fit \<open>y = x / 10\<close> drawn over ten populations from 100 to 300.\<close>

definition small_plot_events :: "demand_event list" where
  "small_plot_events =
     [Draw (Figure 5), Draw (AddSubplot 1 1 1), Draw (SetTitle ''1, RMSE: '' NaN),
      Draw (SetXLabel ''population''), Draw (SetYLabel ''developed cells''),
      Draw (PlotMarkers [100, 200] [10, 20]),
      Draw (PlotCurve (np_linspace 100 300 10) (map (\<lambda>x. x / 10) (np_linspace 100 300 10)) (LinearLabel 0 (1/10))),
      Draw (PlotHollow [200, 300] [20, 30]), Draw Legend, Draw (RotateTicks 30),
      Draw TightLayout, Draw (SaveFig ''fig.png'')]"

lemmas fit_eval_defs = fit_method_def transform_pop_def transform_dev_def np_lstsq_def ols_coeffs_def gram_det_def
  sum_x_def sum_y_def sum_xx_def sum_xy_def predict_def residuals_def fl_rmse_def np_log_def

lemmas demand_eval_defs = subregion_demand_def select_method_def reg_init_def record_fit_def py_min_key_def
  demand_of_def clamp_negative_def fit_eval_defs

section \<open>Runs of the whole script\<close>

text \<open>One subregion, two development rasters: the RMSE is \<open>nan\<close> (two observations) and the
  linear method is kept.\<close>

lemma small_run_eval:
  "demand_main small_run = Inr (''Years_to_simulate: 2\<newline>year'' @ TAB # ''1\<newline>2020'' @ TAB # ''10\<newline>'', [])"
proof -
  have g: "gather_developed (univar_outputs small_run) = Inr ([(''1'', [10, 20])], [''1''])" by code_simp
  have i: "interp_subregions (simulation_times small_run) (observed small_run) (projected small_run) [''1''] =
      Inr [(''1'', [200, 300])]" by code_simp
  have d: "demand_subregions [Linear] (observed small_run) [(''1'', [10, 20])] [(''1'', [200, 300])] [''1''] =
      Inr ([(''1'', [10])], [])"
    by (simp add: small_run_def pop_column_def demand_eval_defs)
  have w: "write_demand [2010, 2020] (map fst (observed small_run)) [''1''] [(''1'', [10])] =
      Inr (''Years_to_simulate: 2\<newline>year'' @ TAB # ''1\<newline>2020'' @ TAB # ''10\<newline>'')"
    by code_simp
  have s: "length (univar_outputs small_run) = 2" "length (time_column (observed small_run)) = 2"
    "simulation_times small_run = [2010, 2020]" "methods small_run = [Linear]"
    by (simp_all add: small_run_def time_column_def)
  show ?thesis using g i d w by (simp add: demand_main_def s)
qed

text \<open>C2: the scenario of the specification: three subregions, three development rasters, the
  linear method. Subregion 1 grows by 10 cells per step; subregion 2 gets zero demand;
  subregion 3, whose population and developed cells both fall, has a positive slope, so its
  negative first difference is clamped to zero with the negative-demand warning and no
  inverse-relation warning is issued.\<close>

theorem demand_main_spec_scenario: "demand_main scenario = Inr (scenario_text, [NegativeDemand ''3''])"
proof -
  have t: "length (univar_outputs scenario) = length (time_column (observed scenario))"
    "length (time_column (observed scenario)) = 3" by code_simp+
  have g: "gather_developed (univar_outputs scenario) =
      Inr ([(''1'', [10, 20, 30]), (''2'', [5, 5, 5]), (''3'', [100, 90, 80])], [''1'', ''2'', ''3''])"
    by code_simp
  have i: "interp_subregions (simulation_times scenario) (observed scenario) (projected scenario) [''1'', ''2'', ''3''] =
      Inr [(''1'', [2000, 2500, 3000]), (''2'', [500, 500, 500]), (''3'', [1600, 1400, 1200])]"
    by code_simp
  have d: "demand_subregions [Linear] (observed scenario) [(''1'', [10, 20, 30]), (''2'', [5, 5, 5]), (''3'', [100, 90, 80])]
      [(''1'', [2000, 2500, 3000]), (''2'', [500, 500, 500]), (''3'', [1600, 1400, 1200])] [''1'', ''2'', ''3''] =
      Inr ([(''1'', [10, 10]), (''2'', [0, 0]), (''3'', [0, 0])], [NegativeDemand ''3''])"
    by (simp add: scenario_def pop_column_def demand_eval_defs)
  have w: "write_demand [2010, 2020, 2030] (map fst (observed scenario)) [''1'', ''2'', ''3'']
      [(''1'', [10, 10]), (''2'', [0, 0]), (''3'', [0, 0])] = Inr scenario_text"
    by code_simp
  have s: "simulation_times scenario = [2010, 2020, 2030]" "methods scenario = [Linear]"
    by (simp_all add: scenario_def)
  show ?thesis using t g i d w by (simp add: demand_main_def s)
qed

section \<open>Methods that tie\<close>

text \<open>One subregion whose observed population does not change: both fits are
  rank-deficient, take the minimum-norm solution and have the same RMSE.\<close>

lemma tie_linear:
  "fit_method ''1'' Linear [1/2, 1/2, 1/2] [3, 4, 5] [1/2, 1] =
     Inr \<lparr>f_coeff = (8/5, 16/5), f_predicted = [4, 24/5], f_rmse = Fin (sqrt 2)\<rparr>"
  by (simp add: fit_eval_defs)

lemma tie_log:
  "fit_method ''1'' Logarithmic [1/2, 1/2, 1/2] [3, 4, 5] [1/2, 1] =
     Inr \<lparr>f_coeff = (4 * ln (1/2) / (ln (1/2) * ln (1/2) + 1), 4 / (ln (1/2) * ln (1/2) + 1)),
          f_predicted = [4, 4 / (ln (1/2) * ln (1/2) + 1)], f_rmse = Fin (sqrt 2)\<rparr>"
proof -
  let ?L = "ln (1/2 :: real)"
  have c: "ols_coeffs [(?L, 3), (?L, 4), (?L, 5)] = (4 * ?L / (?L * ?L + 1), 4 / (?L * ?L + 1))"
    by (rule ols_const_x) (simp_all add: sum_y_def)
  have f0: "?L * (4 * ?L / (?L * ?L + 1)) + 4 / (?L * ?L + 1) = 4"
    using min_norm_fit [of 4 ?L] by (simp add: mult.commute)
  then have f: "?L * (4 * ?L) / (?L * ?L + 1) + 4 / (?L * ?L + 1) = 4"
    by (simp only: times_divide_eq_right)
  show ?thesis
    by (simp add: fit_method_def transform_pop_def transform_dev_def np_lstsq_def np_log_def c
                  predict_def residuals_def f fl_rmse_def)
qed

section \<open>The stages of a successful run\<close>

lemma demand_stage:
  assumes wf: "well_formed_run inp h l Z C"
    and k: "map fst tbl = Z" and m: "\<forall>j < length Z. map_of tbl (Z ! j) = Some (map (\<lambda>cs. cs ! j) C)"
    and i: "interp_subregions (simulation_times inp) (observed inp) (projected inp) Z = Inr popsim"
    and sid: "sid \<in> set Z"
  shows "\<exists>op d ws. pop_column (observed inp) sid = Inr op \<and>
           subregion_demand sid (methods inp) op (the (map_of tbl sid)) (the (map_of popsim sid)) = Inr (d, ws)"
proof -
  obtain j where j: "j < length Z" "sid = Z ! j" using sid by (auto simp: in_set_conv_nth)
  have zc: "case (map_of (observed inp) sid, map_of (projected inp) sid) of
              (Some fo, Some fp) \<Rightarrow> length fo = length C \<and> length fp = length (time_column (projected inp)) \<and>
                                   (Logarithmic \<in> set (methods inp) \<longrightarrow> list_all (\<lambda>x. 0 < x) (fo @ fp))
            | _ \<Rightarrow> False"
    using wf sid by (simp add: well_formed_run_def list_all_iff)
  then obtain fo fp where fo: "map_of (observed inp) sid = Some fo" and fp: "map_of (projected inp) sid = Some fp"
    and lfo: "length fo = length C"
    and lpos: "Logarithmic \<in> set (methods inp) \<Longrightarrow> \<forall>x\<in>set (fo @ fp). 0 < x"
    by (auto simp: list_all_iff split: option.splits)
  have dev: "the (map_of tbl sid) = map (\<lambda>cs. cs ! j) C" using m j by simp
  obtain v where v: "map_of popsim sid = Some v" "length v = length (simulation_times inp)"
    using interp_subregions_lookup [OF i sid] by blast
  have vpos: "\<forall>y\<in>set v. 0 < y" if "Logarithmic \<in> set (methods inp)"
  proof -
    have "\<forall>sid\<in>set Z. \<forall>c. (pop_column (observed inp) sid = Inr c \<or> pop_column (projected inp) sid = Inr c) \<longrightarrow> (\<forall>f\<in>set c. 0 < f)"
      using wf that by (fastforce simp: well_formed_run_def list_all_iff pop_column_def split: option.splits)
    from interp_subregions_pos [OF i this] v(1) show ?thesis by (auto dest: map_of_SomeD)
  qed
  have epos: "\<forall>d\<in>set (map (\<lambda>cs. cs ! j) C). 0 < d" if "Exponential \<in> set (methods inp)"
    using wf that j by (auto simp: well_formed_run_def list_all_iff)
  have "\<exists>d ws. subregion_demand sid (methods inp) fo (map (\<lambda>cs. cs ! j) C) v = Inr (d, ws)"
    using wf lfo lpos vpos epos by (intro subregion_demand_succeeds) (auto simp: well_formed_run_def)
  with fo v dev show ?thesis by (simp add: pop_column_def)
qed

section \<open>Properties of the pipeline\<close>

text \<open>C1: every successful run of \<open>main()\<close> writes the demand file that \<open>write_demand\<close>
  produces from the sorted subregions and a demand vector for each, of one non-negative
  entry per simulation interval.\<close>

theorem demand_main_table:
  assumes "demand_main inp = Inr (txt, ws)"
  shows "\<exists>ids dm. write_demand (simulation_times inp) (map fst (observed inp)) ids dm = Inr txt \<and>
           vectors_cover ids dm (length (simulation_times inp) - 1) \<and>
           (\<forall>(sid, d)\<in>set dm. length d = length (simulation_times inp) - 1 \<and> (\<forall>v\<in>set d. 0 \<le> v))"
proof -
  let ?sim = "simulation_times inp"
  from assms obtain tbl ids popsim dm ws' where
    g: "gather_developed (univar_outputs inp) = Inr (tbl, ids)" and
    i: "interp_subregions ?sim (observed inp) (projected inp) (map fst tbl) = Inr popsim" and
    d: "demand_subregions (methods inp) (observed inp) tbl popsim ids = Inr (dm, ws')" and
    w: "write_demand ?sim (map fst (observed inp)) ids dm = Inr txt"
    by (auto simp: demand_main_def res_bind_eq_Inr split: if_splits prod.splits)
  have ids: "set ids = fst ` set tbl" using gather_developed_ids [OF g] .
  have "\<forall>sid\<in>set ids. \<exists>v. map_of popsim sid = Some v \<and> length v = length ?sim"
    using interp_subregions_lookup [OF i] ids by simp
  from demand_subregions_vectors [OF d this]
  have keys: "map fst dm = ids" and vec: "\<forall>(sid, d)\<in>set dm. length d = length ?sim - 1 \<and> (\<forall>x\<in>set d. 0 \<le> x)"
    by simp_all
  have "vectors_cover ids dm (length ?sim - 1)"
    using vectors_cover_of [OF keys] vec by auto
  with w vec show ?thesis by blast
qed

theorem demand_main_table_witness:
  "\<exists>ids dm. write_demand [2010, 2020] [''year'', ''1''] ids dm =
        Inr (''Years_to_simulate: 2\<newline>year'' @ TAB # ''1\<newline>2020'' @ TAB # ''10\<newline>'') \<and>
      vectors_cover ids dm 1 \<and> (\<forall>(sid, d)\<in>set dm. length d = 1 \<and> (\<forall>v\<in>set d. 0 \<le> v))"
  using demand_main_table [OF small_run_eval] by (simp add: small_run_def)

text \<open>C3: the zero-fill and warning of lines 180--183 test the slope \<open>m\<close> left by the last
  method of the loop, not the slope of the selected method. With the methods linear and
  logarithmic on a constant population of 1/2, both fits have RMSE \<open>\<surd>2\<close>, so \<open>min\<close> keeps
  the linear method, whose slope 8/5 is positive and whose predictions grow by 4/5; the
  logarithmic slope \<open>4 ln(1/2) / (ln(1/2)\<^sup>2 + 1)\<close> is negative, and the demand is set to
  zero with the inverse-relation warning.\<close>

theorem demand_uses_last_slope:
  "(\<exists>st. select_method ''1'' [Linear, Logarithmic] [1/2, 1/2, 1/2] [3, 4, 5] [1/2, 1] = Inr (st, Linear) \<and>
        map_of (coeff_d st) Linear = Some (8/5, 16/5) \<and> map_of (predicted_d st) Linear = Some [4, 24/5]) \<and>
   subregion_demand ''1'' [Linear, Logarithmic] [1/2, 1/2, 1/2] [3, 4, 5] [1/2, 1] = Inr ([0], [InverseRelation ''1''])"
proof -
  let ?L = "ln (1/2 :: real)"
  have "?L < 0" by simp
  then have neg: "4 * ?L / (?L * ?L + 1) < 0"
    by (intro divide_neg_pos) (simp_all add: add_nonneg_pos)
  define st where "st = \<lparr>rmse_d = [(Linear, Fin (sqrt 2)), (Logarithmic, Fin (sqrt 2))],
      predicted_d = [(Linear, [4, 24/5]), (Logarithmic, [4, 4 / (?L * ?L + 1)])],
      coeff_d = [(Linear, (8/5, 16/5)), (Logarithmic, (4 * ?L / (?L * ?L + 1), 4 / (?L * ?L + 1)))],
      last_m = 4 * ?L / (?L * ?L + 1)\<rparr>"
  have "regress_loop ''1'' [Linear, Logarithmic] [1/2, 1/2, 1/2] [3, 4, 5] [1/2, 1] reg_init = Inr st"
    by (simp add: tie_linear tie_log reg_init_def record_fit_def st_def)
  then have sel: "select_method ''1'' [Linear, Logarithmic] [1/2, 1/2, 1/2] [3, 4, 5] [1/2, 1] = Inr (st, Linear)"
    by (simp add: select_method_def py_min_key_def min_step_def st_def)
  have "subregion_demand ''1'' [Linear, Logarithmic] [1/2, 1/2, 1/2] [3, 4, 5] [1/2, 1] = Inr ([0], [InverseRelation ''1''])"
    using neg by (simp add: subregion_demand_def sel demand_of_def clamp_negative_def st_def)
  with sel show ?thesis by (auto simp: st_def)
qed


text \<open>C8: on well-formed inputs (every raster reports the same distinct zones with readable
  counts, there are at least two rasters, the number of rasters is that of the observed times, every zone has population
  series of the right lengths, methods are requested, the series the requested log
  transforms see are positive, the header names are distinct) \<open>main()\<close> returns and
  writes the demand file: none of its exceptions or fatal errors is raised.\<close>

theorem demand_main_succeeds:
  assumes wf: "well_formed_run inp h l Z C"
  shows "\<exists>txt ws. demand_main inp = Inr (txt, ws)"
proof -
  have g0: "distinct Z" "C \<noteq> []" "\<forall>cs\<in>set C. length cs = length Z" "parse_univar_line h = Inr None"
    "CHR ''\<newline>'' \<notin> set h"
    "\<forall>cs\<in>set C. \<forall>(z, c)\<in>set (zip Z cs). parse_univar_line (l z c) = Inr (Some (z, c)) \<and> CHR ''\<newline>'' \<notin> set (l z c)"
    using wf by (auto simp: well_formed_run_def list_all_iff)
  obtain tbl where g: "gather_developed (univar_outputs inp) = Inr (tbl, sort Z)" and k: "map fst tbl = Z"
    and m: "\<forall>j < length Z. map_of tbl (Z ! j) = Some (map (\<lambda>cs. cs ! j) C)"
    using gather_developed_series [OF g0] wf by (auto simp: well_formed_run_def)
  have one: "length (time_column (observed inp)) \<noteq> 1"
    using wf by (simp add: well_formed_run_def)
  have cnt: "length (univar_outputs inp) = length (time_column (observed inp))"
    using wf by (simp add: well_formed_run_def)
  have "\<forall>sid\<in>set Z. \<exists>fo fp. pop_column (observed inp) sid = Inr fo \<and> pop_column (projected inp) sid = Inr fp \<and>
          length fo + length fp = length (time_column (observed inp)) + length (time_column (projected inp))"
    using wf by (fastforce simp: well_formed_run_def list_all_iff pop_column_def split: option.splits)
  moreover have "time_column (observed inp) @ time_column (projected inp) \<noteq> []"
    using wf by (auto simp: well_formed_run_def)
  ultimately obtain popsim where
    i: "interp_subregions (simulation_times inp) (observed inp) (projected inp) Z = Inr popsim"
    using interp_subregions_succeeds by blast
  obtain dm ws where d: "demand_subregions (methods inp) (observed inp) tbl popsim (sort Z) = Inr (dm, ws)"
    using demand_subregions_succeeds demand_stage [OF wf k m i] by (metis set_sort)
  have "\<forall>sid\<in>set (sort Z). \<exists>v. map_of popsim sid = Some v \<and> length v = length (simulation_times inp)"
    using interp_subregions_lookup [OF i] by simp
  then obtain out where w: "write_demand (simulation_times inp) (map fst (observed inp)) (sort Z) dm = Inr out"
    using demand_write_succeeds [OF d] wf by (fastforce simp: well_formed_run_def)
  show ?thesis using demand_main_stages [OF one cnt g _ d w] i k by blast
qed

lemma small_run_well_formed:
  "well_formed_run small_run ''zone|label|non_null_cells|null_cells|min|max|range|mean|mean_of_abs|stddev|variance|coeff_var|sum''
     example_line [''1''] [[10], [20]]"
  by code_simp

theorem demand_main_succeeds_witness: "\<exists>out ws. demand_main small_run = Inr (out, ws)"
  using demand_main_succeeds [OF small_run_well_formed] .

section \<open>Runs with the plot\<close>

lemma savefig_formats_eval: "savefig_format ''fig.png'' = ''png''" "savefig_format ''fig.xyz'' = ''xyz''"
  by code_simp+

lemma small_run_plot_eval:
  "demand_run small_run ''fig.png'' [''png''] =
     Inr (''Years_to_simulate: 2\<newline>year'' @ TAB # ''1\<newline>2020'' @ TAB # ''10\<newline>'', small_plot_events)"
proof -
  have g: "gather_developed (univar_outputs small_run) = Inr ([(''1'', [10, 20])], [''1''])" by code_simp
  have i: "interp_subregions (simulation_times small_run) (observed small_run) (projected small_run) [''1''] =
      Inr [(''1'', [200, 300])]" by code_simp
  have n: "n_plots_of 1 = 1" by (simp add: n_plots_of_def ceil_sqrt_search.simps)
  have d: "plot_loop ''fig.png'' 1 0 [Linear] (observed small_run) [(''1'', [10, 20])] [(''1'', [200, 300])] [''1''] =
      Inr ([(''1'', [10])], butlast (butlast (tl small_plot_events)))"
    by (simp add: small_run_def small_plot_events_def pop_column_def demand_eval_defs draw_subregion_def
                  np_min_def np_max_def curve_def Let_def)
  have w: "write_demand [2010, 2020] (map fst (observed small_run)) [''1''] [(''1'', [10])] =
      Inr (''Years_to_simulate: 2\<newline>year'' @ TAB # ''1\<newline>2020'' @ TAB # ''10\<newline>'')"
    by code_simp
  have s: "length (univar_outputs small_run) = 2" "length (time_column (observed small_run)) = 2"
    "simulation_times small_run = [2010, 2020]" "methods small_run = [Linear]"
    by (simp_all add: small_run_def time_column_def)
  show ?thesis using g i d w n savefig_formats_eval by (simp add: demand_run_def s small_plot_events_def)
qed

theorem demand_run_plot_refines_witness:
  "demand_main small_run = Inr (''Years_to_simulate: 2\<newline>year'' @ TAB # ''1\<newline>2020'' @ TAB # ''10\<newline>'',
     warnings_of small_plot_events)"
  using demand_run_plot_refines [OF small_run_plot_eval] .

theorem demand_run_panels_witness:
  "panels small_plot_events = [(1, 1, 1)] \<and> 1 \<le> n_plots_of 1 * n_plots_of 1"
proof -
  have g: "gather_developed (univar_outputs small_run) = Inr ([(''1'', [10, 20])], [''1''])" by code_simp
  have n: "n_plots_of 1 = 1" by (simp add: n_plots_of_def ceil_sqrt_search.simps)
  show ?thesis using demand_run_panels [OF small_run_plot_eval _ g] n by simp
qed

theorem demand_run_curve_domain_witness:
  "\<exists>sid op sim. pop_column (observed small_run) sid = Inr op \<and>
     interp_subregions (simulation_times small_run) (observed small_run) (projected small_run) [sid] = Inr [(sid, sim)] \<and>
     length (np_linspace 100 300 10) = 10 \<and> hd (np_linspace 100 300 10) = Min (set op) \<and>
     last (np_linspace 100 300 10) = Max (set sim) \<and>
     list_all (\<lambda>x. min (Min (set op)) (Max (set sim)) \<le> x \<and> x \<le> max (Min (set op)) (Max (set sim)))
       (np_linspace 100 300 10)"
proof -
  have "Draw (PlotCurve (np_linspace 100 300 10) (map (\<lambda>x. x / 10) (np_linspace 100 300 10)) (LinearLabel 0 (1/10)))
          \<in> set small_plot_events" by (simp add: small_plot_events_def)
  then show ?thesis by (rule demand_run_curve_domain [OF small_run_plot_eval])
qed

lemma small_run_series:
  "simulation_times small_run \<noteq> []" "\<forall>(k, c)\<in>set (observed small_run). c \<noteq> []"
  by (simp_all add: small_run_def)

theorem demand_run_plot_succeeds_witness:
  "\<exists>evs. demand_run small_run ''fig.png'' [''png''] =
     Inr (''Years_to_simulate: 2\<newline>year'' @ TAB # ''1\<newline>2020'' @ TAB # ''10\<newline>'', evs) \<and> warnings_of evs = []"
  using demand_run_plot_succeeds [OF small_run_eval small_run_series] savefig_formats_eval by simp


end
